(* ===== verification/Prelude.thy ===== *)
theory Prelude
  imports Main "HOL-Library.Word" "HOL-Library.Code_Target_Nat"
begin

text \<open>
  Shared vocabulary of the development.

  \<^item> names for the machine integers of the source (\<open>u8\<close>, \<open>u16\<close>, \<open>u64\<close>);
    a \<open>usize\<close> or a \<open>Duration\<close> that is only compared is a \<open>nat\<close>;
  \<^item> Rust's \<open>Result\<close> as the datatype \<open>result\<close> with the constructors \<open>Ok\<close> and \<open>Err\<close>,
    and \<open>and_then\<close> for the \<open>?\<close> operator;
  \<^item> the pieces of the standard library the source uses on bytes and text: big-endian integers,
    decimal integers, ASCII classes, \<open>chunks_exact(2)\<close>;
  \<^item> the collections \<open>res_simps\<close> (evaluation of results) and \<open>byte_simps\<close>
    (byte-list layout), to which the component theories add their own facts.
\<close>

unbundle bit_operations_syntax

named_theorems res_simps \<open>evaluation of results and options\<close>
named_theorems byte_simps \<open>layout of byte sequences\<close>

type_synonym u8 = "8 word"
type_synonym u16 = "16 word"
type_synonym u64 = "64 word"
type_synonym bytes = "u8 list"


lemma unat_u64_less [simp]: "unat (w :: u64) < 18446744073709551616"
  using unsigned_less [of w] by simp

lemma unat_u8_less [simp]: "unat (w :: u8) < 256"
  using unsigned_less [of w] by simp


lemma sorted_distinct_adj_strict:
  fixes xs :: "'a::linorder list"
  shows "sorted xs \<Longrightarrow> distinct_adj xs \<Longrightarrow> sorted_wrt (<) xs"
proof (induction xs)
  case Nil
  show ?case by simp
next
  case (Cons x xs)
  show ?case
  proof (cases xs)
    case Nil
    then show ?thesis by simp
  next
    case (Cons y ys)
    with Cons.prems have "x < y" by (auto simp: distinct_adj_Cons le_less)
    moreover have "sorted_wrt (<) xs" using Cons.prems Cons.IH by (simp add: distinct_adj_ConsD)
    ultimately show ?thesis using Cons by auto
  qed
qed


section \<open>Results\<close>

datatype ('a, 'e) result = Ok 'a | Err 'e

fun and_then :: "('a, 'e) result \<Rightarrow> ('a \<Rightarrow> ('b, 'e) result) \<Rightarrow> ('b, 'e) result" where
  "and_then (Ok a) f = f a"
| "and_then (Err e) f = Err e"

fun map_ok :: "('a \<Rightarrow> 'b) \<Rightarrow> ('a, 'e) result \<Rightarrow> ('b, 'e) result" where
  "map_ok f (Ok a) = Ok (f a)"
| "map_ok f (Err e) = Err e"

fun map_err :: "('e \<Rightarrow> 'f) \<Rightarrow> ('a, 'e) result \<Rightarrow> ('a, 'f) result" where
  "map_err f (Ok a) = Ok a"
| "map_err f (Err e) = Err (f e)"

fun ok_or :: "'a option \<Rightarrow> 'e \<Rightarrow> ('a, 'e) result" where
  "ok_or (Some a) e = Ok a"
| "ok_or None e = Err e"

fun is_ok :: "('a, 'e) result \<Rightarrow> bool" where
  "is_ok (Ok a) = True"
| "is_ok (Err e) = False"

text \<open>\<open>fail_if b e\<close> is the early return \<open>if b { return Err(e) }\<close>.\<close>

definition fail_if :: "bool \<Rightarrow> 'e \<Rightarrow> (unit, 'e) result" where
  "fail_if b e = (if b then Err e else Ok ())"

lemma and_then_eq_Ok [res_simps]:
  "and_then r f = Ok b \<longleftrightarrow> (\<exists>a. r = Ok a \<and> f a = Ok b)"
  by (cases r) auto

lemma and_then_eq_Err [res_simps]:
  "and_then r f = Err e \<longleftrightarrow> r = Err e \<or> (\<exists>a. r = Ok a \<and> f a = Err e)"
  by (cases r) auto

lemma map_ok_eq_Ok [res_simps]: "map_ok f r = Ok b \<longleftrightarrow> (\<exists>a. r = Ok a \<and> b = f a)"
  by (cases r) auto

lemma map_ok_eq_Err [res_simps]: "map_ok f r = Err e \<longleftrightarrow> r = Err e"
  by (cases r) auto

lemma map_err_eq_Ok [res_simps]: "map_err f r = Ok a \<longleftrightarrow> r = Ok a"
  by (cases r) auto

lemma map_err_eq_Err [res_simps]: "map_err f r = Err e \<longleftrightarrow> (\<exists>e'. r = Err e' \<and> e = f e')"
  by (cases r) auto

lemma ok_or_eq_Ok [res_simps]: "ok_or x e = Ok a \<longleftrightarrow> x = Some a"
  by (cases x) auto

lemma ok_or_eq_Err [res_simps]: "ok_or x e = Err e' \<longleftrightarrow> x = None \<and> e' = e"
  by (cases x) auto

lemma fail_if_eq_Ok [res_simps]: "fail_if b e = Ok u \<longleftrightarrow> \<not> b"
  by (simp add: fail_if_def)

lemma fail_if_eq_Err [res_simps]: "fail_if b e = Err e' \<longleftrightarrow> b \<and> e' = e"
  by (auto simp: fail_if_def)

lemma is_ok_iff [res_simps]: "is_ok r \<longleftrightarrow> (\<exists>a. r = Ok a)"
  by (cases r) auto


section \<open>Big-endian integers\<close>

text \<open>\<open>to_be_bytes n w\<close> is \<open>w.to_be_bytes()\<close> for an \<open>n\<close>-byte integer type.\<close>

fun to_be_bytes :: "nat \<Rightarrow> 'a::len word \<Rightarrow> bytes" where
  "to_be_bytes 0 w = []"
| "to_be_bytes (Suc n) w = to_be_bytes n (drop_bit 8 w) @ [ucast w]"

definition from_be_bytes :: "bytes \<Rightarrow> 'a::len word" where
  "from_be_bytes bs = foldl (\<lambda>acc b. push_bit 8 acc OR ucast b) 0 bs"

lemma length_to_be_bytes [simp, byte_simps]: "length (to_be_bytes n w) = n"
  by (induction n arbitrary: w) auto

lemma from_be_bytes_Nil [simp]: "from_be_bytes [] = 0"
  by (simp add: from_be_bytes_def)

lemma from_be_bytes_snoc [simp]:
  "from_be_bytes (bs @ [b]) = (push_bit 8 (from_be_bytes bs) OR ucast b)"
  by (simp add: from_be_bytes_def)

lemma from_to_be_bytes: "from_be_bytes (to_be_bytes n (w :: 'a::len word)) = take_bit (8 * n) w"
proof (induction n arbitrary: w)
  case 0
  show ?case by simp
next
  case (Suc n)
  have "from_be_bytes (to_be_bytes (Suc n) w)
      = (push_bit 8 (take_bit (8 * n) (drop_bit 8 w)) OR ucast (ucast w :: u8))"
    by (simp add: Suc.IH)
  also have "\<dots> = take_bit (8 * Suc n) w"
    by (rule bit_eqI) (auto simp: bit_simps)
  finally show ?case .
qed

lemma from_to_be_bytes_u64 [simp]: "from_be_bytes (to_be_bytes 8 (w :: u64)) = w"
proof -
  have "from_be_bytes (to_be_bytes 8 w) = take_bit 64 w"
    by (simp only: from_to_be_bytes) simp
  also have "\<dots> = w"
    by (rule bit_eqI) (auto simp: bit_simps dest: bit_imp_le_length)
  finally show ?thesis .
qed

lemma from_to_be_bytes_u16 [simp]: "from_be_bytes (to_be_bytes 2 (w :: u16)) = w"
proof -
  have "from_be_bytes (to_be_bytes 2 w) = take_bit 16 w"
    by (simp only: from_to_be_bytes) simp
  also have "\<dots> = w"
    by (rule bit_eqI) (auto simp: bit_simps dest: bit_imp_le_length)
  finally show ?thesis .
qed

lemma to_be_bytes_u64_inject: "to_be_bytes 8 (v :: u64) = to_be_bytes 8 w \<longleftrightarrow> v = w"
  by (metis from_to_be_bytes_u64)

lemma from_be_bytes_bounded:
  "8 * length bs \<le> LENGTH('a::len) \<Longrightarrow> take_bit (8 * length bs) (from_be_bytes bs :: 'a word) = from_be_bytes bs"
proof (induction bs rule: rev_induct)
  case Nil
  show ?case by simp
next
  case (snoc b bs)
  let ?x = "from_be_bytes bs :: 'a word"
  have IH: "take_bit (8 * length bs) ?x = ?x"
    using snoc by simp
  have "bit (push_bit 8 ?x OR ucast b) i \<Longrightarrow> i < 8 * length (bs @ [b])" for i
    by (subst (asm) IH [symmetric]) (auto simp: bit_simps dest: bit_imp_le_length)
  then show ?case
    by (intro bit_eqI) (auto simp: bit_simps)
qed

lemma to_from_be_bytes:
  "8 * length bs \<le> LENGTH('a::len) \<Longrightarrow> to_be_bytes (length bs) (from_be_bytes bs :: 'a word) = bs"
proof (induction bs rule: rev_induct)
  case Nil
  show ?case by simp
next
  case (snoc b bs)
  let ?x = "from_be_bytes bs :: 'a word"
  have len: "8 * length bs + 8 \<le> LENGTH('a)"
    using snoc.prems by simp
  have bnd: "take_bit (8 * length bs) ?x = ?x"
    using len by (intro from_be_bytes_bounded) simp
  have hi: "bit ?x i \<Longrightarrow> i < 8 * length bs" for i
    by (subst (asm) bnd [symmetric]) (simp add: bit_simps)
  have "drop_bit 8 (push_bit 8 ?x OR ucast b) = ?x"
    by (rule bit_eqI) (use hi len in \<open>fastforce simp: bit_simps dest: bit_imp_le_length\<close>)
  moreover have "(ucast (push_bit 8 ?x OR ucast b) :: u8) = b"
    by (rule bit_eqI) (use len in \<open>auto simp: bit_simps dest: bit_imp_le_length\<close>)
  ultimately show ?case
    using snoc.IH len by simp
qed


section \<open>Text\<close>

text \<open>A Rust string is its UTF-8 bytes; \<open>s.len()\<close> is \<open>length s\<close>.\<close>

abbreviation code :: "char \<Rightarrow> nat" where
  "code c \<equiv> of_char c"

definition is_ascii_upper :: "char \<Rightarrow> bool" where
  "is_ascii_upper c \<longleftrightarrow> 65 \<le> code c \<and> code c \<le> 90"

definition is_ascii_lower :: "char \<Rightarrow> bool" where
  "is_ascii_lower c \<longleftrightarrow> 97 \<le> code c \<and> code c \<le> 122"

definition is_ascii_digit :: "char \<Rightarrow> bool" where
  "is_ascii_digit c \<longleftrightarrow> 48 \<le> code c \<and> code c \<le> 57"

definition is_ascii_alphanumeric :: "char \<Rightarrow> bool" where
  "is_ascii_alphanumeric c \<longleftrightarrow> is_ascii_upper c \<or> is_ascii_lower c \<or> is_ascii_digit c"

definition to_ascii_lower :: "char \<Rightarrow> char" where
  "to_ascii_lower c = (if is_ascii_upper c then char_of (code c + 32) else c)"

text \<open>\<open>first_bad p s\<close> is the index at which \<open>s.bytes().enumerate()\<close> meets a byte with \<open>p\<close>.\<close>

fun first_bad :: "('a \<Rightarrow> bool) \<Rightarrow> 'a list \<Rightarrow> nat option" where
  "first_bad p [] = None"
| "first_bad p (c # cs) = (if p c then Some 0 else map_option Suc (first_bad p cs))"

lemma first_bad_None_iff: "first_bad p s = None \<longleftrightarrow> (\<forall>c \<in> set s. \<not> p c)"
  by (induction s) auto

lemma first_bad_Some_iff:
  "first_bad p s = Some i \<longleftrightarrow> i < length s \<and> p (s ! i) \<and> (\<forall>j < i. \<not> p (s ! j))"
proof (induction s arbitrary: i)
  case Nil
  show ?case by simp
next
  case (Cons c cs)
  show ?case
    by (cases i) (auto simp: Cons.IH less_Suc_eq_0_disj)
qed


subsection \<open>Decimal integers\<close>

definition dec_digit :: "nat \<Rightarrow> char" where
  "dec_digit d = char_of (48 + d)"

definition dec_value :: "char \<Rightarrow> nat option" where
  "dec_value c = (if is_ascii_digit c then Some (code c - 48) else None)"

text \<open>\<open>format_dec n\<close> is the \<open>Display\<close> text of an unsigned integer.\<close>

fun format_dec :: "nat \<Rightarrow> string" where
  "format_dec n = (if n < 10 then [dec_digit n] else format_dec (n div 10) @ [dec_digit (n mod 10)])"

declare format_dec.simps [simp del]

fun read_dec :: "nat \<Rightarrow> string \<Rightarrow> nat option" where
  "read_dec acc [] = Some acc"
| "read_dec acc (c # cs) =
     (case dec_value c of None \<Rightarrow> None | Some d \<Rightarrow> read_dec (10 * acc + d) cs)"

text \<open>
  \<open>parse_unsigned bound s\<close> is \<open>s.parse\<close> for an unsigned type with \<open>bound\<close> values:
  one leading plus is accepted, at least one digit is required, a minus is a bad digit and a value
  outside the type is an error.
\<close>

definition parse_unsigned :: "nat \<Rightarrow> string \<Rightarrow> nat option" where
  "parse_unsigned bound s =
     (let ds = (case s of [] \<Rightarrow> [] | c # cs \<Rightarrow> if c = CHR ''+'' then cs else s)
      in if ds = [] then None
         else case read_dec 0 ds of
                None \<Rightarrow> None
              | Some n \<Rightarrow> if n < bound then Some n else None)"

text \<open>\<open>parse_i64_negative s\<close>: \<open>s.parse::<i64>()\<close> succeeds with a negative number.\<close>

definition parse_i64_negative :: "string \<Rightarrow> bool" where
  "parse_i64_negative s =
     (case s of
        [] \<Rightarrow> False
      | c # ds \<Rightarrow>
          c = CHR ''-'' \<and> ds \<noteq> []
          \<and> (case read_dec 0 ds of None \<Rightarrow> False | Some n \<Rightarrow> 0 < n \<and> n \<le> 2 ^ 63))"

lemma dec_value_digit: "d < 10 \<Longrightarrow> dec_value (dec_digit d) = Some d"
  by (simp add: dec_value_def dec_digit_def is_ascii_digit_def of_char_of)

lemma dec_digit_not_plus: "d < 10 \<Longrightarrow> dec_digit d \<noteq> CHR ''+''"
proof
  assume d: "d < 10" and eq: "dec_digit d = CHR ''+''"
  have "code (dec_digit d) = 48 + d"
    using d by (simp add: dec_digit_def of_char_of)
  with eq show False by simp
qed

lemma read_dec_append:
  "read_dec acc (xs @ ys) = (case read_dec acc xs of None \<Rightarrow> None | Some n \<Rightarrow> read_dec n ys)"
  by (induction acc xs rule: read_dec.induct) (auto split: option.splits)

lemma read_format_dec: "read_dec 0 (format_dec n) = Some n"
proof (induction n rule: format_dec.induct)
  case (1 n)
  show ?case
  proof (cases "n < 10")
    case True
    then show ?thesis by (subst format_dec.simps) (simp add: dec_value_digit)
  next
    case False
    with "1.IH" have "read_dec 0 (format_dec (n div 10)) = Some (n div 10)" by simp
    with False show ?thesis
      by (subst format_dec.simps) (simp add: read_dec_append dec_value_digit)
  qed
qed

lemma format_dec_nonempty [simp]: "format_dec n \<noteq> []"
  by (subst format_dec.simps) simp

lemma hd_format_dec: "hd (format_dec n) \<noteq> CHR ''+''"
proof (induction n rule: format_dec.induct)
  case (1 n)
  show ?case
  proof (cases "n < 10")
    case True
    then show ?thesis by (subst format_dec.simps) (simp add: dec_digit_not_plus)
  next
    case False
    with "1.IH" show ?thesis by (subst format_dec.simps) (simp add: hd_append)
  qed
qed

lemma parse_format_dec: "n < bound \<Longrightarrow> parse_unsigned bound (format_dec n) = Some n"
  using hd_format_dec [of n] read_format_dec [of n]
  by (cases "format_dec n") (auto simp: parse_unsigned_def)

lemma parse_unsigned_bound: "parse_unsigned bound s = Some n \<Longrightarrow> n < bound"
  by (auto simp: parse_unsigned_def Let_def split: option.splits if_splits)

end
