(* ===== verification/Ids.thy ===== *)
theory Ids
  imports Prelude
begin

text \<open>
  The identifiers of \<open>crates/zephyrvox-types\<close>: \<open>ids.rs\<close> (Snowflake, Geid, Cursor, Checkpoint,
  StreamTypeId), \<open>fixed_ids.rs\<close> (the 128-bit hexadecimal identifiers), \<open>opaque.rs\<close> (Etag) and
  \<open>errors.rs\<close>. The locales \<open>text_codec\<close> and \<open>canonical_codec\<close> state what every textual
  identifier promises; each identifier interprets one of them.
\<close>

section \<open>Errors\<close>

datatype id_error =
    ZeroSnowflake
  | SnowflakeOutOfRange u64
  | NegativeSnowflake
  | InvalidDecimal string
  | InvalidHexLength nat nat
  | InvalidHexCharacter nat
  | ZeroIdentifier
  | EmptyCursor
  | CursorTooLong nat nat
  | InvalidCursorCharacter nat
  | EmptyEtag

text \<open>The \<open>Display\<close> texts of the \<open>thiserror\<close> attributes.\<close>

fun id_error_display :: "id_error \<Rightarrow> string" where
  "id_error_display ZeroSnowflake = ''snowflake must be greater than zero''"
| "id_error_display (SnowflakeOutOfRange n) =
     ''snowflake '' @ format_dec (unat n) @ '' exceeds the signed 63-bit range''"
| "id_error_display NegativeSnowflake = ''snowflake must not be negative''"
| "id_error_display (InvalidDecimal s) = ''invalid decimal identifier: '' @ s"
| "id_error_display (InvalidHexLength expected actual) =
     ''hex value must contain '' @ format_dec expected @ '' characters, got '' @ format_dec actual"
| "id_error_display (InvalidHexCharacter index) =
     ''hex value contains an invalid character at index '' @ format_dec index"
| "id_error_display ZeroIdentifier = ''identifier must not be all zero''"
| "id_error_display EmptyCursor = ''cursor must not be empty''"
| "id_error_display (CursorTooLong max_length actual) =
     ''cursor must contain at most '' @ format_dec max_length @ '' characters, got ''
       @ format_dec actual"
| "id_error_display (InvalidCursorCharacter index) =
     ''cursor contains an invalid character at index '' @ format_dec index"
| "id_error_display EmptyEtag = ''ETag must not be empty''"

text \<open>What a serde visitor reports: \<open>E::custom\<close> of an identifier error or of a message.\<close>

datatype de_error = CustomId id_error | CustomMessage string


section \<open>The contract of a textual identifier\<close>

locale text_codec =
  fixes valid :: "'a \<Rightarrow> bool"
    and print :: "'a \<Rightarrow> string"
    and parse :: "string \<Rightarrow> ('a, 'e) result"
  assumes parse_print: "valid x \<Longrightarrow> parse (print x) = Ok x"
    and parse_valid: "parse s = Ok x \<Longrightarrow> valid x"
begin

lemma print_inject: "valid x \<Longrightarrow> valid y \<Longrightarrow> print x = print y \<longleftrightarrow> x = y"
  by (metis parse_print result.inject(1))

lemma reparse: "parse s = Ok x \<Longrightarrow> parse (print x) = Ok x"
  by (simp add: parse_print parse_valid)

lemma parse_range: "(\<exists>s. parse s = Ok x) \<longleftrightarrow> valid x"
  using parse_print parse_valid by blast

end

locale canonical_codec = text_codec +
  assumes print_parse: "parse s = Ok x \<Longrightarrow> print x = s"
begin

lemma parse_inject: "parse s = Ok x \<Longrightarrow> parse t = Ok x \<Longrightarrow> s = t"
  using print_parse by metis

lemma parse_iff: "parse s = Ok x \<longleftrightarrow> valid x \<and> s = print x"
  using parse_print parse_valid print_parse by blast

end


section \<open>Snowflakes\<close>

datatype snowflake = Snowflake u64

definition MAX_SNOWFLAKE :: u64 where
  "MAX_SNOWFLAKE = 9223372036854775807"

definition snowflake_new :: "u64 \<Rightarrow> (snowflake, id_error) result" where
  "snowflake_new v =
     (if v = 0 then Err ZeroSnowflake
      else if v > MAX_SNOWFLAKE then Err (SnowflakeOutOfRange v)
      else Ok (Snowflake v))"

fun snowflake_get :: "snowflake \<Rightarrow> u64" where
  "snowflake_get (Snowflake v) = v"

definition snowflake_to_string :: "snowflake \<Rightarrow> string" where
  "snowflake_to_string s = format_dec (unat (snowflake_get s))"

definition snowflake_from_str :: "string \<Rightarrow> (snowflake, id_error) result" where
  "snowflake_from_str s =
     (case parse_unsigned (2 ^ 64) s of
        None \<Rightarrow> Err (if parse_i64_negative s then NegativeSnowflake else InvalidDecimal s)
      | Some n \<Rightarrow> snowflake_new (of_nat n))"

definition snowflake_visit_str :: "string \<Rightarrow> (snowflake, de_error) result" where
  "snowflake_visit_str s = map_err CustomId (snowflake_from_str s)"

definition snowflake_visit_u64 :: "u64 \<Rightarrow> (snowflake, de_error) result" where
  "snowflake_visit_u64 v = map_err CustomId (snowflake_new v)"

text \<open>The argument is an \<open>i64\<close>; \<open>value as u64\<close> is \<open>word_of_int\<close>.\<close>

definition snowflake_visit_i64 :: "int \<Rightarrow> (snowflake, de_error) result" where
  "snowflake_visit_i64 v =
     (if v < 0 then Err (CustomId NegativeSnowflake)
      else if v = 0 then Err (CustomId ZeroSnowflake)
      else map_err CustomId (snowflake_new (word_of_int v)))"

definition snowflake_visit_f64 :: "'f \<Rightarrow> (snowflake, de_error) result" where
  "snowflake_visit_f64 v = Err (CustomMessage ''floating-point Snowflakes are not accepted'')"

definition snowflake_wf :: "snowflake \<Rightarrow> bool" where
  "snowflake_wf s \<longleftrightarrow> 0 < unat (snowflake_get s) \<and> unat (snowflake_get s) < 2 ^ 63"

lemma unat_MAX_SNOWFLAKE: "unat MAX_SNOWFLAKE = 2 ^ 63 - 1"
  by (simp add: MAX_SNOWFLAKE_def)

lemma snowflake_new_Ok_iff: "snowflake_new v = Ok s \<longleftrightarrow> s = Snowflake v \<and> snowflake_wf s"
  by (auto simp: snowflake_new_def snowflake_wf_def word_less_nat_alt unat_MAX_SNOWFLAKE
      unat_gt_0)

interpretation snowflake_text: text_codec snowflake_wf snowflake_to_string snowflake_from_str
proof
  fix s :: snowflake
  assume wf: "snowflake_wf s"
  then show "snowflake_from_str (snowflake_to_string s) = Ok s"
    by (cases s) (simp add: snowflake_from_str_def snowflake_to_string_def
        parse_format_dec snowflake_new_Ok_iff)
next
  fix t s
  assume "snowflake_from_str t = Ok s"
  then show "snowflake_wf s"
    by (auto simp: snowflake_from_str_def snowflake_new_Ok_iff split: option.splits)
qed


section \<open>Global event identifiers\<close>

datatype geid = Geid u64

fun geid_get :: "geid \<Rightarrow> u64" where
  "geid_get (Geid v) = v"

text \<open>\<open>derive(PartialOrd, Ord)\<close>: the order of the wrapped integer.\<close>

instantiation geid :: linorder
begin

definition less_eq_geid :: "geid \<Rightarrow> geid \<Rightarrow> bool" where
  "a \<le> b \<longleftrightarrow> geid_get a \<le> geid_get b"

definition less_geid :: "geid \<Rightarrow> geid \<Rightarrow> bool" where
  "a < b \<longleftrightarrow> geid_get a < geid_get b"

instance
proof
  fix a b c :: geid
  show "a < b \<longleftrightarrow> a \<le> b \<and> \<not> b \<le> a" by (auto simp: less_eq_geid_def less_geid_def)
  show "a \<le> a" by (simp add: less_eq_geid_def)
  show "a \<le> b \<Longrightarrow> b \<le> c \<Longrightarrow> a \<le> c" by (auto simp: less_eq_geid_def)
  show "a \<le> b \<Longrightarrow> b \<le> a \<Longrightarrow> a = b" by (cases a; cases b) (auto simp: less_eq_geid_def)
  show "a \<le> b \<or> b \<le> a" by (auto simp: less_eq_geid_def)
qed

end

lemma Geid_less [simp]: "Geid a < Geid b \<longleftrightarrow> a < b"
  by (simp add: less_geid_def)

lemma Geid_less_eq [simp]: "Geid a \<le> Geid b \<longleftrightarrow> a \<le> b"
  by (simp add: less_eq_geid_def)

definition geid_to_string :: "geid \<Rightarrow> string" where
  "geid_to_string g = format_dec (unat (geid_get g))"

definition geid_from_str :: "string \<Rightarrow> (geid, id_error) result" where
  "geid_from_str s =
     (case parse_unsigned (2 ^ 64) s of
        None \<Rightarrow> Err (InvalidDecimal s)
      | Some n \<Rightarrow> Ok (Geid (of_nat n)))"

definition geid_visit_i64 :: "int \<Rightarrow> (geid, de_error) result" where
  "geid_visit_i64 v =
     (if v < 0 then Err (CustomMessage ''negative GEIDs are not accepted'')
      else Ok (Geid (word_of_int v)))"

interpretation geid_text: text_codec "\<lambda>_. True" geid_to_string geid_from_str
proof
  fix g :: geid
  show "geid_from_str (geid_to_string g) = Ok g"
    by (cases g) (simp add: geid_from_str_def geid_to_string_def parse_format_dec)
qed simp


section \<open>Cursors and entity tags\<close>

datatype cursor = Cursor string

definition CURSOR_MAX_LENGTH :: nat where
  "CURSOR_MAX_LENGTH = 256"

definition is_token_char :: "char \<Rightarrow> bool" where
  "is_token_char c \<longleftrightarrow> is_ascii_alphanumeric c \<or> c = CHR ''-'' \<or> c = CHR ''_''"

definition cursor_new :: "string \<Rightarrow> (cursor, id_error) result" where
  "cursor_new v =
     (if v = [] then Err EmptyCursor
      else if length v > CURSOR_MAX_LENGTH then Err (CursorTooLong CURSOR_MAX_LENGTH (length v))
      else case first_bad (\<lambda>c. \<not> is_token_char c) v of
             Some index \<Rightarrow> Err (InvalidCursorCharacter index)
           | None \<Rightarrow> Ok (Cursor v))"

fun cursor_as_str :: "cursor \<Rightarrow> string" where
  "cursor_as_str (Cursor v) = v"

definition cursor_wf :: "cursor \<Rightarrow> bool" where
  "cursor_wf c \<longleftrightarrow>
     (let v = cursor_as_str c
      in 1 \<le> length v \<and> length v \<le> CURSOR_MAX_LENGTH \<and> list_all is_token_char v)"

lemma cursor_new_Ok_iff: "cursor_new v = Ok c \<longleftrightarrow> c = Cursor v \<and> cursor_wf c"
proof (cases "first_bad (\<lambda>c. \<not> is_token_char c) v")
  case None
  then have "list_all is_token_char v"
    by (simp add: list_all_iff first_bad_None_iff)
  with None show ?thesis
    by (auto simp: cursor_new_def cursor_wf_def Suc_le_eq)
next
  case (Some i)
  then have "\<not> list_all is_token_char v"
    by (auto simp: list_all_length first_bad_Some_iff)
  with Some show ?thesis
    by (auto simp: cursor_new_def cursor_wf_def)
qed

interpretation cursor_text: canonical_codec cursor_wf cursor_as_str cursor_new
proof
  fix c
  show "cursor_wf c \<Longrightarrow> cursor_new (cursor_as_str c) = Ok c"
    by (cases c) (simp add: cursor_new_Ok_iff)
next
  fix v c
  show "cursor_new v = Ok c \<Longrightarrow> cursor_wf c" by (auto simp: cursor_new_Ok_iff)
  show "cursor_new v = Ok c \<Longrightarrow> cursor_as_str c = v" by (auto simp: cursor_new_Ok_iff)
qed

datatype etag = Etag string

definition etag_new :: "string \<Rightarrow> (etag, id_error) result" where
  "etag_new v = (if v = [] then Err EmptyEtag else Ok (Etag v))"

fun etag_as_str :: "etag \<Rightarrow> string" where
  "etag_as_str (Etag v) = v"

interpretation etag_text: canonical_codec "\<lambda>e. etag_as_str e \<noteq> []" etag_as_str etag_new
proof
  fix e
  show "etag_as_str e \<noteq> [] \<Longrightarrow> etag_new (etag_as_str e) = Ok e"
    by (cases e) (simp add: etag_new_def)
next
  fix v e
  show "etag_new v = Ok e \<Longrightarrow> etag_as_str e \<noteq> []" by (auto simp: etag_new_def split: if_splits)
  show "etag_new v = Ok e \<Longrightarrow> etag_as_str e = v" by (auto simp: etag_new_def split: if_splits)
qed


section \<open>Fixed-width hexadecimal identifiers\<close>

definition HEX :: string where
  "HEX = ''0123456789abcdef''"

definition lower_hex_value :: "char \<Rightarrow> u8 option" where
  "lower_hex_value c =
     (if 48 \<le> code c \<and> code c \<le> 57 then Some (of_nat (code c - 48))
      else if 97 \<le> code c \<and> code c \<le> 102 then Some (of_nat (code c - 97 + 10))
      else None)"

text \<open>The loop over \<open>chunks_exact(2)\<close>; \<open>index\<close> counts the pairs.\<close>

fun decode_pairs :: "nat \<Rightarrow> string \<Rightarrow> (bytes, id_error) result" where
  "decode_pairs index (a # b # rest) =
     (case lower_hex_value a of
        None \<Rightarrow> Err (InvalidHexCharacter (index * 2))
      | Some high \<Rightarrow>
          (case lower_hex_value b of
             None \<Rightarrow> Err (InvalidHexCharacter (index * 2 + 1))
           | Some low \<Rightarrow>
               map_ok (\<lambda>out. (push_bit 4 high OR low) # out) (decode_pairs (Suc index) rest)))"
| "decode_pairs index rest = Ok []"

definition decode_hex_16 :: "string \<Rightarrow> (bytes, id_error) result" where
  "decode_hex_16 v =
     (if length v \<noteq> 32 then Err (InvalidHexLength 32 (length v)) else decode_pairs 0 v)"

definition encode_byte :: "u8 \<Rightarrow> string" where
  "encode_byte b = [HEX ! unat (drop_bit 4 b), HEX ! unat (b AND 15)]"

definition encode_hex_16 :: "bytes \<Rightarrow> string" where
  "encode_hex_16 v = concat (map encode_byte v)"

text \<open>
  The macro \<open>fixed_id\<close> generates the same code for \<open>SessionId\<close>, \<open>ControlConnectionId\<close> and
  \<open>StreamEpoch\<close>; the three share one type here. The array length 16 is part of \<open>fixed_id_wf\<close>.
\<close>

datatype fixed_id = FixedId bytes

type_synonym session_id = fixed_id
type_synonym voice_session_id = fixed_id
type_synonym control_connection_id = fixed_id
type_synonym stream_epoch = fixed_id

definition fixed_id_from_bytes :: "bytes \<Rightarrow> (fixed_id, id_error) result" where
  "fixed_id_from_bytes v = (if v = replicate 16 0 then Err ZeroIdentifier else Ok (FixedId v))"

fun fixed_id_as_bytes :: "fixed_id \<Rightarrow> bytes" where
  "fixed_id_as_bytes (FixedId v) = v"

definition fixed_id_to_hex :: "fixed_id \<Rightarrow> string" where
  "fixed_id_to_hex i = encode_hex_16 (fixed_id_as_bytes i)"

definition fixed_id_parse_hex :: "string \<Rightarrow> (fixed_id, id_error) result" where
  "fixed_id_parse_hex v = and_then (decode_hex_16 v) fixed_id_from_bytes"

definition fixed_id_wf :: "fixed_id \<Rightarrow> bool" where
  "fixed_id_wf i \<longleftrightarrow>
     length (fixed_id_as_bytes i) = 16 \<and> fixed_id_as_bytes i \<noteq> replicate 16 0"

lemma lower_hex_value_digit: "n < 16 \<Longrightarrow> lower_hex_value (HEX ! n) = Some (of_nat n)"
proof -
  assume "n < 16"
  have "list_all (\<lambda>n. lower_hex_value (HEX ! n) = Some (of_nat n)) [0..<16]"
    by code_simp
  then show ?thesis using \<open>n < 16\<close> by (simp add: list_all_iff)
qed

lemma lower_hex_value_range:
  assumes "lower_hex_value c = Some v"
  shows "unat v < 16 \<and> HEX ! unat v = c"
proof -
  from assms have "code c \<in> set ([48..<58] @ [97..<103])"
    by (auto simp: lower_hex_value_def simp del: upt_rec_numeral split: if_splits)
  then have "\<exists>n < 16. c = HEX ! n"
  proof -
    assume "code c \<in> set ([48..<58] @ [97..<103])"
    then have "char_of (code c) \<in> set (map char_of ([48..<58] @ [97..<103]))"
      by (simp only: set_map image_eqI)
    also have "map char_of ([48..<58] @ [97..<103 :: nat]) = HEX"
      by (simp add: HEX_def upt_rec char_of_def bit_simps)
    finally have "c \<in> set HEX" by simp
    moreover have "length HEX = 16" by (simp add: HEX_def)
    ultimately show ?thesis
      by (metis in_set_conv_nth)
  qed
  then obtain n where n: "n < 16" "c = HEX ! n" by blast
  with assms have v: "v = of_nat n" by (simp add: lower_hex_value_digit)
  with n have "unat v = n" by (simp add: unat_of_nat)
  with n show ?thesis by simp
qed

lemma nibble_word: "unat (v :: u8) < 16 \<Longrightarrow> take_bit 4 v = v"
  by (simp add: word_unat_eq_iff unsigned_take_bit_eq take_bit_nat_eq_self)

lemma unat_high_nibble: "unat (drop_bit 4 (b :: u8)) < 16"
proof -
  have "unat (drop_bit 4 b) = unat b div 16"
    by (simp add: drop_bit_eq_div unat_div)
  with unat_u8_less [of b] show ?thesis by linarith
qed

lemma unat_low_nibble: "unat ((b :: u8) AND 15) < 16"
proof -
  have "b AND 15 \<le> 15" by (rule word_and_le1)
  then show ?thesis by (simp add: word_le_nat_alt)
qed

lemma and_15: "(b :: u8) AND 15 = take_bit 4 b"
  by (simp add: take_bit_eq_mask mask_eq_exp_minus_1)

lemma join_nibbles: "(push_bit 4 (drop_bit 4 b) OR (b AND 15)) = (b :: u8)"
  by (rule bit_eqI) (auto simp: and_15 bit_simps)

lemma split_nibbles:
  assumes "unat (h :: u8) < 16" and "unat (l :: u8) < 16"
  shows "drop_bit 4 (push_bit 4 h OR l) = h" and "(push_bit 4 h OR l) AND 15 = l"
proof -
  have h: "bit h i \<Longrightarrow> i < 4" for i
    using nibble_word [OF assms(1)] by (metis bit_take_bit_iff)
  have l: "bit l i \<Longrightarrow> i < 4" for i
    using nibble_word [OF assms(2)] by (metis bit_take_bit_iff)
  show "drop_bit 4 (push_bit 4 h OR l) = h"
    by (rule bit_eqI) (use h l in \<open>fastforce simp: bit_simps\<close>)
  show "(push_bit 4 h OR l) AND 15 = l"
    unfolding and_15 by (rule bit_eqI) (use l in \<open>fastforce simp: bit_simps\<close>)
qed

lemma decode_encode_pairs: "decode_pairs i (concat (map encode_byte bs)) = Ok bs"
  by (induction bs arbitrary: i)
    (simp_all add: encode_byte_def lower_hex_value_digit unat_high_nibble unat_low_nibble
      join_nibbles)

lemma length_encode_bytes: "length (concat (map encode_byte bs)) = 2 * length bs"
  by (induction bs) (simp_all add: encode_byte_def)

lemma encode_byte_join:
  assumes "lower_hex_value a = Some h" and "lower_hex_value b = Some l"
  shows "encode_byte (push_bit 4 h OR l) = [a, b]"
  using assms [THEN lower_hex_value_range] by (simp only: encode_byte_def split_nibbles)

lemma encode_decode_pairs:
  "decode_pairs i s = Ok bs \<Longrightarrow> even (length s) \<Longrightarrow> concat (map encode_byte bs) = s"
proof (induction i s arbitrary: bs rule: decode_pairs.induct)
  case (1 index a b rest)
  then show ?case
    by (auto simp: res_simps encode_byte_join split: option.splits)
qed auto

lemma length_decode_pairs: "decode_pairs i s = Ok bs \<Longrightarrow> length bs = length s div 2"
  by (induction i s arbitrary: bs rule: decode_pairs.induct)
    (auto simp: res_simps split: option.splits)

lemma decode_encode_hex_16: "length bs = 16 \<Longrightarrow> decode_hex_16 (encode_hex_16 bs) = Ok bs"
  by (simp add: decode_hex_16_def encode_hex_16_def length_encode_bytes decode_encode_pairs)

lemma encode_decode_hex_16:
  assumes "decode_hex_16 s = Ok bs"
  shows "encode_hex_16 bs = s \<and> length bs = 16"
  using assms encode_decode_pairs [of 0 s bs] length_decode_pairs [of 0 s bs]
  by (simp add: decode_hex_16_def encode_hex_16_def split: if_splits)

interpretation fixed_id_text: canonical_codec fixed_id_wf fixed_id_to_hex fixed_id_parse_hex
proof
  fix i
  assume "fixed_id_wf i"
  then show "fixed_id_parse_hex (fixed_id_to_hex i) = Ok i"
    by (cases i) (simp add: fixed_id_parse_hex_def fixed_id_to_hex_def decode_encode_hex_16
        fixed_id_wf_def fixed_id_from_bytes_def)
next
  fix s i
  assume "fixed_id_parse_hex s = Ok i"
  then have "fixed_id_wf i \<and> fixed_id_to_hex i = s"
    by (auto simp: fixed_id_parse_hex_def fixed_id_to_hex_def fixed_id_from_bytes_def
        fixed_id_wf_def res_simps split: if_splits dest: encode_decode_hex_16)
  then show "fixed_id_wf i" and "fixed_id_to_hex i = s" by auto
qed


section \<open>Checkpoints and stream types\<close>

record checkpoint =
  cp_stream_epoch :: stream_epoch
  cp_geid :: geid

datatype stream_type_id = StreamTypeId u8

fun stream_type_get :: "stream_type_id \<Rightarrow> u8" where
  "stream_type_get (StreamTypeId v) = v"

definition is_heartbeat :: "stream_type_id \<Rightarrow> bool" where
  "is_heartbeat s \<longleftrightarrow> stream_type_get s = 0"

end
