(* ===== verification/DomainState.thy ===== *)
theory DomainState
  imports Ids
begin

text \<open>
  The data types of \<open>crates/zephyrvox-types\<close>: \<open>state.rs\<close> (the snapshot and the client-side
  projection), \<open>metadata.rs\<close> and \<open>media.rs\<close>. Signed 64-bit fields that are only carried or
  compared are \<open>int\<close>. The JSON payload of an event is a type parameter: \<open>serde_json::Value\<close>
  belongs to another library.
\<close>

section \<open>The visible state\<close>

record presence_activity =
  pa_kind :: string
  pa_name :: string
  pa_privacy :: string

record presence =
  pr_status :: string
  pr_activity :: "presence_activity option"

record user =
  us_id :: snowflake
  us_username :: string
  us_nickname :: string
  us_avatar :: "string option"

record user_presence =
  up_user_id :: snowflake
  up_nickname :: string
  up_avatar :: "string option"
  up_presence :: presence

text \<open>\<open>deserialize_optional_avatar\<close>: the empty text means no avatar.\<close>

definition optional_avatar :: "string option \<Rightarrow> string option" where
  "optional_avatar a = (case a of None \<Rightarrow> None | Some t \<Rightarrow> if t = [] then None else Some t)"

record role =
  ro_key :: string
  ro_display_name :: string
  ro_rank :: int
  ro_builtin :: bool

record group =
  gr_id :: snowflake
  gr_name :: string
  gr_position :: int
  gr_visibility :: string
  gr_version :: string

record channel =
  ch_id :: snowflake
  ch_group_id :: "snowflake option"
  ch_name :: string
  ch_mode :: string
  ch_temporary :: bool
  ch_visibility :: string
  ch_capacity :: int
  ch_position :: int
  ch_pinned :: bool
  ch_version :: string

record voice_membership =
  vm_user_id :: snowflake
  vm_channel_id :: snowflake
  vm_joined_at :: int

record voice_authority =
  va_channel_id :: snowflake
  va_control_connection_id :: control_connection_id
  va_voice_session_id :: session_id
  va_voice_authority_generation :: string

record server_state =
  sv_name :: string
  sv_version :: string

record self_user_state =
  su_user :: user
  su_server_role_keys :: "string list"
  su_server_permissions :: "string list"
  su_presence :: presence
  su_voice_authority :: "voice_authority option"

record snapshot_state =
  ss_server :: server_state
  ss_self_state :: self_user_state
  ss_users :: "user_presence list"
  ss_roles :: "role list"
  ss_groups :: "group list"
  ss_channels :: "channel list"
  ss_voice_memberships :: "voice_membership list"

record state_snapshot =
  sn_cursor :: cursor
  sn_stream_epoch :: stream_epoch
  sn_geid :: geid
  sn_state_version :: string
  sn_state :: snapshot_state

record client_state =
  cs_cursor :: cursor
  cs_stream_epoch :: stream_epoch
  cs_geid :: geid
  cs_state_version :: string
  cs_server :: server_state
  cs_self_user :: self_user_state
  cs_users :: "user_presence list"
  cs_roles :: "role list"
  cs_groups :: "group list"
  cs_channels :: "channel list"
  cs_voice_memberships :: "voice_membership list"

definition from_snapshot :: "state_snapshot \<Rightarrow> client_state" where
  "from_snapshot s =
     \<lparr>cs_cursor = sn_cursor s,
      cs_stream_epoch = sn_stream_epoch s,
      cs_geid = sn_geid s,
      cs_state_version = sn_state_version s,
      cs_server = ss_server (sn_state s),
      cs_self_user = ss_self_state (sn_state s),
      cs_users = ss_users (sn_state s),
      cs_roles = ss_roles (sn_state s),
      cs_groups = ss_groups (sn_state s),
      cs_channels = ss_channels (sn_state s),
      cs_voice_memberships = ss_voice_memberships (sn_state s)\<rparr>"

record event_scope =
  sc_kind :: string
  sc_id :: "snowflake option"

record 'v state_event =
  ev_frame_type :: string
  ev_geid :: geid
  ev_cursor :: cursor
  ev_class :: string
  ev_scope :: event_scope
  ev_event_type :: string
  ev_causation_id :: "geid option"
  ev_server_time :: int
  ev_data :: 'v


section \<open>Metadata and media\<close>

record voice_endpoint =
  ve_host :: string
  ve_port :: u16

record codec_capability =
  cc_name :: string
  cc_clock_rate :: nat
  cc_channels :: nat
  cc_ptime :: "nat list"

record voice_stream_type =
  vs_id :: stream_type_id
  vs_name :: string
  vs_mute_kind :: string

record metadata =
  md_protocol_version :: u16
  md_voice_endpoint :: voice_endpoint
  md_codecs :: "codec_capability list"
  md_voice_stream_types :: "voice_stream_type list"
  md_features :: "string list"

record outbound_media =
  om_stream_type :: stream_type_id
  om_payload :: bytes

record inbound_media =
  im_speaker_id :: snowflake
  im_stream_type :: stream_type_id
  im_channel_seq :: u16
  im_transport_seq :: u64
  im_payload :: bytes

lemma from_snapshot_position [simp]:
  "cs_cursor (from_snapshot s) = sn_cursor s"
  "cs_geid (from_snapshot s) = sn_geid s"
  "cs_stream_epoch (from_snapshot s) = sn_stream_epoch s"
  by (simp_all add: from_snapshot_def)

end
