(* ===== verification/WireConstants.thy ===== *)
theory WireConstants
  imports Prelude
begin

text \<open>
  The protocol constants of \<open>crates/zephyrvox-wire/src/constants.rs\<close>, which the voice codec, the
  voice configuration and the HTTP voice endpoints share.
\<close>

definition bytes_of_string :: "string \<Rightarrow> bytes" where
  "bytes_of_string s = map (\<lambda>c. of_nat (code c)) s"

definition PROTOCOL_VERSION :: u8 where
  "PROTOCOL_VERSION = 1"

definition MAGIC :: bytes where
  "MAGIC = bytes_of_string ''ZVX1''"

definition OUTER_HEADER_SIZE :: nat where
  "OUTER_HEADER_SIZE = 30"

definition CHANNEL_HEADER_SIZE :: nat where
  "CHANNEL_HEADER_SIZE = 12"

definition TAG_SIZE :: nat where
  "TAG_SIZE = 16"

definition MAX_PACKET_SIZE :: nat where
  "MAX_PACKET_SIZE = 1200"

definition MAX_PAYLOAD_ENCRYPTED :: nat where
  "MAX_PAYLOAD_ENCRYPTED = MAX_PACKET_SIZE - OUTER_HEADER_SIZE - CHANNEL_HEADER_SIZE - TAG_SIZE"

definition MAX_PAYLOAD_PLAINTEXT :: nat where
  "MAX_PAYLOAD_PLAINTEXT = MAX_PACKET_SIZE - OUTER_HEADER_SIZE - CHANNEL_HEADER_SIZE"

definition HEARTBEAT_STREAM_TYPE :: u8 where
  "HEARTBEAT_STREAM_TYPE = 0"

definition max_payload :: "bool \<Rightarrow> nat" where
  "max_payload encrypted = (if encrypted then MAX_PAYLOAD_ENCRYPTED else MAX_PAYLOAD_PLAINTEXT)"

definition is_business_stream_type :: "u8 \<Rightarrow> bool" where
  "is_business_stream_type st \<longleftrightarrow> st \<noteq> HEARTBEAT_STREAM_TYPE"

lemmas size_defs = OUTER_HEADER_SIZE_def CHANNEL_HEADER_SIZE_def TAG_SIZE_def MAX_PACKET_SIZE_def
  MAX_PAYLOAD_ENCRYPTED_def MAX_PAYLOAD_PLAINTEXT_def

lemma MAGIC_bytes [simp]: "MAGIC = [90, 86, 88, 49]"
  by (simp add: MAGIC_def bytes_of_string_def)

lemma max_payload_fits:
  "max_payload encrypted + OUTER_HEADER_SIZE + CHANNEL_HEADER_SIZE + (if encrypted then TAG_SIZE else 0)
    = MAX_PACKET_SIZE"
  by (simp add: max_payload_def size_defs)

end
