(* ===== verification/RustText.thy ===== *)
theory RustText
  imports Prelude
begin

text \<open>
  The parts of Rust's \<open>str\<close> and \<open>std::net\<close> the SDK uses on text: \<open>trim\<close>,
  \<open>char::is_whitespace\<close>, \<open>split\<close>, prefix and suffix tests, and the textual grammar of
  \<open>IpAddr\<close> with its canonical \<open>Display\<close>. A string is its UTF-8 bytes.
\<close>

section \<open>White space and trimming\<close>

text \<open>The code points with the Unicode property \<open>White_Space\<close>, in UTF-8.\<close>

definition utf8_bytes :: "nat list \<Rightarrow> string" where
  "utf8_bytes ns = map char_of ns"

definition white_space :: "string list" where
  "white_space = map utf8_bytes
     ([[9], [10], [11], [12], [13], [32], [194, 133], [194, 160], [225, 154, 128]]
      @ map (\<lambda>n. [226, 128, n]) [128..<139]
      @ [[226, 128, 168], [226, 128, 169], [226, 128, 175], [226, 129, 159], [227, 128, 128]])"

definition starts_with :: "'a list \<Rightarrow> 'a list \<Rightarrow> bool" where
  "starts_with s p \<longleftrightarrow> take (length p) s = p"

definition ends_with :: "'a list \<Rightarrow> 'a list \<Rightarrow> bool" where
  "ends_with s p \<longleftrightarrow> starts_with (rev s) (rev p)"

text \<open>
  Both ends are trimmed by dropping encoded white-space characters while there is one. In well-formed
  UTF-8 such an encoding never matches in the middle of another character.
\<close>

fun trim_with :: "nat \<Rightarrow> string list \<Rightarrow> string \<Rightarrow> string" where
  "trim_with 0 ws s = s"
| "trim_with (Suc fuel) ws s =
     (case find (starts_with s) ws of
        None \<Rightarrow> s
      | Some w \<Rightarrow> trim_with fuel ws (drop (length w) s))"

definition trim_start :: "string \<Rightarrow> string" where
  "trim_start s = trim_with (length s) white_space s"

definition trim_end :: "string \<Rightarrow> string" where
  "trim_end s = rev (trim_with (length s) (map rev white_space) (rev s))"

definition trim :: "string \<Rightarrow> string" where
  "trim s = trim_end (trim_start s)"

definition has_white_space :: "string \<Rightarrow> bool" where
  "has_white_space s = list_ex (\<lambda>i. list_ex (starts_with (drop i s)) white_space) [0..<length s]"

fun split_on :: "char \<Rightarrow> string \<Rightarrow> string list" where
  "split_on d [] = [[]]"
| "split_on d (c # cs) =
     (if c = d then [] # split_on d cs
      else (case split_on d cs of [] \<Rightarrow> [[c]] | p # ps \<Rightarrow> (c # p) # ps))"

definition to_ascii_lowercase :: "string \<Rightarrow> string" where
  "to_ascii_lowercase s = map to_ascii_lower s"

text \<open>A search for an infix, \<open>s.contains(p)\<close>.\<close>

fun contains_str :: "string \<Rightarrow> string \<Rightarrow> bool" where
  "contains_str [] p \<longleftrightarrow> p = []"
| "contains_str (c # cs) p \<longleftrightarrow> starts_with (c # cs) p \<or> contains_str cs p"

lemma white_space_nonempty: "w \<in> set white_space \<Longrightarrow> w \<noteq> []"
  by (auto simp: white_space_def utf8_bytes_def)

text \<open>The fuel \<open>length s\<close> is enough: every round drops at least one byte.\<close>

lemma trim_with_fuel:
  assumes "\<forall>w \<in> set ws. w \<noteq> []" and "length s \<le> n"
  shows "find (starts_with (trim_with n ws s)) ws = None"
  using assms(2)
proof (induction n arbitrary: s)
  case 0
  then have "s = []" by simp
  then show ?case using assms(1) by (auto simp: find_None_iff starts_with_def)
next
  case (Suc n)
  show ?case
  proof (cases "find (starts_with s) ws")
    case None
    then show ?thesis by simp
  next
    case (Some w)
    then have "w \<in> set ws" by (auto simp: find_Some_iff)
    with assms(1) have "w \<noteq> []" by blast
    then have "length (drop (length w) s) \<le> n" using Suc.prems by (cases w) auto
    then show ?thesis using Some Suc.IH by simp
  qed
qed

lemma trim_start_clean: "find (starts_with (trim_start s)) white_space = None"
  unfolding trim_start_def by (rule trim_with_fuel) (auto dest: white_space_nonempty)

lemma to_ascii_lower_idem: "to_ascii_lower (to_ascii_lower c) = to_ascii_lower c"
  by (auto simp: to_ascii_lower_def is_ascii_upper_def of_char_of)

lemma to_ascii_lowercase_idem [simp]:
  "to_ascii_lowercase (to_ascii_lowercase s) = to_ascii_lowercase s"
  by (simp add: to_ascii_lowercase_def to_ascii_lower_idem)

lemma length_to_ascii_lowercase [simp]: "length (to_ascii_lowercase s) = length s"
  by (simp add: to_ascii_lowercase_def)


section \<open>IP addresses\<close>

datatype ip_addr = V4 "nat list" | V6 "nat list"

definition digit_value :: "nat \<Rightarrow> char \<Rightarrow> nat option" where
  "digit_value radix c =
     (let d = (if is_ascii_digit c then Some (code c - 48)
               else if is_ascii_lower c then Some (code c - 97 + 10)
               else if is_ascii_upper c then Some (code c - 65 + 10)
               else None)
      in case d of None \<Rightarrow> None | Some n \<Rightarrow> if n < radix then Some n else None)"

text \<open>The digit loop of \<open>Parser::read_number\<close>: too many digits fail the whole number.\<close>

fun read_digits :: "nat \<Rightarrow> nat \<Rightarrow> nat \<Rightarrow> nat \<Rightarrow> string \<Rightarrow> (nat \<times> nat \<times> string) option" where
  "read_digits radix maxd count acc [] = Some (acc, count, [])"
| "read_digits radix maxd count acc (c # cs) =
     (case digit_value radix c of
        None \<Rightarrow> Some (acc, count, c # cs)
      | Some d \<Rightarrow>
          if Suc count > maxd then None
          else read_digits radix maxd (Suc count) (acc * radix + d) cs)"

definition read_number :: "nat \<Rightarrow> nat \<Rightarrow> bool \<Rightarrow> nat \<Rightarrow> string \<Rightarrow> (nat \<times> string) option" where
  "read_number radix maxd allow_zero_prefix bound s =
     (case read_digits radix maxd 0 0 s of
        None \<Rightarrow> None
      | Some (n, count, rest) \<Rightarrow>
          if count = 0 then None
          else if \<not> allow_zero_prefix \<and> hd s = CHR ''0'' \<and> count > 1 then None
          else if n < bound then Some (n, rest) else None)"

definition read_sep :: "char \<Rightarrow> nat \<Rightarrow> string \<Rightarrow> string option" where
  "read_sep sep index s =
     (if index = 0 then Some s
      else case s of [] \<Rightarrow> None | c # cs \<Rightarrow> if c = sep then Some cs else None)"

fun read_octets :: "nat \<Rightarrow> nat \<Rightarrow> string \<Rightarrow> (nat list \<times> string) option" where
  "read_octets 0 i s = Some ([], s)"
| "read_octets (Suc n) i s =
     (case read_sep (CHR ''.'') i s of
        None \<Rightarrow> None
      | Some s' \<Rightarrow>
          (case read_number 10 3 False 256 s' of
             None \<Rightarrow> None
           | Some (o1, rest) \<Rightarrow>
               (case read_octets n (Suc i) rest of
                  None \<Rightarrow> None
                | Some (os, rest') \<Rightarrow> Some (o1 # os, rest'))))"

definition read_ipv4 :: "string \<Rightarrow> (nat list \<times> string) option" where
  "read_ipv4 s = read_octets 4 0 s"

text \<open>
  \<open>read_groups\<close> reads up to \<open>left\<close> groups from index \<open>i\<close>; an embedded IPv4 address fills two
  groups and ends the reading. The result is the groups, whether an IPv4 address ended them, and the
  rest of the input.
\<close>

fun read_groups :: "nat \<Rightarrow> nat \<Rightarrow> string \<Rightarrow> nat list \<times> bool \<times> string" where
  "read_groups 0 i s = ([], False, s)"
| "read_groups (Suc left) i s =
     (case (if left > 0 then Option.bind (read_sep (CHR '':'') i s) read_ipv4 else None) of
        Some (os, rest) \<Rightarrow> ([os ! 0 * 256 + os ! 1, os ! 2 * 256 + os ! 3], True, rest)
      | None \<Rightarrow>
          (case Option.bind (read_sep (CHR '':'') i s) (read_number 16 4 True 65536) of
             None \<Rightarrow> ([], False, s)
           | Some (g, rest) \<Rightarrow>
               (case read_groups left (Suc i) rest of (gs, v4, rest') \<Rightarrow> (g # gs, v4, rest'))))"

definition read_ipv6 :: "string \<Rightarrow> (nat list \<times> string) option" where
  "read_ipv6 s =
     (case read_groups 8 0 s of
        (hd_gs, hd_v4, rest) \<Rightarrow>
          if length hd_gs = 8 then Some (hd_gs, rest)
          else if hd_v4 then None
          else if starts_with rest '':''
          then (if starts_with (drop 1 rest) '':'' then
                 (case read_groups (8 - (length hd_gs + 1)) 0 (drop 2 rest) of
                    (tl_gs, _, rest') \<Rightarrow>
                      Some (hd_gs @ replicate (8 - length hd_gs - length tl_gs) 0 @ tl_gs, rest'))
                else None)
          else None)"

definition parse_ip_addr :: "string \<Rightarrow> ip_addr option" where
  "parse_ip_addr s =
     (case (case read_ipv4 s of
              Some (os, rest) \<Rightarrow> Some (V4 os, rest)
            | None \<Rightarrow> map_option (\<lambda>(gs, rest). (V6 gs, rest)) (read_ipv6 s)) of
        None \<Rightarrow> None
      | Some (a, rest) \<Rightarrow> if rest = [] then Some a else None)"

fun is_unspecified :: "ip_addr \<Rightarrow> bool" where
  "is_unspecified (V4 os) \<longleftrightarrow> os = [0, 0, 0, 0]"
| "is_unspecified (V6 gs) \<longleftrightarrow> gs = [0, 0, 0, 0, 0, 0, 0, 0]"

lemma read_ipv4_length: "read_ipv4 s = Some (os, rest) \<Longrightarrow> length os = 4"
proof -
  have "read_octets n i s = Some (os, rest) \<Longrightarrow> length os = n" for n i s os rest
    by (induction n i s arbitrary: os rest rule: read_octets.induct) (auto split: option.splits)
  then show "read_ipv4 s = Some (os, rest) \<Longrightarrow> length os = 4"
    unfolding read_ipv4_def by blast
qed

lemma wildcard_addresses:
  "parse_ip_addr ''0.0.0.0'' = Some (V4 [0, 0, 0, 0])"
  "parse_ip_addr ''::'' = Some (V6 [0, 0, 0, 0, 0, 0, 0, 0])"
  "parse_ip_addr ''::ffff:10.0.0.1'' = Some (V6 [0, 0, 0, 0, 0, 65535, 2560, 1])"
  "parse_ip_addr ''127.0.0.01'' = None"
  "parse_ip_addr ''voice.example'' = None"
  by code_simp+

end
