(* ===== verification/VoiceConfig.thy ===== *)
theory VoiceConfig
  imports DomainState WireConstants RustText
begin

text \<open>
  \<open>crates/zephyrvox-voice\<close>: \<open>config.rs\<close> (session keys, the key cache, the validated session
  configuration), the error types of \<open>error.rs\<close>, and the revocation reasons of \<open>decode.rs\<close>.
\<close>

section \<open>Errors\<close>

datatype revocation_reason = Replaced | Revoked | Unknown u8

definition reason_from_wire :: "u8 \<Rightarrow> revocation_reason" where
  "reason_from_wire v = (if v = 1 then Replaced else if v = 2 then Revoked else Unknown v)"

fun reason_as_wire :: "revocation_reason \<Rightarrow> u8" where
  "reason_as_wire Replaced = 1"
| "reason_as_wire Revoked = 2"
| "reason_as_wire (Unknown v) = v"

lemma reason_as_from_wire [simp]: "reason_as_wire (reason_from_wire v) = v"
  by (simp add: reason_from_wire_def)

datatype packet_error =
    Truncated
  | Oversized
  | InvalidMagic
  | UnsupportedVersion u8
  | InvalidFlags
  | WrongSession
  | SequenceZero
  | AuthenticationFailed
  | InvalidControlPacket
  | InvalidSpeaker
  | UnknownStreamType u8
  | PayloadTooLarge nat nat
  | HeartbeatStream

text \<open>The text of an operating-system error is a \<open>string\<close>.\<close>

datatype voice_error =
    VConfiguration string
  | VEndpoint string
  | VTransport string
  | VPacket packet_error
  | KeyUnavailable
  | VProtocolVersionMismatch u16 u16
  | QueueFull
  | MediaLagged nat
  | VClosed
  | NotActive
  | SequenceExhausted
  | VRevoked revocation_reason


section \<open>Session keys and their cache\<close>

datatype session_key = SessionKey bytes

definition session_key_from_slice :: "bytes \<Rightarrow> (session_key, voice_error) result" where
  "session_key_from_slice bs =
     (if length bs = 32 then Ok (SessionKey bs)
      else Err (VConfiguration ''voice session key must be exactly 32 bytes''))"

fun session_key_as_bytes :: "session_key \<Rightarrow> bytes" where
  "session_key_as_bytes (SessionKey bs) = bs"

type_synonym key_cache = "voice_session_id \<rightharpoonup> session_key"

definition cache_new :: key_cache where
  "cache_new = Map.empty"

definition cache_insert :: "voice_session_id \<Rightarrow> session_key \<Rightarrow> key_cache \<Rightarrow> key_cache" where
  "cache_insert sid k c = c(sid \<mapsto> k)"

definition cache_get :: "key_cache \<Rightarrow> voice_session_id \<Rightarrow> session_key option" where
  "cache_get c sid = c sid"

definition cache_remove :: "voice_session_id \<Rightarrow> key_cache \<Rightarrow> key_cache" where
  "cache_remove sid c = c(sid := None)"

definition cache_clear :: "key_cache \<Rightarrow> key_cache" where
  "cache_clear c = Map.empty"

text \<open>What the codec, the worker and the facade rely on in a key cache.\<close>

locale session_key_store =
  fixes put :: "'i \<Rightarrow> 'k \<Rightarrow> 'c \<Rightarrow> 'c"
    and lookup :: "'c \<Rightarrow> 'i \<Rightarrow> 'k option"
    and del :: "'i \<Rightarrow> 'c \<Rightarrow> 'c"
    and wipe :: "'c \<Rightarrow> 'c"
  assumes lookup_put: "lookup (put i k c) j = (if j = i then Some k else lookup c j)"
    and lookup_del: "lookup (del i c) j = (if j = i then None else lookup c j)"
    and lookup_wipe: "lookup (wipe c) j = None"
begin

lemma lookup_put_del: "lookup (put i k (del i c)) i = Some k"
  by (simp add: lookup_put)

lemma lookup_del_put: "lookup (del i (put i k c)) j = lookup (del i c) j"
  by (simp add: lookup_put lookup_del)

end

interpretation keys: session_key_store cache_insert cache_get cache_remove cache_clear
  by unfold_locales (auto simp: cache_insert_def cache_get_def cache_remove_def cache_clear_def)


section \<open>The session configuration\<close>

record voice_session_config =
  vc_endpoint :: voice_endpoint
  vc_session_id :: voice_session_id
  vc_protocol_version :: u16
  vc_encrypted :: bool
  vc_max_payload :: nat
  vc_expires_at :: int
  vc_session_key :: "session_key option"
  vc_allowed_stream_types :: "stream_type_id list option"

definition validate_endpoint :: "voice_endpoint \<Rightarrow> (unit, voice_error) result" where
  "validate_endpoint e =
     (if trim (ve_host e) = [] \<or> ve_port e = 0
      then Err (VConfiguration ''voice endpoint must have a host and non-zero port'')
      else if (case parse_ip_addr (ve_host e) of Some a \<Rightarrow> is_unspecified a | None \<Rightarrow> False)
      then Err (VConfiguration ''voice endpoint must not be a wildcard address'')
      else Ok ())"

definition payload_limit_message :: "bool \<Rightarrow> string" where
  "payload_limit_message encrypted =
     ''voice payload limit must be between 1 and '' @ format_dec (max_payload encrypted) @ '' bytes''"

definition new_with_protocol_version ::
  "voice_endpoint \<Rightarrow> voice_session_id \<Rightarrow> u16 \<Rightarrow> bool \<Rightarrow> nat \<Rightarrow> int \<Rightarrow> session_key option
   \<Rightarrow> (voice_session_config, voice_error) result" where
  "new_with_protocol_version endpoint sid version encrypted maxp expires key =
     and_then (validate_endpoint endpoint) (\<lambda>_.
       let expected = ucast PROTOCOL_VERSION
       in if version \<noteq> expected then Err (VProtocolVersionMismatch expected version)
          else if maxp = 0 \<or> maxp > max_payload encrypted
          then Err (VConfiguration (payload_limit_message encrypted))
          else if expires \<le> 0
          then Err (VConfiguration ''voice session expiry must be positive'')
          else if \<not> encrypted \<and> key \<noteq> None
          then Err (VConfiguration ''plaintext sessions must not carry a session key'')
          else Ok \<lparr>vc_endpoint = endpoint, vc_session_id = sid, vc_protocol_version = version,
                   vc_encrypted = encrypted, vc_max_payload = maxp, vc_expires_at = expires,
                   vc_session_key = key, vc_allowed_stream_types = None\<rparr>)"

definition voice_config_new ::
  "voice_endpoint \<Rightarrow> voice_session_id \<Rightarrow> bool \<Rightarrow> nat \<Rightarrow> int \<Rightarrow> session_key option
   \<Rightarrow> (voice_session_config, voice_error) result" where
  "voice_config_new endpoint sid encrypted maxp expires key =
     new_with_protocol_version endpoint sid (ucast PROTOCOL_VERSION) encrypted maxp expires key"

text \<open>\<open>sort_by_key\<close> is stable and \<open>dedup_by_key\<close> keeps the first of each run.\<close>

definition with_stream_types ::
  "voice_session_config \<Rightarrow> stream_type_id list \<Rightarrow> (voice_session_config, voice_error) result" where
  "with_stream_types cfg stream_types =
     (let values = remdups_adj (sort_key (\<lambda>s. unat (stream_type_get s)) stream_types)
      in if values = [] \<or> list_ex is_heartbeat values
         then Err (VConfiguration ''voice stream types must contain business types only'')
         else Ok (cfg\<lparr>vc_allowed_stream_types := Some values\<rparr>))"

text \<open>The cache argument is \<open>None\<close> when the session was started without one.\<close>

definition resolve_key ::
  "voice_session_config \<Rightarrow> key_cache option \<Rightarrow> (session_key option, voice_error) result" where
  "resolve_key cfg cache =
     (if \<not> vc_encrypted cfg then Ok None
      else (case (case vc_session_key cfg of
                    Some k \<Rightarrow> Some k
                  | None \<Rightarrow> Option.bind cache (\<lambda>c. cache_get c (vc_session_id cfg))) of
              Some k \<Rightarrow> Ok (Some k)
            | None \<Rightarrow> Err KeyUnavailable))"

definition cache_inline_key :: "voice_session_config \<Rightarrow> key_cache option \<Rightarrow> key_cache option" where
  "cache_inline_key cfg cache =
     (case (cache, vc_session_key cfg) of
        (Some c, Some k) \<Rightarrow> Some (cache_insert (vc_session_id cfg) k c)
      | _ \<Rightarrow> cache)"

text \<open>What every configuration built by the constructors satisfies.\<close>

definition voice_config_wf :: "voice_session_config \<Rightarrow> bool" where
  "voice_config_wf cfg \<longleftrightarrow>
     0 < vc_max_payload cfg \<and> vc_max_payload cfg \<le> max_payload (vc_encrypted cfg)
     \<and> vc_protocol_version cfg = ucast PROTOCOL_VERSION
     \<and> 0 < vc_expires_at cfg
     \<and> (\<not> vc_encrypted cfg \<longrightarrow> vc_session_key cfg = None)
     \<and> ve_port (vc_endpoint cfg) \<noteq> 0
     \<and> (case vc_allowed_stream_types cfg of
          None \<Rightarrow> True
        | Some ts \<Rightarrow> ts \<noteq> [] \<and> \<not> list_ex is_heartbeat ts
                     \<and> sorted_wrt (\<lambda>a b. unat (stream_type_get a) < unat (stream_type_get b)) ts)"

lemma new_with_protocol_version_wf:
  "new_with_protocol_version e sid v enc maxp ex key = Ok cfg \<Longrightarrow>
   voice_config_wf cfg \<and> vc_allowed_stream_types cfg = None"
  by (auto simp: new_with_protocol_version_def voice_config_wf_def validate_endpoint_def Let_def
      res_simps split: if_splits)

lemma stream_type_get_inject: "stream_type_get a = stream_type_get b \<longleftrightarrow> a = b"
  by (cases a; cases b) simp

lemma sort_dedup_strict:
  fixes ts :: "stream_type_id list"
  shows "sorted_wrt (\<lambda>a b. unat (stream_type_get a) < unat (stream_type_get b))
           (remdups_adj (sort_key (\<lambda>s. unat (stream_type_get s)) ts))"
proof -
  let ?k = "\<lambda>s. unat (stream_type_get s)"
  let ?xs = "remdups_adj (sort_key ?k ts)"
  have inj: "inj ?k" by (rule injI) (simp add: word_unat_eq_iff [symmetric] stream_type_get_inject)
  have eq: "map ?k ?xs = remdups_adj (map ?k (sort_key ?k ts))"
    using inj by (rule remdups_adj_map_injective [symmetric])
  have "sorted (map ?k ?xs)" and "distinct_adj (map ?k ?xs)"
    unfolding eq by (simp_all add: sorted_remdups_adj)
  then show ?thesis
    using sorted_distinct_adj_strict [of "map ?k ?xs"] by (simp add: sorted_wrt_map)
qed

lemma with_stream_types_Ok:
  assumes "with_stream_types cfg ts = Ok cfg'"
  shows "\<exists>values. cfg' = cfg\<lparr>vc_allowed_stream_types := Some values\<rparr> \<and> set values = set ts
     \<and> values \<noteq> [] \<and> \<not> list_ex is_heartbeat values
     \<and> sorted_wrt (\<lambda>a b. unat (stream_type_get a) < unat (stream_type_get b)) values"
  using assms sort_dedup_strict [of ts]
  by (auto simp: with_stream_types_def Let_def split: if_splits)

lemma with_stream_types_wf:
  "voice_config_wf cfg \<Longrightarrow> with_stream_types cfg ts = Ok cfg' \<Longrightarrow> voice_config_wf cfg'"
  by (auto simp: voice_config_wf_def dest!: with_stream_types_Ok)

text \<open>
  Claim C31. Every configuration the two constructors accept, with or without a stream allow-list, is
  well formed: the payload limit is positive and fits the 1200-byte datagram for its protection mode,
  the version is the supported one, a plaintext session carries no key, and the allow-list is exactly
  the given set of business types, strictly ascending.
\<close>

theorem voice_config_valid:
  assumes "new_with_protocol_version endpoint sid version encrypted maxp expires key = Ok cfg"
  shows "voice_config_wf cfg
     \<and> (\<forall>ts cfg'. with_stream_types cfg ts = Ok cfg' \<longrightarrow>
          voice_config_wf cfg' \<and> set (the (vc_allowed_stream_types cfg')) = set ts)"
  using new_with_protocol_version_wf [OF assms] with_stream_types_wf
  by (auto dest: with_stream_types_Ok)

theorem voice_config_valid_witness:
  "\<exists>cfg. new_with_protocol_version \<lparr>ve_host = ''10.0.0.1'', ve_port = 4000\<rparr>
            (FixedId (replicate 16 1)) 1 False 1158 5 None = Ok cfg \<and> voice_config_wf cfg"
proof -
  obtain cfg where "new_with_protocol_version \<lparr>ve_host = ''10.0.0.1'', ve_port = 4000\<rparr>
      (FixedId (replicate 16 1)) 1 False 1158 5 None = Ok cfg"
  proof -
    have "trim ''10.0.0.1'' = ''10.0.0.1''" and
      "parse_ip_addr ''10.0.0.1'' = Some (V4 [10, 0, 0, 1])" by code_simp+
    then show thesis
      by (intro that) (simp add: new_with_protocol_version_def validate_endpoint_def
          PROTOCOL_VERSION_def max_payload_def size_defs)
  qed
  with voice_config_valid [OF this] show ?thesis by blast
qed

lemma resolve_key_no_downgrade:
  "resolve_key cfg cache = Ok None \<Longrightarrow> \<not> vc_encrypted cfg"
  by (auto simp: resolve_key_def split: if_splits option.splits)

lemma resolve_key_encrypted:
  "vc_encrypted cfg \<Longrightarrow> resolve_key cfg cache = Ok k \<Longrightarrow> \<exists>k'. k = Some k'"
  by (auto simp: resolve_key_def split: option.splits)

end
