(* ===== verification/PacketCodec.thy ===== *)
theory PacketCodec
  imports VoiceConfig
begin

text \<open>
  The UDP wire format of \<open>crates/zephyrvox-voice\<close>: \<open>crypto.rs\<close> (nonces, sealing, opening),
  \<open>codec.rs\<close> (encoding) and \<open>decode.rs\<close> (decoding).

  AES-GCM and HKDF belong to other crates. They are the argument \<open>A\<close> of the definitions, a record
  of functions; \<open>aead_ok\<close> names what the code relies on: for a 12-byte nonce and a message that
  fits a datagram, sealing succeeds, adds the 16-byte tag, and opening with the same key, nonce and
  associated data gives the message back.
\<close>

section \<open>Cryptography\<close>

record 'k aead =
  ae_encrypt :: "'k \<Rightarrow> bytes \<Rightarrow> bytes \<Rightarrow> bytes \<Rightarrow> bytes option"
  ae_decrypt :: "'k \<Rightarrow> bytes \<Rightarrow> bytes \<Rightarrow> bytes \<Rightarrow> bytes option"
  ae_hkdf :: "bytes \<Rightarrow> bytes \<Rightarrow> bytes \<Rightarrow> bytes"
  ae_key :: "bytes \<Rightarrow> 'k"

definition aead_ok :: "'k aead \<Rightarrow> bool" where
  "aead_ok A \<longleftrightarrow>
     (\<forall>k n aad m. length n = 12 \<and> length m \<le> MAX_PACKET_SIZE \<longrightarrow>
        (\<exists>c. ae_encrypt A k n aad m = Some c \<and> length c = length m + TAG_SIZE
             \<and> ae_decrypt A k n aad c = Some m))"

definition C2S_INFO :: bytes where
  "C2S_INFO = bytes_of_string ''zephyrvox-voice-c2s-v1''"

definition S2C_INFO :: bytes where
  "S2C_INFO = bytes_of_string ''zephyrvox-voice-s2c-v1''"

record 'k direction_keys =
  dk_c2s :: 'k
  dk_s2c :: 'k

definition derive_direction_keys ::
  "'k aead \<Rightarrow> voice_session_id \<Rightarrow> session_key \<Rightarrow> 'k direction_keys" where
  "derive_direction_keys A sid master =
     (let expand = ae_hkdf A (fixed_id_as_bytes sid) (session_key_as_bytes master)
      in \<lparr>dk_c2s = ae_key A (expand C2S_INFO), dk_s2c = ae_key A (expand S2C_INFO)\<rparr>)"

definition nonce_for :: "u64 \<Rightarrow> bytes" where
  "nonce_for sequence = replicate 4 0 @ to_be_bytes 8 sequence"

definition seal :: "'k aead \<Rightarrow> 'k \<Rightarrow> u64 \<Rightarrow> bytes \<Rightarrow> bytes \<Rightarrow> (bytes, packet_error) result" where
  "seal A k sequence header plaintext =
     (if sequence = 0 then Err SequenceZero
      else ok_or (ae_encrypt A k (nonce_for sequence) header plaintext) AuthenticationFailed)"

definition open_body :: "'k aead \<Rightarrow> 'k \<Rightarrow> u64 \<Rightarrow> bytes \<Rightarrow> bytes \<Rightarrow> (bytes, packet_error) result" where
  "open_body A k sequence header ciphertext =
     (if sequence = 0 then Err SequenceZero
      else ok_or (ae_decrypt A k (nonce_for sequence) header ciphertext) AuthenticationFailed)"

lemma length_nonce_for [simp]: "length (nonce_for s) = 12"
  by (simp add: nonce_for_def)

lemma nonce_for_inject: "nonce_for s = nonce_for t \<longleftrightarrow> s = t"
  by (simp add: nonce_for_def to_be_bytes_u64_inject)

lemma seal_Ok:
  assumes "aead_ok A" and "s \<noteq> 0" and "length m \<le> MAX_PACKET_SIZE"
  shows "\<exists>c. seal A k s h m = Ok c \<and> length c = length m + TAG_SIZE \<and> open_body A k s h c = Ok m"
proof -
  from assms obtain c where "ae_encrypt A k (nonce_for s) h m = Some c"
    "length c = length m + TAG_SIZE" "ae_decrypt A k (nonce_for s) h c = Some m"
    unfolding aead_ok_def by (metis length_nonce_for)
  with assms(2) show ?thesis by (simp add: seal_def open_body_def)
qed


section \<open>The codec\<close>

record 'k packet_codec =
  pc_session_id :: voice_session_id
  pc_encrypted :: bool
  pc_max_payload :: nat
  pc_keys :: "'k direction_keys option"
  pc_allowed_stream_types :: "u8 \<Rightarrow> bool"

text \<open>\<open>[bool; 256]\<close> is a predicate on \<open>u8\<close>. The result carries the cache after \<open>cache_inline_key\<close>.\<close>

definition codec_from_config ::
  "'k aead \<Rightarrow> voice_session_config \<Rightarrow> key_cache option
   \<Rightarrow> key_cache option \<times> ('k packet_codec, voice_error) result" where
  "codec_from_config A cfg cache =
     (let cache' = cache_inline_key cfg cache
      in (cache', and_then (resolve_key cfg cache') (\<lambda>key.
            Ok \<lparr>pc_session_id = vc_session_id cfg,
                pc_encrypted = vc_encrypted cfg,
                pc_max_payload = vc_max_payload cfg,
                pc_keys = map_option (derive_direction_keys A (vc_session_id cfg)) key,
                pc_allowed_stream_types =
                  (case vc_allowed_stream_types cfg of
                     None \<Rightarrow> (\<lambda>_. True)(HEARTBEAT_STREAM_TYPE := False)
                   | Some ts \<Rightarrow> (\<lambda>b. b \<in> stream_type_get ` set ts))\<rparr>)))"

definition validate_media_values ::
  "(u8 \<Rightarrow> bool) \<Rightarrow> nat \<Rightarrow> stream_type_id \<Rightarrow> nat \<Rightarrow> (unit, packet_error) result" where
  "validate_media_values allowed maxp st payload_length =
     (if is_heartbeat st then Err HeartbeatStream
      else if \<not> is_business_stream_type (stream_type_get st) \<or> \<not> allowed (stream_type_get st)
      then Err (UnknownStreamType (stream_type_get st))
      else if payload_length > maxp then Err (PayloadTooLarge payload_length maxp)
      else Ok ())"

definition validate_media ::
  "'k packet_codec \<Rightarrow> stream_type_id \<Rightarrow> nat \<Rightarrow> (unit, packet_error) result" where
  "validate_media c st len =
     validate_media_values (pc_allowed_stream_types c) (pc_max_payload c) st len"

text \<open>\<open>copy_into buf i src\<close> is \<open>buf[i..i + src.len()].copy_from_slice(src)\<close>, in range.\<close>

definition copy_into :: "bytes \<Rightarrow> nat \<Rightarrow> bytes \<Rightarrow> bytes" where
  "copy_into buf i src = take i buf @ src @ drop (i + length src) buf"

definition outer_header :: "'k packet_codec \<Rightarrow> u64 \<Rightarrow> bytes" where
  "outer_header c seq =
     (let h0 = replicate OUTER_HEADER_SIZE 0;
          h1 = copy_into h0 0 MAGIC;
          h2 = h1[4 := PROTOCOL_VERSION];
          h3 = copy_into h2 6 (fixed_id_as_bytes (pc_session_id c))
      in copy_into h3 22 (to_be_bytes 8 seq))"

definition channel_body :: "stream_type_id \<Rightarrow> u16 \<Rightarrow> u64 \<Rightarrow> bytes \<Rightarrow> bytes" where
  "channel_body st channel_seq speaker payload =
     (let b0 = replicate (CHANNEL_HEADER_SIZE + length payload) 0;
          b1 = b0[0 := stream_type_get st];
          b2 = copy_into b1 1 (to_be_bytes 2 channel_seq);
          b3 = copy_into b2 4 (to_be_bytes 8 speaker)
      in copy_into b3 CHANNEL_HEADER_SIZE payload)"

definition direction_key :: "'k direction_keys \<Rightarrow> bool \<Rightarrow> 'k" where
  "direction_key ks client_to_server = (if client_to_server then dk_c2s ks else dk_s2c ks)"

definition encode_body ::
  "'k aead \<Rightarrow> 'k packet_codec \<Rightarrow> u64 \<Rightarrow> stream_type_id \<Rightarrow> u16 \<Rightarrow> u64 \<Rightarrow> bytes \<Rightarrow> bool
   \<Rightarrow> (bytes, packet_error) result" where
  "encode_body A c seq st channel_seq speaker payload client_to_server =
     (if seq = 0 then Err SequenceZero
      else
        let header = outer_header c seq; body = channel_body st channel_seq speaker payload
        in and_then
             (if pc_encrypted c then
                and_then (ok_or (pc_keys c) AuthenticationFailed) (\<lambda>ks.
                  seal A (direction_key ks client_to_server) seq header body)
              else Ok body)
             (\<lambda>body.
                if OUTER_HEADER_SIZE + length body > MAX_PACKET_SIZE then Err Oversized
                else Ok (header @ body)))"

definition encode_media ::
  "'k aead \<Rightarrow> 'k packet_codec \<Rightarrow> u64 \<Rightarrow> u16 \<Rightarrow> stream_type_id \<Rightarrow> bytes \<Rightarrow> (bytes, packet_error) result"
where
  "encode_media A c seq channel_seq st payload =
     and_then (validate_media c st (length payload)) (\<lambda>_.
       encode_body A c seq st channel_seq 0 payload True)"

definition encode_heartbeat :: "'k aead \<Rightarrow> 'k packet_codec \<Rightarrow> u64 \<Rightarrow> (bytes, packet_error) result" where
  "encode_heartbeat A c seq =
     encode_body A c seq (StreamTypeId HEARTBEAT_STREAM_TYPE) 0 0 [] True"

definition encode_server_media ::
  "'k aead \<Rightarrow> 'k packet_codec \<Rightarrow> u64 \<Rightarrow> u16 \<Rightarrow> stream_type_id \<Rightarrow> snowflake \<Rightarrow> bytes
   \<Rightarrow> (bytes, packet_error) result" where
  "encode_server_media A c seq channel_seq st speaker payload =
     and_then (validate_media c st (length payload)) (\<lambda>_.
       encode_body A c seq st channel_seq (snowflake_get speaker) payload False)"

definition encode_revocation ::
  "'k aead \<Rightarrow> 'k packet_codec \<Rightarrow> u64 \<Rightarrow> revocation_reason \<Rightarrow> (bytes, packet_error) result" where
  "encode_revocation A c seq reason =
     encode_body A c seq (StreamTypeId HEARTBEAT_STREAM_TYPE) 0 0 [reason_as_wire reason] False"


section \<open>Decoding\<close>

datatype packet_control = Heartbeat | Revocation revocation_reason

record decoded_packet =
  dp_session_id :: voice_session_id
  dp_transport_seq :: u64
  dp_stream_type :: stream_type_id
  dp_channel_seq :: u16
  dp_flags :: u8
  dp_speaker_id :: "snowflake option"
  dp_payload :: bytes
  dp_control :: "packet_control option"

text \<open>\<open>slice bs i j\<close> is \<open>&bs[i..j]\<close>; the length checks make every use in range.\<close>

definition slice :: "bytes \<Rightarrow> nat \<Rightarrow> nat \<Rightarrow> bytes" where
  "slice bs i j = take (j - i) (drop i bs)"

definition decode_channel ::
  "'k packet_codec \<Rightarrow> voice_session_id \<Rightarrow> u64 \<Rightarrow> bytes \<Rightarrow> bool \<Rightarrow> (decoded_packet, packet_error) result"
where
  "decode_channel c sid seq body client_to_server =
     (if length body < CHANNEL_HEADER_SIZE then Err Truncated
      else
        let st = StreamTypeId (body ! 0);
            channel_seq = from_be_bytes [body ! 1, body ! 2];
            flags = body ! 3;
            speaker_raw = from_be_bytes (slice body 4 12);
            payload = drop CHANNEL_HEADER_SIZE body;
            packet = \<lparr>dp_session_id = sid, dp_transport_seq = seq, dp_stream_type = st,
                      dp_channel_seq = channel_seq, dp_flags = flags, dp_speaker_id = None,
                      dp_payload = payload, dp_control = None\<rparr>
        in if flags \<noteq> 0 then Err InvalidFlags
           else if is_heartbeat st then
             (if channel_seq \<noteq> 0 \<or> speaker_raw \<noteq> 0 \<or> length payload > 1
                 \<or> (client_to_server \<and> payload \<noteq> [])
              then Err InvalidControlPacket
              else Ok (packet\<lparr>dp_control :=
                     Some (if payload = [] then Heartbeat
                           else Revocation (reason_from_wire (payload ! 0)))\<rparr>))
           else if \<not> is_business_stream_type (stream_type_get st)
                   \<or> \<not> pc_allowed_stream_types c (stream_type_get st)
           then Err (UnknownStreamType (stream_type_get st))
           else and_then
             (if client_to_server then
                (if speaker_raw \<noteq> 0 then Err InvalidSpeaker else Ok None)
              else map_ok Some (map_err (\<lambda>_. InvalidSpeaker) (snowflake_new speaker_raw)))
             (\<lambda>speaker.
                if length payload > pc_max_payload c
                then Err (PayloadTooLarge (length payload) (pc_max_payload c))
                else Ok (packet\<lparr>dp_speaker_id := speaker\<rparr>)))"

definition decode_direction ::
  "'k aead \<Rightarrow> 'k packet_codec \<Rightarrow> bytes \<Rightarrow> bool \<Rightarrow> (decoded_packet, packet_error) result" where
  "decode_direction A c datagram client_to_server =
     (if length datagram < OUTER_HEADER_SIZE + CHANNEL_HEADER_SIZE then Err Truncated
      else if length datagram > MAX_PACKET_SIZE then Err Oversized
      else if take 4 datagram \<noteq> MAGIC then Err InvalidMagic
      else if datagram ! 4 \<noteq> PROTOCOL_VERSION then Err (UnsupportedVersion (datagram ! 4))
      else if datagram ! 5 \<noteq> 0 then Err InvalidFlags
      else and_then (map_err (\<lambda>_. WrongSession) (fixed_id_from_bytes (slice datagram 6 22))) (\<lambda>sid.
        if sid \<noteq> pc_session_id c then Err WrongSession
        else
          let seq = from_be_bytes (slice datagram 22 30)
          in if seq = 0 then Err SequenceZero
             else and_then
               (if pc_encrypted c then
                  (if length datagram < OUTER_HEADER_SIZE + CHANNEL_HEADER_SIZE + TAG_SIZE
                   then Err Truncated
                   else and_then (ok_or (pc_keys c) AuthenticationFailed) (\<lambda>ks.
                     open_body A (direction_key ks client_to_server) seq
                       (take OUTER_HEADER_SIZE datagram) (drop OUTER_HEADER_SIZE datagram)))
                else Ok (drop OUTER_HEADER_SIZE datagram))
               (\<lambda>body. decode_channel c sid seq body client_to_server)))"

definition decode_server ::
  "'k aead \<Rightarrow> 'k packet_codec \<Rightarrow> bytes \<Rightarrow> (decoded_packet, packet_error) result" where
  "decode_server A c datagram = decode_direction A c datagram False"

definition decode_client ::
  "'k aead \<Rightarrow> 'k packet_codec \<Rightarrow> bytes \<Rightarrow> (decoded_packet, packet_error) result" where
  "decode_client A c datagram = decode_direction A c datagram True"


section \<open>Layout of the headers\<close>

text \<open>What a codec built from a validated configuration satisfies.\<close>

definition codec_wf :: "'k packet_codec \<Rightarrow> bool" where
  "codec_wf c \<longleftrightarrow>
     fixed_id_wf (pc_session_id c)
     \<and> 0 < pc_max_payload c \<and> pc_max_payload c \<le> max_payload (pc_encrypted c)
     \<and> (pc_encrypted c \<longrightarrow> pc_keys c \<noteq> None)
     \<and> \<not> pc_allowed_stream_types c HEARTBEAT_STREAM_TYPE"

lemma outer_header_layout:
  assumes "length (fixed_id_as_bytes (pc_session_id c)) = 16"
  shows "outer_header c seq
    = [90, 86, 88, 49, 1, 0] @ fixed_id_as_bytes (pc_session_id c) @ to_be_bytes 8 seq"
  using assms
  by (simp add: outer_header_def copy_into_def OUTER_HEADER_SIZE_def PROTOCOL_VERSION_def
      numeral_eq_Suc)

lemma channel_body_layout:
  "channel_body st ch sp payload
    = [stream_type_get st] @ to_be_bytes 2 ch @ [0] @ to_be_bytes 8 sp @ payload"
  by (simp add: channel_body_def copy_into_def CHANNEL_HEADER_SIZE_def numeral_eq_Suc)

lemma codec_from_config_wf:
  assumes "codec_from_config A cfg cache = (cache', Ok c)"
    and "voice_config_wf cfg" and "fixed_id_wf (vc_session_id cfg)"
  shows "codec_wf c"
proof -
  from assms(1) obtain key where key: "resolve_key cfg cache' = Ok key"
    and c: "c = \<lparr>pc_session_id = vc_session_id cfg, pc_encrypted = vc_encrypted cfg,
                pc_max_payload = vc_max_payload cfg,
                pc_keys = map_option (derive_direction_keys A (vc_session_id cfg)) key,
                pc_allowed_stream_types =
                  (case vc_allowed_stream_types cfg of
                     None \<Rightarrow> (\<lambda>_. True)(HEARTBEAT_STREAM_TYPE := False)
                   | Some ts \<Rightarrow> (\<lambda>b. b \<in> stream_type_get ` set ts))\<rparr>"
    by (auto simp: codec_from_config_def Let_def res_simps)
  have "vc_encrypted cfg \<Longrightarrow> key \<noteq> None"
    using resolve_key_encrypted [OF _ key] by auto
  with assms(2,3) show ?thesis
    by (auto simp: c codec_wf_def voice_config_wf_def list_ex_iff is_heartbeat_def
        HEARTBEAT_STREAM_TYPE_def split: option.splits)
qed


section \<open>Round trips\<close>

lemma length_outer_header:
  "fixed_id_wf (pc_session_id c) \<Longrightarrow> length (outer_header c seq) = OUTER_HEADER_SIZE"
  by (simp add: outer_header_layout fixed_id_wf_def OUTER_HEADER_SIZE_def)

lemma length_channel_body [simp]:
  "length (channel_body st ch sp payload) = CHANNEL_HEADER_SIZE + length payload"
  by (simp add: channel_body_layout CHANNEL_HEADER_SIZE_def)

lemma outer_header_fields:
  assumes "fixed_id_wf (pc_session_id c)"
  shows "take 4 (outer_header c seq) = MAGIC"
    and "(outer_header c seq @ rest) ! 4 = PROTOCOL_VERSION"
    and "(outer_header c seq @ rest) ! 5 = 0"
    and "slice (outer_header c seq @ rest) 6 22 = fixed_id_as_bytes (pc_session_id c)"
    and "slice (outer_header c seq @ rest) 22 30 = to_be_bytes 8 seq"
  using assms
  by (simp_all add: outer_header_layout fixed_id_wf_def slice_def PROTOCOL_VERSION_def)

lemma fixed_id_from_as_bytes:
  "fixed_id_wf i \<Longrightarrow> fixed_id_from_bytes (fixed_id_as_bytes i) = Ok i"
  by (cases i) (simp add: fixed_id_wf_def fixed_id_from_bytes_def)

text \<open>Decoding what \<open>encode_body\<close> produced gives the channel body back to \<open>decode_channel\<close>.\<close>

lemma decode_encode_body:
  assumes wf: "codec_wf c" and ok: "aead_ok A" and seq: "seq \<noteq> 0"
    and len: "length payload \<le> pc_max_payload c"
  shows "\<exists>d. encode_body A c seq st ch sp payload dir = Ok d \<and> length d \<le> MAX_PACKET_SIZE
     \<and> decode_direction A c d dir
         = decode_channel c (pc_session_id c) seq (channel_body st ch sp payload) dir"
proof -
  let ?h = "outer_header c seq" and ?b = "channel_body st ch sp payload"
  have id: "fixed_id_wf (pc_session_id c)" and maxp: "pc_max_payload c \<le> max_payload (pc_encrypted c)"
    using wf by (simp_all add: codec_wf_def)
  note facts = outer_header_fields [OF id] length_outer_header [OF id] fixed_id_from_as_bytes [OF id]
  show ?thesis
  proof (cases "pc_encrypted c")
    case False
    then show ?thesis
      using len maxp seq
      by (simp add: encode_body_def decode_direction_def facts max_payload_def size_defs)
  next
    case True
    then obtain ks where ks: "pc_keys c = Some ks" using wf by (auto simp: codec_wf_def)
    have small: "length ?b \<le> MAX_PACKET_SIZE"
      using len maxp True by (simp add: max_payload_def size_defs)
    obtain ct where "seal A (direction_key ks dir) seq ?h ?b = Ok ct"
      and "length ct = length ?b + TAG_SIZE"
      and "open_body A (direction_key ks dir) seq ?h ct = Ok ?b"
      using seal_Ok [OF ok seq small] by blast
    with True ks seq len maxp show ?thesis
      by (simp add: encode_body_def decode_direction_def facts max_payload_def size_defs)
  qed
qed

lemma channel_body_fields:
  "channel_body st ch sp payload ! 0 = stream_type_get st"
  "[channel_body st ch sp payload ! Suc 0, channel_body st ch sp payload ! 2] = to_be_bytes 2 ch"
  "channel_body st ch sp payload ! 3 = 0"
  "slice (channel_body st ch sp payload) 4 12 = to_be_bytes 8 sp"
  "drop CHANNEL_HEADER_SIZE (channel_body st ch sp payload) = payload"
  by (simp_all add: channel_body_layout slice_def CHANNEL_HEADER_SIZE_def numeral_eq_Suc)

lemma stream_type_id_collapse [simp]: "StreamTypeId (stream_type_get st) = st"
  by (cases st) simp

lemma decode_channel_fields:
  "decode_channel c sid seq (channel_body st ch sp payload) dir =
     (let packet = \<lparr>dp_session_id = sid, dp_transport_seq = seq, dp_stream_type = st,
                    dp_channel_seq = ch, dp_flags = 0, dp_speaker_id = None,
                    dp_payload = payload, dp_control = None\<rparr>
      in if is_heartbeat st then
           (if ch \<noteq> 0 \<or> sp \<noteq> 0 \<or> length payload > 1 \<or> (dir \<and> payload \<noteq> [])
            then Err InvalidControlPacket
            else Ok (packet\<lparr>dp_control :=
                   Some (if payload = [] then Heartbeat
                         else Revocation (reason_from_wire (payload ! 0)))\<rparr>))
         else if \<not> is_business_stream_type (stream_type_get st)
                 \<or> \<not> pc_allowed_stream_types c (stream_type_get st)
         then Err (UnknownStreamType (stream_type_get st))
         else and_then
           (if dir then (if sp \<noteq> 0 then Err InvalidSpeaker else Ok None)
            else map_ok Some (map_err (\<lambda>_. InvalidSpeaker) (snowflake_new sp)))
           (\<lambda>speaker.
              if length payload > pc_max_payload c
              then Err (PayloadTooLarge (length payload) (pc_max_payload c))
              else Ok (packet\<lparr>dp_speaker_id := speaker\<rparr>)))"
  by (simp add: decode_channel_def channel_body_fields)

lemma validate_media_Ok_iff:
  "validate_media c st len = Ok u \<longleftrightarrow>
     \<not> is_heartbeat st \<and> is_business_stream_type (stream_type_get st)
     \<and> pc_allowed_stream_types c (stream_type_get st) \<and> len \<le> pc_max_payload c"
  by (auto simp: validate_media_def validate_media_values_def)

lemma snowflake_new_get: "snowflake_wf s \<Longrightarrow> snowflake_new (snowflake_get s) = Ok s"
  by (cases s) (simp add: snowflake_new_Ok_iff)

text \<open>The packet a peer sees for one media frame.\<close>

definition media_packet ::
  "'k packet_codec \<Rightarrow> u64 \<Rightarrow> u16 \<Rightarrow> stream_type_id \<Rightarrow> snowflake option \<Rightarrow> bytes \<Rightarrow> decoded_packet" where
  "media_packet c seq ch st speaker payload =
     \<lparr>dp_session_id = pc_session_id c, dp_transport_seq = seq, dp_stream_type = st,
      dp_channel_seq = ch, dp_flags = 0, dp_speaker_id = speaker,
      dp_payload = payload, dp_control = None\<rparr>"

definition control_packet ::
  "'k packet_codec \<Rightarrow> u64 \<Rightarrow> bytes \<Rightarrow> packet_control \<Rightarrow> decoded_packet" where
  "control_packet c seq payload ctl =
     (media_packet c seq 0 (StreamTypeId HEARTBEAT_STREAM_TYPE) None payload)\<lparr>dp_control := Some ctl\<rparr>"

text \<open>
  Claim C1. A media frame that passes validation is encoded into a datagram of at most 1200 bytes in
  either direction, and decoding it with the same codec returns the same session, sequences, stream,
  speaker and payload, in plaintext and in encrypted sessions.
\<close>

theorem media_roundtrip:
  assumes "codec_wf c" and "aead_ok A" and "seq \<noteq> 0" and "snowflake_wf speaker"
    and "validate_media c st (length payload) = Ok ()"
  shows "(\<exists>d. encode_server_media A c seq ch st speaker payload = Ok d \<and> length d \<le> MAX_PACKET_SIZE
            \<and> decode_server A c d = Ok (media_packet c seq ch st (Some speaker) payload))
     \<and> (\<exists>d. encode_media A c seq ch st payload = Ok d \<and> length d \<le> MAX_PACKET_SIZE
            \<and> decode_client A c d = Ok (media_packet c seq ch st None payload))"
  using assms
    decode_encode_body [OF assms(1-3), of payload st ch "snowflake_get speaker" False]
    decode_encode_body [OF assms(1-3), of payload st ch 0 True]
  by (auto simp: encode_server_media_def encode_media_def decode_server_def decode_client_def
      decode_channel_fields validate_media_Ok_iff media_packet_def snowflake_new_get res_simps)

text \<open>A stand-in cipher with the documented behaviour: it appends a 16-byte tag and checks it.\<close>

definition tag_cipher :: "nat aead" where
  "tag_cipher = \<lparr>ae_encrypt = (\<lambda>k n aad m. Some (m @ replicate 16 7)),
     ae_decrypt = (\<lambda>k n aad ct. if drop (length ct - 16) ct = replicate 16 7
                               then Some (take (length ct - 16) ct) else None),
     ae_hkdf = (\<lambda>salt ikm info. info), ae_key = length\<rparr>"

lemma tag_cipher_ok: "aead_ok tag_cipher"
  by (simp add: aead_ok_def tag_cipher_def TAG_SIZE_def)

definition sample_codec :: "nat packet_codec" where
  "sample_codec = \<lparr>pc_session_id = FixedId (replicate 16 1), pc_encrypted = True,
     pc_max_payload = 1000, pc_keys = Some \<lparr>dk_c2s = 1, dk_s2c = 2\<rparr>,
     pc_allowed_stream_types = (\<lambda>b. b = 3)\<rparr>"

lemma sample_codec_wf: "codec_wf sample_codec"
  by code_simp

theorem media_roundtrip_witness:
  "\<exists>d. encode_server_media tag_cipher sample_codec 9 5 (StreamTypeId 3) (Snowflake 77) [1, 2] = Ok d
     \<and> decode_server tag_cipher sample_codec d
         = Ok (media_packet sample_codec 9 5 (StreamTypeId 3) (Some (Snowflake 77)) [1, 2])"
proof -
  have "snowflake_wf (Snowflake 77)" by code_simp
  moreover have "validate_media sample_codec (StreamTypeId 3) (length [1 :: u8, 2]) = Ok ()"
    by (simp add: validate_media_Ok_iff sample_codec_def is_heartbeat_def
        is_business_stream_type_def HEARTBEAT_STREAM_TYPE_def)
  moreover have "(9 :: u64) \<noteq> 0" by simp
  ultimately show ?thesis
    using media_roundtrip [OF sample_codec_wf tag_cipher_ok] by blast
qed

text \<open>
  Control packets survive the wire: an empty heartbeat decodes at the server as a heartbeat
  and a revocation decodes at the client as the reason its byte stands for.
\<close>

theorem control_roundtrip:
  assumes "codec_wf c" and "aead_ok A" and "seq \<noteq> 0"
  shows "(\<exists>d. encode_heartbeat A c seq = Ok d \<and> length d \<le> MAX_PACKET_SIZE
            \<and> decode_client A c d = Ok (control_packet c seq [] Heartbeat))
     \<and> (\<exists>d. encode_revocation A c seq reason = Ok d \<and> length d \<le> MAX_PACKET_SIZE
            \<and> decode_server A c d = Ok (control_packet c seq [reason_as_wire reason]
                 (Revocation (reason_from_wire (reason_as_wire reason)))))"
proof -
  have "0 < pc_max_payload c" using assms(1) by (simp add: codec_wf_def)
  then show ?thesis
    using decode_encode_body [OF assms, of "[]" "StreamTypeId HEARTBEAT_STREAM_TYPE" 0 0 True]
      decode_encode_body [OF assms, of "[reason_as_wire reason]"
        "StreamTypeId HEARTBEAT_STREAM_TYPE" 0 0 False]
    by (auto simp: encode_heartbeat_def encode_revocation_def decode_client_def decode_server_def
        decode_channel_fields control_packet_def media_packet_def is_heartbeat_def
        HEARTBEAT_STREAM_TYPE_def)
qed

section \<open>What decoding guarantees\<close>

text \<open>The body of a datagram, as the receiving side authenticates it.\<close>

definition authentic_body :: "'k aead \<Rightarrow> 'k packet_codec \<Rightarrow> bool \<Rightarrow> u64 \<Rightarrow> bytes \<Rightarrow> bytes \<Rightarrow> bool" where
  "authentic_body A c dir seq d body \<longleftrightarrow>
     (if pc_encrypted c
      then (case pc_keys c of
              None \<Rightarrow> False
            | Some ks \<Rightarrow> ae_decrypt A (direction_key ks dir) (nonce_for seq)
                           (take OUTER_HEADER_SIZE d) (drop OUTER_HEADER_SIZE d) = Some body)
      else body = drop OUTER_HEADER_SIZE d)"

lemma FixedId_eq_iff: "FixedId bs = i \<longleftrightarrow> bs = fixed_id_as_bytes i"
  by (cases i) auto

lemma decode_direction_Ok:
  assumes "decode_direction A c d dir = Ok p"
  shows "\<exists>body. authentic_body A c dir (from_be_bytes (slice d 22 30)) d body
     \<and> decode_channel c (pc_session_id c) (from_be_bytes (slice d 22 30)) body dir = Ok p
     \<and> (from_be_bytes (slice d 22 30) :: u64) \<noteq> 0
     \<and> slice d 6 22 = fixed_id_as_bytes (pc_session_id c)
     \<and> length d \<le> MAX_PACKET_SIZE"
  using assms
  by (auto simp: decode_direction_def Let_def res_simps authentic_body_def open_body_def
      fixed_id_from_bytes_def FixedId_eq_iff split: if_splits)

lemma decode_channel_Ok:
  assumes "decode_channel c sid seq body dir = Ok p"
  shows "dp_session_id p = sid \<and> dp_transport_seq p = seq \<and> dp_flags p = 0
     \<and> dp_payload p = drop CHANNEL_HEADER_SIZE body
     \<and> (dp_control p = None \<longrightarrow>
          pc_allowed_stream_types c (stream_type_get (dp_stream_type p))
          \<and> \<not> is_heartbeat (dp_stream_type p)
          \<and> length (dp_payload p) \<le> pc_max_payload c
          \<and> (if dir then dp_speaker_id p = None else \<exists>s. dp_speaker_id p = Some s \<and> snowflake_wf s))
     \<and> (dp_control p \<noteq> None \<longrightarrow> is_heartbeat (dp_stream_type p) \<and> length (dp_payload p) \<le> 1)"
  using assms
  by (auto simp: decode_channel_def Let_def res_simps snowflake_new_Ok_iff split: if_splits)

text \<open>
  Claim C6. A datagram the client accepts belongs to its session, carries a non-zero transport
  sequence read from its own header, and its payload is the tail of a body that, in an encrypted
  session, the server-to-client key authenticated under the nonce of that sequence with the whole
  outer header as associated data. Media has an allowed business stream, a payload within the
  negotiated limit and a valid speaker; a control packet carries at most one byte.
\<close>

theorem decode_server_sound:
  assumes "decode_server A c d = Ok p"
  shows "dp_session_id p = pc_session_id c
     \<and> slice d 6 22 = fixed_id_as_bytes (pc_session_id c)
     \<and> dp_transport_seq p \<noteq> 0 \<and> dp_transport_seq p = from_be_bytes (slice d 22 30)
     \<and> length d \<le> MAX_PACKET_SIZE
     \<and> (\<exists>body. authentic_body A c False (dp_transport_seq p) d body
               \<and> dp_payload p = drop CHANNEL_HEADER_SIZE body)
     \<and> (case dp_control p of
          None \<Rightarrow> pc_allowed_stream_types c (stream_type_get (dp_stream_type p))
                  \<and> \<not> is_heartbeat (dp_stream_type p)
                  \<and> length (dp_payload p) \<le> pc_max_payload c
                  \<and> (\<exists>s. dp_speaker_id p = Some s \<and> snowflake_wf s)
        | Some _ \<Rightarrow> is_heartbeat (dp_stream_type p) \<and> length (dp_payload p) \<le> 1)"
proof -
  obtain body where b: "authentic_body A c False (from_be_bytes (slice d 22 30)) d body"
    "decode_channel c (pc_session_id c) (from_be_bytes (slice d 22 30)) body False = Ok p"
    "(from_be_bytes (slice d 22 30) :: u64) \<noteq> 0"
    "slice d 6 22 = fixed_id_as_bytes (pc_session_id c)" "length d \<le> MAX_PACKET_SIZE"
    using decode_direction_Ok [OF assms [unfolded decode_server_def]] by blast
  from decode_channel_Ok [OF b(2)] b show ?thesis by (auto split: option.splits)
qed

theorem decode_server_sound_witness:
  "\<exists>d p. decode_server tag_cipher sample_codec d = Ok p \<and> dp_transport_seq p \<noteq> 0
     \<and> (\<exists>s. dp_speaker_id p = Some s \<and> snowflake_wf s)"
proof -
  obtain d where d: "decode_server tag_cipher sample_codec d
      = Ok (media_packet sample_codec 9 5 (StreamTypeId 3) (Some (Snowflake 77)) [1, 2])"
  proof -
    let ?b = "channel_body (StreamTypeId 3) 5 77 [1, 2]"
    have "decode_channel sample_codec (pc_session_id sample_codec) 9 ?b False
      = Ok (media_packet sample_codec 9 5 (StreamTypeId 3) (Some (Snowflake 77)) [1, 2])"
      by code_simp
    moreover have "(9 :: u64) \<noteq> 0" "length ([1, 2] :: bytes) \<le> pc_max_payload sample_codec"
      by (simp_all add: sample_codec_def)
    ultimately show thesis
      using decode_encode_body [OF sample_codec_wf tag_cipher_ok, of 9 "[1, 2]" "StreamTypeId 3" 5 77 False] that
      by (auto simp: decode_server_def)
  qed
  from decode_server_sound [OF d] d show ?thesis
    by (intro exI [of _ d] exI conjI) (auto simp: media_packet_def)
qed

end
