(* ===== verification/ReplayWindow.thy ===== *)
theory ReplayWindow
  imports Prelude
begin

text \<open>
  The anti-replay window of \<open>crates/zephyrvox-voice/src/replay.rs\<close>: a high-water mark and 128
  bits, kept as two 64-bit words. The locale \<open>replay_filter\<close> is what the UDP worker relies on;
  the window interprets it. The refinement relation \<open>window_sees\<close> reads the two words as the set
  of sequence numbers accepted so far.
\<close>

section \<open>The window\<close>

record replay_window =
  rw_high :: u64
  rw_bits0 :: u64
  rw_bits1 :: u64

definition replay_default :: replay_window where
  "replay_default = \<lparr>rw_high = 0, rw_bits0 = 0, rw_bits1 = 0\<rparr>"

text \<open>\<open>self.bits[i]\<close>; the index is 0 or 1 at every use, since the offset is below 128.\<close>

definition bits_get :: "replay_window \<Rightarrow> nat \<Rightarrow> u64" where
  "bits_get w i = (if i = 0 then rw_bits0 w else rw_bits1 w)"

definition bits_set :: "replay_window \<Rightarrow> nat \<Rightarrow> u64 \<Rightarrow> replay_window" where
  "bits_set w i v = (if i = 0 then w\<lparr>rw_bits0 := v\<rparr> else w\<lparr>rw_bits1 := v\<rparr>)"

definition would_accept :: "replay_window \<Rightarrow> u64 \<Rightarrow> bool" where
  "would_accept w sequence =
     (if sequence = 0 then False
      else if sequence > rw_high w then True
      else let offset = rw_high w - sequence
           in if offset \<ge> 128 then False
              else (bits_get w (unat (offset div 64)) AND push_bit (unat (offset mod 64)) 1) = 0)"

text \<open>\<open>None\<close> is the \<open>unreachable!\<close> arm.\<close>

definition shift_left :: "replay_window \<Rightarrow> nat \<Rightarrow> replay_window option" where
  "shift_left w shift =
     (if shift = 0 then Some w
      else if shift < 64 then
        Some (w\<lparr>rw_bits1 := push_bit shift (rw_bits1 w) OR drop_bit (64 - shift) (rw_bits0 w),
                rw_bits0 := push_bit shift (rw_bits0 w)\<rparr>)
      else if shift < 128 then
        Some (w\<lparr>rw_bits1 := push_bit (shift - 64) (rw_bits0 w), rw_bits0 := 0\<rparr>)
      else None)"

definition accept :: "replay_window \<Rightarrow> u64 \<Rightarrow> (replay_window \<times> bool) option" where
  "accept w sequence =
     (if \<not> would_accept w sequence then Some (w, False)
      else if sequence > rw_high w then
        (let shift = sequence - rw_high w
         in case (if shift \<ge> 128 then Some (w\<lparr>rw_bits0 := 0, rw_bits1 := 0\<rparr>)
                  else shift_left w (unat shift)) of
              None \<Rightarrow> None
            | Some w' \<Rightarrow> Some (w'\<lparr>rw_high := sequence, rw_bits0 := rw_bits0 w' OR 1\<rparr>, True))
      else
        (let offset = rw_high w - sequence; i = unat (offset div 64)
         in Some (bits_set w i (bits_get w i OR push_bit (unat (offset mod 64)) 1), True)))"

fun accept_all :: "replay_window \<Rightarrow> u64 list \<Rightarrow> (replay_window \<times> bool list) option" where
  "accept_all w [] = Some (w, [])"
| "accept_all w (s # ss) =
     (case accept w s of
        None \<Rightarrow> None
      | Some (w', b) \<Rightarrow> map_option (\<lambda>(v, bs). (v, b # bs)) (accept_all w' ss))"


section \<open>What a client relies on\<close>

locale replay_filter =
  fixes admit :: "'s \<Rightarrow> 'q \<Rightarrow> ('s \<times> bool) option"
    and sees :: "'s \<Rightarrow> 'q set \<Rightarrow> bool"
  assumes admit_total: "sees s S \<Longrightarrow> \<exists>s' b. admit s q = Some (s', b)"
    and admit_fresh: "sees s S \<Longrightarrow> admit s q = Some (s', True) \<Longrightarrow> q \<notin> S \<and> sees s' (insert q S)"
    and admit_reject: "sees s S \<Longrightarrow> admit s q = Some (s', False) \<Longrightarrow> s' = s"
begin

fun admit_all :: "'s \<Rightarrow> 'q list \<Rightarrow> ('s \<times> 'q list) option" where
  "admit_all s [] = Some (s, [])"
| "admit_all s (q # qs) =
     (case admit s q of
        None \<Rightarrow> None
      | Some (s', b) \<Rightarrow> map_option (\<lambda>(t, ds). (t, if b then q # ds else ds)) (admit_all s' qs))"

lemma admit_all_fresh:
  "sees s S \<Longrightarrow> \<exists>t ds. admit_all s qs = Some (t, ds) \<and> distinct ds \<and> set ds \<inter> S = {}
     \<and> set ds \<subseteq> set qs \<and> sees t (S \<union> set ds)"
proof (induction qs arbitrary: s S)
  case Nil
  then show ?case by simp
next
  case (Cons q qs)
  obtain s' b where a: "admit s q = Some (s', b)"
    using admit_total [OF Cons.prems] by blast
  show ?case
  proof (cases b)
    case True
    then have f: "q \<notin> S" "sees s' (insert q S)"
      using admit_fresh [OF Cons.prems] a by auto
    from Cons.IH [OF f(2)] obtain t ds where "admit_all s' qs = Some (t, ds)" "distinct ds"
      "set ds \<inter> insert q S = {}" "set ds \<subseteq> set qs" "sees t (insert q S \<union> set ds)"
      by blast
    with a True f show ?thesis by auto
  next
    case False
    then have "s' = s" using admit_reject [OF Cons.prems] a by simp
    with Cons.IH [OF Cons.prems] a False show ?thesis by fastforce
  qed
qed

end


section \<open>Reading the two words as a set of sequence numbers\<close>

definition bit_at :: "replay_window \<Rightarrow> nat \<Rightarrow> bool" where
  "bit_at w k \<longleftrightarrow> (if k < 64 then bit (rw_bits0 w) k else bit (rw_bits1 w) (k - 64))"

definition window_sees :: "replay_window \<Rightarrow> u64 set \<Rightarrow> bool" where
  "window_sees w S \<longleftrightarrow>
     (\<forall>q \<in> S. 0 < unat q \<and> unat q \<le> unat (rw_high w))
     \<and> (\<forall>k < 128. bit_at w k \<longleftrightarrow> k < unat (rw_high w) \<and> rw_high w - of_nat k \<in> S)"

lemma bit_test:
  assumes "k < 128"
  shows "(bits_get w (k div 64) AND push_bit (k mod 64) 1) = 0 \<longleftrightarrow> \<not> bit_at w k"
proof -
  have "k div 64 = (if k < 64 then 0 else 1)" and "64 \<le> k \<Longrightarrow> k mod 64 = k - 64"
    using assms by (auto simp: mod_if)
  then show ?thesis
    by (auto simp: bits_get_def bit_at_def push_bit_of_1 and_exp_eq_0_iff_not_bit)
qed

lemma bit_at_set:
  assumes "k < 128" and "j < 128"
  shows "bit_at (bits_set w (k div 64) (bits_get w (k div 64) OR push_bit (k mod 64) 1)) j
    \<longleftrightarrow> j = k \<or> bit_at w j"
proof -
  have "k div 64 = (if k < 64 then 0 else 1)" and "64 \<le> k \<Longrightarrow> k mod 64 = k - 64"
    using assms by (auto simp: mod_if)
  then show ?thesis
    using assms by (auto simp: bits_get_def bits_set_def bit_at_def bit_simps push_bit_of_1)
qed

lemma bit_at_shift_left:
  assumes "shift_left w n = Some w'" and "k < 128"
  shows "bit_at w' k \<longleftrightarrow> n \<le> k \<and> bit_at w (k - n)"
  using assms bit_imp_le_length [of "rw_bits0 w"]
  by (cases "n < 64"; cases "k < 64"; cases "k - n < 64")
    (auto simp: shift_left_def bit_at_def bit_simps add.commute [of n 64] split: if_splits)

lemma shift_left_high: "shift_left w n = Some w' \<Longrightarrow> rw_high w' = rw_high w"
  by (auto simp: shift_left_def split: if_splits)

lemma bit_at_mark: "bit_at (w\<lparr>rw_high := h, rw_bits0 := rw_bits0 w OR 1\<rparr>) k \<longleftrightarrow> k = 0 \<or> bit_at w k"
  by (auto simp: bit_at_def bit_simps)

lemma unat_sub_of_nat:
  fixes q :: u64
  assumes "j \<le> unat q"
  shows "unat (q - of_nat j) = unat q - j"
proof -
  have "j < 18446744073709551616"
    using assms unat_u64_less [of q] by linarith
  then have "unat (of_nat j :: u64) = j"
    by (simp add: unat_of_nat)
  with assms show ?thesis
    by (simp add: unat_sub word_le_nat_alt)
qed

lemma offset_nat:
  fixes q h :: u64
  assumes "q \<le> h"
  shows "unat (h - q) = unat h - unat q" and "h - of_nat (unat h - unat q) = q"
proof -
  show u: "unat (h - q) = unat h - unat q"
    using assms by (simp add: unat_sub)
  show "h - of_nat (unat h - unat q) = q"
    unfolding u [symmetric] by simp
qed

text \<open>The words decide membership: the window accepts exactly the unseen numbers in reach.\<close>

lemma would_accept_iff:
  assumes "window_sees w S"
  shows "would_accept w q \<longleftrightarrow>
    q \<noteq> 0 \<and> (rw_high w < q \<or> (unat (rw_high w) - unat q < 128 \<and> q \<notin> S))"
proof (cases "q = 0 \<or> rw_high w < q")
  case True
  then show ?thesis by (auto simp: would_accept_def)
next
  case False
  let ?h = "rw_high w" and ?k = "unat (rw_high w) - unat q"
  have q: "q \<le> ?h" "0 < unat q" "unat q \<le> unat ?h"
    using False by (auto simp: unat_gt_0 word_less_nat_alt word_le_nat_alt)
  note off = offset_nat [OF q(1)]
  have ge: "?h - q \<ge> 128 \<longleftrightarrow> ?k \<ge> 128"
    by (simp add: word_le_nat_alt off(1))
  have "bit_at w ?k \<longleftrightarrow> q \<in> S" if "?k < 128"
    using assms that q off(2) by (simp add: window_sees_def)
  then show ?thesis
    using False ge bit_test [of ?k w]
    by (auto simp: would_accept_def Let_def unat_div unat_mod off(1))
qed

lemma shift_left_total: "n < 128 \<Longrightarrow> \<exists>w'. shift_left w n = Some w'"
  by (simp add: shift_left_def)

lemma accept_behind:
  assumes inv: "window_sees w S" and acc: "would_accept w q" and le: "\<not> rw_high w < q"
  shows "\<exists>w'. accept w q = Some (w', True) \<and> window_sees w' (insert q S)"
proof -
  let ?h = "rw_high w" and ?k = "unat (rw_high w) - unat q"
  let ?w = "bits_set w (?k div 64) (bits_get w (?k div 64) OR push_bit (?k mod 64) 1)"
  from acc le inv have q: "q \<le> ?h" "0 < unat q" "unat q \<le> unat ?h" "?k < 128"
    by (auto simp: would_accept_iff unat_gt_0 word_less_nat_alt word_le_nat_alt)
  note off = offset_nat [OF q(1)]
  have eq: "accept w q = Some (?w, True)"
    using acc le by (simp add: accept_def Let_def unat_div unat_mod off(1))
  have high: "rw_high ?w = ?h"
    by (simp add: bits_set_def)
  have "window_sees ?w (insert q S)"
    unfolding window_sees_def high
  proof (intro conjI ballI allI impI)
    fix p assume "p \<in> insert q S"
    then show "0 < unat p" and "unat p \<le> unat ?h"
      using inv q by (auto simp: window_sees_def)
  next
    fix j :: nat assume j: "j < 128"
    have "?h - of_nat j = q \<longleftrightarrow> j = ?k" if "j < unat ?h"
      using that q unat_sub_of_nat [of j ?h] by (auto simp: word_unat_eq_iff)
    moreover have "?k < unat ?h" and "?h - of_nat ?k = q"
      using q off(2) by auto
    ultimately show "bit_at ?w j \<longleftrightarrow> j < unat ?h \<and> ?h - of_nat j \<in> insert q S"
      using bit_at_set [OF q(4) j, of w] inv j by (auto simp: window_sees_def)
  qed
  with eq show ?thesis by blast
qed

lemma advance_bits:
  fixes d :: u64
  assumes n: "unat d = n"
  shows "\<exists>v. (if d \<ge> 128 then Some (w\<lparr>rw_bits0 := 0, rw_bits1 := 0\<rparr>)
              else shift_left w (unat d)) = Some v
      \<and> (\<forall>j < 128. bit_at v j \<longleftrightarrow> n \<le> j \<and> bit_at w (j - n))"
proof (cases "n \<ge> 128")
  case True
  then show ?thesis using n by (simp add: word_le_nat_alt bit_at_def)
next
  case False
  then obtain v where "shift_left w n = Some v" using shift_left_total [of n w] by auto
  with False n show ?thesis
    by (auto simp: word_le_nat_alt bit_at_shift_left)
qed

lemma accept_ahead:
  assumes inv: "window_sees w S" and gt: "rw_high w < q"
  shows "\<exists>w'. accept w q = Some (w', True) \<and> window_sees w' (insert q S)"
proof -
  let ?h = "rw_high w" and ?n = "unat q - unat (rw_high w)"
  have hq: "unat ?h < unat q" using gt by (simp add: word_less_nat_alt)
  have n: "unat (q - ?h) = ?n" using gt by (simp add: unat_sub)
  have acc: "would_accept w q"
    using gt inv by (auto simp: would_accept_iff)
  obtain v where v: "(if q - ?h \<ge> 128 then Some (w\<lparr>rw_bits0 := 0, rw_bits1 := 0\<rparr>)
                else shift_left w (unat (q - ?h))) = Some v"
    and bits: "\<And>j. j < 128 \<Longrightarrow> bit_at v j \<longleftrightarrow> ?n \<le> j \<and> bit_at w (j - ?n)"
    using advance_bits [OF n, of w] by blast
  let ?w = "v\<lparr>rw_high := q, rw_bits0 := rw_bits0 v OR 1\<rparr>"
  have eq: "accept w q = Some (?w, True)"
    unfolding accept_def using acc gt v by (simp add: Let_def)
  have "window_sees ?w (insert q S)"
    unfolding window_sees_def
  proof (intro conjI ballI allI impI)
    fix p assume "p \<in> insert q S"
    then show "0 < unat p" and "unat p \<le> unat (rw_high ?w)"
      using inv hq by (auto simp: window_sees_def)
  next
    fix j :: nat assume j: "j < 128"
    show "bit_at ?w j \<longleftrightarrow> j < unat (rw_high ?w) \<and> rw_high ?w - of_nat j \<in> insert q S"
    proof (cases "?n \<le> j \<and> j < unat q")
      case True
      have "unat (q - of_nat j) = unat q - j"
        using True by (intro unat_sub_of_nat) simp
      moreover have "unat (?h - of_nat (j - ?n)) = unat ?h - (j - ?n)"
        using True hq by (intro unat_sub_of_nat) linarith
      moreover have "unat q - j = unat ?h - (j - ?n)"
        using True hq by linarith
      ultimately have "q - of_nat j = ?h - of_nat (j - ?n)"
        by (simp only: word_unat_eq_iff)
      moreover have "q - of_nat j \<noteq> q"
        using True hq unat_sub_of_nat [of j q] by (auto simp: word_unat_eq_iff)
      moreover have "j - ?n < unat ?h" using True hq by auto
      ultimately show ?thesis
        using True inv j hq by (auto simp: bit_at_mark bits window_sees_def)
    next
      case False
      have "q - of_nat j \<notin> S" if "j < unat q"
      proof -
        have "unat ?h < unat (q - of_nat j)"
          using False that hq unat_sub_of_nat [of j q] by auto
        then show ?thesis using inv by (fastforce simp: window_sees_def)
      qed
      moreover have "q - of_nat j = q \<longleftrightarrow> j = 0" if "j < unat q"
        using that unat_sub_of_nat [of j q] by (auto simp: word_unat_eq_iff)
      moreover have "\<not> bit_at v j"
        using False inv j hq by (auto simp: bits window_sees_def)
      ultimately show ?thesis
        using hq by (auto simp: bit_at_mark)
    qed
  qed
  with eq show ?thesis by blast
qed

lemma accept_fresh:
  assumes "window_sees w S" and "would_accept w q"
  shows "\<exists>w'. accept w q = Some (w', True) \<and> window_sees w' (insert q S)"
  using assms accept_behind accept_ahead by blast

lemma accept_stale: "\<not> would_accept w q \<Longrightarrow> accept w q = Some (w, False)"
  by (simp add: accept_def)

lemma would_accept_unseen:
  assumes "window_sees w S" and "would_accept w q"
  shows "q \<notin> S"
proof
  assume "q \<in> S"
  then have "\<not> rw_high w < q"
    using assms(1) by (auto simp: window_sees_def word_less_nat_alt not_less)
  with assms \<open>q \<in> S\<close> show False by (simp add: would_accept_iff)
qed

lemma window_sees_default: "window_sees replay_default {}"
  by (simp add: window_sees_def replay_default_def bit_at_def)

interpretation window: replay_filter accept window_sees
proof
  fix w S q w'
  assume inv: "window_sees w S"
  show "\<exists>w' b. accept w q = Some (w', b)"
    using accept_fresh [OF inv] accept_stale by (cases "would_accept w q") blast+
  show "q \<notin> S \<and> window_sees w' (insert q S)" if a: "accept w q = Some (w', True)"
  proof -
    have "would_accept w q" using a accept_stale [of w q] by (cases "would_accept w q") auto
    then show ?thesis
      using a accept_fresh [OF inv] would_accept_unseen [OF inv] by fastforce
  qed
  show "w' = w" if "accept w q = Some (w', False)"
    using that accept_fresh [OF inv, of q] accept_stale [of w q]
    by (cases "would_accept w q") auto
qed


section \<open>Equivalence with a reference filter\<close>

text \<open>
  The reference keeps every sequence number it ever admitted. It admits a number that is not zero,
  was never admitted and is less than 128 behind the highest one admitted.
\<close>

definition reference_admits :: "u64 \<Rightarrow> u64 set \<Rightarrow> u64 \<Rightarrow> bool" where
  "reference_admits h S q \<longleftrightarrow> q \<noteq> 0 \<and> q \<notin> S \<and> (h < q \<or> unat h - unat q < 128)"

fun reference_run :: "u64 \<Rightarrow> u64 set \<Rightarrow> u64 list \<Rightarrow> bool list" where
  "reference_run h S [] = []"
| "reference_run h S (q # qs) =
     (if reference_admits h S q then True # reference_run (max h q) (insert q S) qs
      else False # reference_run h S qs)"

lemma accept_high: "accept w q = Some (w', True) \<Longrightarrow> rw_high w' = max (rw_high w) q"
  by (auto simp: accept_def Let_def bits_set_def max_def split: if_splits option.splits
      dest!: shift_left_high)

lemma would_accept_reference:
  assumes "window_sees w S"
  shows "would_accept w q \<longleftrightarrow> reference_admits (rw_high w) S q"
  using would_accept_iff [OF assms] would_accept_unseen [OF assms]
  by (auto simp: reference_admits_def)

lemma accept_all_reference:
  "window_sees w S \<Longrightarrow> \<exists>w'. accept_all w qs = Some (w', reference_run (rw_high w) S qs)"
proof (induction qs arbitrary: w S)
  case Nil
  then show ?case by simp
next
  case (Cons q qs)
  note ref = would_accept_reference [OF Cons.prems, of q]
  show ?case
  proof (cases "would_accept w q")
    case True
    with accept_fresh [OF Cons.prems] obtain w' where
      w': "accept w q = Some (w', True)" "window_sees w' (insert q S)" by blast
    from Cons.IH [OF w'(2)] w'(1) True ref show ?thesis by (auto simp: accept_high)
  next
    case False
    with accept_stale Cons.IH [OF Cons.prems] ref show ?thesis by fastforce
  qed
qed

text \<open>
  Claim C3. For every sequence of received transport numbers, the two-word window never reaches its
  \<open>unreachable!\<close> arm and gives, number by number, the verdict of the reference filter that
  remembers every number ever admitted.
\<close>

theorem replay_window_refines_reference:
  "map_option snd (accept_all replay_default qs) = Some (reference_run 0 {} qs)"
  using accept_all_reference [OF window_sees_default, of qs] by (auto simp: replay_default_def)

lemma admit_all_accept_all:
  "window.admit_all w qs
    = map_option (\<lambda>(v, bs). (v, map fst (filter snd (zip qs bs)))) (accept_all w qs)"
  by (induction qs arbitrary: w) (auto simp: map_option_case split: option.splits)

text \<open>
  No transport number is admitted twice and zero is never admitted, whatever arrives and
  in whatever order: the numbers the window admits over a whole run are pairwise distinct.
\<close>

theorem replay_window_no_duplicates:
  "\<exists>w bs. accept_all replay_default qs = Some (w, bs)
     \<and> distinct (map fst (filter snd (zip qs bs))) \<and> 0 \<notin> set (map fst (filter snd (zip qs bs)))"
proof -
  obtain t ds where run: "window.admit_all replay_default qs = Some (t, ds)"
    and ds: "distinct ds" "window_sees t (set ds)"
    using window.admit_all_fresh [OF window_sees_default, of qs] by auto
  from run obtain bs where "accept_all replay_default qs = Some (t, bs)"
    "ds = map fst (filter snd (zip qs bs))"
    by (auto simp: admit_all_accept_all)
  moreover have "0 \<notin> set ds" using ds(2) by (auto simp: window_sees_def)
  ultimately show ?thesis using ds(1) by auto
qed

end
