(* ===== verification/VoiceSession.thy ===== *)
theory VoiceSession
  imports PacketCodec ReplayWindow
begin

text \<open>
  One UDP voice session of \<open>crates/zephyrvox-voice\<close>: \<open>lifecycle.rs\<close> (the status),
  \<open>worker.rs\<close> (the task that owns the socket) and \<open>session.rs\<close> (the handle).

  \<open>session_inner\<close> is \<open>SessionInner\<close>, the state the handles share; \<open>worker\<close> holds the local
  variables of \<open>run\<close>. What the operating system and the scheduler decide is an argument:
  the outcome of a socket write, the clock, and which branch of a \<open>select!\<close> completes. The
  fields \<open>si_media\<close> and \<open>wk_sent\<close> record, in order, the frames published on the broadcast channel
  and the datagrams handed to the socket. \<open>session_step\<close> interleaves the worker with any number
  of callers of the handle.
\<close>

section \<open>Status\<close>

datatype voice_status =
    Idle | Joining | Active | Disconnecting | Disconnected | StatusRevoked revocation_reason

fun status_is_terminal :: "voice_status \<Rightarrow> bool" where
  "status_is_terminal Disconnected = True"
| "status_is_terminal (StatusRevoked r) = True"
| "status_is_terminal _ = False"

fun status_is_active :: "voice_status \<Rightarrow> bool" where
  "status_is_active Active = True"
| "status_is_active _ = False"

datatype stop_request = Close | Disconnect | Revoke revocation_reason


section \<open>Shared and worker state\<close>

text \<open>
  The stop watch channel is its value and a version; a receiver that has seen an older version is
  ready. The command channel is a queue of at most \<open>MEDIA_QUEUE_CAPACITY\<close> sends.
\<close>

definition MEDIA_QUEUE_CAPACITY :: nat where
  "MEDIA_QUEUE_CAPACITY = 128"

definition HEARTBEAT_INTERVAL :: nat where
  "HEARTBEAT_INTERVAL = 15000"

record session_command =
  sc_stream_type :: stream_type_id
  sc_payload :: bytes

record session_inner =
  si_session_id :: voice_session_id
  si_endpoint :: voice_endpoint
  si_expires_at :: int
  si_encrypted :: bool
  si_max_payload :: nat
  si_status :: voice_status
  si_media_open :: bool
  si_media :: "inbound_media list"
  si_commands :: "session_command list"
  si_stop :: "stop_request option"
  si_stop_version :: nat
  si_key_cache :: "key_cache option"
  si_allowed_stream_types :: "u8 \<Rightarrow> bool"

record worker =
  wk_transport_sequence :: u64
  wk_channel_sequences :: "u8 \<rightharpoonup> u16"
  wk_replay :: replay_window
  wk_last_outbound :: nat
  wk_stop_seen :: nat
  wk_sent :: "bytes list"

text \<open>A write completes, fails, or is dropped while pending because the stop branch won.\<close>

datatype write_outcome = Written | WriteFailed string | WriteDropped


section \<open>Worker operations\<close>

definition publish_status :: "voice_status \<Rightarrow> session_inner \<Rightarrow> session_inner" where
  "publish_status status i = (if si_status i \<noteq> status then i\<lparr>si_status := status\<rparr> else i)"

definition close_media :: "session_inner \<Rightarrow> session_inner" where
  "close_media i = i\<lparr>si_media_open := False\<rparr>"

definition remove_cached_key :: "session_inner \<Rightarrow> session_inner" where
  "remove_cached_key i =
     (case si_key_cache i of
        Some cache \<Rightarrow> i\<lparr>si_key_cache := Some (cache_remove (si_session_id i) cache)\<rparr>
      | None \<Rightarrow> i)"

definition finish :: "voice_status \<Rightarrow> session_inner \<Rightarrow> session_inner" where
  "finish status i = publish_status status (close_media (remove_cached_key i))"

definition status_after_stop :: "bool \<Rightarrow> stop_request option \<Rightarrow> voice_status" where
  "status_after_stop changed_is_err stop =
     (if changed_is_err then Disconnected
      else (case stop of
              Some (Revoke reason) \<Rightarrow> StatusRevoked reason
            | Some Close \<Rightarrow> Disconnected
            | Some Disconnect \<Rightarrow> Disconnected
            | None \<Rightarrow> Disconnected))"

definition reserve_transport_sequence :: "u64 \<Rightarrow> u64 \<times> (u64, voice_error) result" where
  "reserve_transport_sequence sequence =
     (if sequence = - 1 then (sequence, Err SequenceExhausted)
      else (sequence + 1, Ok sequence))"

text \<open>The result \<open>None\<close> means that the future was dropped at the \<open>await\<close> of the write.\<close>

definition write_packet ::
  "write_outcome \<Rightarrow> bytes \<Rightarrow> worker \<Rightarrow> worker \<times> (unit, voice_error) result option" where
  "write_packet io packet w =
     (w\<lparr>wk_sent := wk_sent w @ [packet]\<rparr>,
      case io of
        Written \<Rightarrow> Some (Ok ())
      | WriteFailed e \<Rightarrow> Some (Err (VTransport e))
      | WriteDropped \<Rightarrow> None)"

definition send_media ::
  "'k aead \<Rightarrow> 'k packet_codec \<Rightarrow> write_outcome \<Rightarrow> nat \<Rightarrow> stream_type_id \<Rightarrow> bytes \<Rightarrow> worker
   \<Rightarrow> worker \<times> (unit, voice_error) result option" where
  "send_media A c io now st payload w =
     (case validate_media c st (length payload) of
        Err e \<Rightarrow> (w, Some (Err (VPacket e)))
      | Ok _ \<Rightarrow>
          let channel_sequence =
                (case wk_channel_sequences w (stream_type_get st) of Some q \<Rightarrow> q | None \<Rightarrow> 0);
              w1 = w\<lparr>wk_channel_sequences :=
                      (wk_channel_sequences w)(stream_type_get st \<mapsto> channel_sequence)\<rparr>
          in case reserve_transport_sequence (wk_transport_sequence w1) of
               (ts, Err e) \<Rightarrow> (w1\<lparr>wk_transport_sequence := ts\<rparr>, Some (Err e))
             | (ts, Ok sequence) \<Rightarrow>
                 let w2 = w1\<lparr>wk_transport_sequence := ts\<rparr>
                 in case encode_media A c sequence channel_sequence st payload of
                      Err e \<Rightarrow> (w2, Some (Err (VPacket e)))
                    | Ok packet \<Rightarrow>
                        (case write_packet io packet w2 of
                           (w3, Some (Ok u)) \<Rightarrow>
                             (w3\<lparr>wk_channel_sequences := (wk_channel_sequences w3)
                                    (stream_type_get st \<mapsto> channel_sequence + 1),
                                 wk_last_outbound := now\<rparr>, Some (Ok u))
                         | (w3, r) \<Rightarrow> (w3, r)))"

definition send_heartbeat ::
  "'k aead \<Rightarrow> 'k packet_codec \<Rightarrow> write_outcome \<Rightarrow> nat \<Rightarrow> worker
   \<Rightarrow> worker \<times> (unit, voice_error) result option" where
  "send_heartbeat A c io now w =
     (case reserve_transport_sequence (wk_transport_sequence w) of
        (ts, Err e) \<Rightarrow> (w\<lparr>wk_transport_sequence := ts\<rparr>, Some (Err e))
      | (ts, Ok sequence) \<Rightarrow>
          let w1 = w\<lparr>wk_transport_sequence := ts\<rparr>
          in case encode_heartbeat A c sequence of
               Err e \<Rightarrow> (w1, Some (Err (VPacket e)))
             | Ok packet \<Rightarrow>
                 (case write_packet io packet w1 of
                    (w2, Some (Ok u)) \<Rightarrow> (w2\<lparr>wk_last_outbound := now\<rparr>, Some (Ok u))
                  | (w2, r) \<Rightarrow> (w2, r)))"

text \<open>
  The two-way \<open>select!\<close> around a write is \<open>biased\<close>: a stop that is already visible wins before the
  write is polled (\<open>StopFirst\<close>); otherwise the write is polled with some outcome. The result of a
  handler carries whether the worker goes on.
\<close>

datatype write_race = StopFirst | WritePolled write_outcome

definition stop_ready :: "session_inner \<Rightarrow> worker \<Rightarrow> bool" where
  "stop_ready i w \<longleftrightarrow> wk_stop_seen w \<noteq> si_stop_version i"

definition observe_stop :: "session_inner \<Rightarrow> worker \<Rightarrow> worker" where
  "observe_stop i w = w\<lparr>wk_stop_seen := si_stop_version i\<rparr>"

definition is_terminal_result :: "(unit, voice_error) result \<Rightarrow> bool" where
  "is_terminal_result r =
     (case r of
        Err (VTransport e) \<Rightarrow> True
      | Err SequenceExhausted \<Rightarrow> True
      | _ \<Rightarrow> False)"

definition handle_command ::
  "'k aead \<Rightarrow> 'k packet_codec \<Rightarrow> write_race \<Rightarrow> nat \<Rightarrow> session_command \<Rightarrow> session_inner \<times> worker
   \<Rightarrow> (session_inner \<times> worker) \<times> bool" where
  "handle_command A c race now cmd iw =
     (case iw of (i, w) \<Rightarrow>
       case race of
         StopFirst \<Rightarrow> ((finish (status_after_stop False (si_stop i)) i, observe_stop i w), False)
       | WritePolled io \<Rightarrow>
           (case send_media A c io now (sc_stream_type cmd) (sc_payload cmd) w of
              (w', None) \<Rightarrow>
                ((finish (status_after_stop False (si_stop i)) i, observe_stop i w'), False)
            | (w', Some r) \<Rightarrow>
                if is_terminal_result r then ((finish Disconnected i, w'), False)
                else ((i, w'), True)))"

definition handle_tick ::
  "'k aead \<Rightarrow> 'k packet_codec \<Rightarrow> write_race \<Rightarrow> nat \<Rightarrow> session_inner \<times> worker
   \<Rightarrow> (session_inner \<times> worker) \<times> bool" where
  "handle_tick A c race now iw =
     (case iw of (i, w) \<Rightarrow>
       if now - wk_last_outbound w \<ge> HEARTBEAT_INTERVAL then
         (case race of
            StopFirst \<Rightarrow> ((finish (status_after_stop False (si_stop i)) i, observe_stop i w), False)
          | WritePolled io \<Rightarrow>
              (case send_heartbeat A c io now w of
                 (w', None) \<Rightarrow>
                   ((finish (status_after_stop False (si_stop i)) i, observe_stop i w'), False)
               | (w', Some (Err e)) \<Rightarrow> ((finish Disconnected i, w'), False)
               | (w', Some (Ok u)) \<Rightarrow> ((i, w'), True)))
       else ((i, w), True))"

text \<open>
  \<open>accept\<close> gives \<open>None\<close> where the source has \<open>unreachable!\<close>: the task would unwind without
  \<open>finish\<close>.
\<close>

definition handle_inbound ::
  "'k aead \<Rightarrow> 'k packet_codec \<Rightarrow> bytes \<Rightarrow> session_inner \<times> worker
   \<Rightarrow> (session_inner \<times> worker) \<times> bool" where
  "handle_inbound A c datagram iw =
     (case iw of (i, w) \<Rightarrow>
       case decode_server A c datagram of
         Err e \<Rightarrow> ((i, w), True)
       | Ok packet \<Rightarrow>
           (case accept (wk_replay w) (dp_transport_seq packet) of
              None \<Rightarrow> ((i, w), False)
            | Some (rp, fresh) \<Rightarrow>
                let w' = w\<lparr>wk_replay := rp\<rparr>
                in if \<not> fresh then ((i, w'), True)
                   else (case dp_control packet of
                           Some Heartbeat \<Rightarrow> ((i, w'), True)
                         | Some (Revocation reason) \<Rightarrow> ((finish (StatusRevoked reason) i, w'), False)
                         | None \<Rightarrow>
                             (case dp_speaker_id packet of
                                None \<Rightarrow> ((i, w'), True)
                              | Some speaker \<Rightarrow>
                                  ((if si_media_open i
                                    then i\<lparr>si_media := si_media i @
                                           [\<lparr>im_speaker_id = speaker,
                                             im_stream_type = dp_stream_type packet,
                                             im_channel_seq = dp_channel_seq packet,
                                             im_transport_seq = dp_transport_seq packet,
                                             im_payload = dp_payload packet\<rparr>]\<rparr>
                                    else i, w'), True)))))"

text \<open>The stop branch of the main loop; a wake-up without a value leaves the loop running.\<close>

definition handle_stop :: "session_inner \<times> worker \<Rightarrow> (session_inner \<times> worker) \<times> bool" where
  "handle_stop iw =
     (case iw of (i, w) \<Rightarrow>
       let w' = observe_stop i w
       in case si_stop i of
            None \<Rightarrow> ((i, w'), True)
          | Some (Revoke reason) \<Rightarrow> ((finish (StatusRevoked reason) i, w'), False)
          | Some Close \<Rightarrow> ((finish Disconnected i, w'), False)
          | Some Disconnect \<Rightarrow> ((finish Disconnected i, w'), False))"


section \<open>The session handle\<close>

text \<open>
  \<open>request_termination\<close> runs in three steps of its caller: check the status, publish
  \<open>Disconnecting\<close> (close and disconnect only), send the stop request. \<open>se_callers\<close> holds the
  callers between these steps.
\<close>

datatype caller_pc = AtPublish | AtSend

record session =
  se_inner :: session_inner
  se_worker :: worker
  se_running :: bool
  se_callers :: "(stop_request \<times> caller_pc) list"

definition initial_worker :: "nat \<Rightarrow> worker" where
  "initial_worker now =
     \<lparr>wk_transport_sequence = 1, wk_channel_sequences = Map.empty, wk_replay = replay_default,
      wk_last_outbound = now, wk_stop_seen = 0, wk_sent = []\<rparr>"

definition initial_inner ::
  "voice_session_config \<Rightarrow> key_cache option \<Rightarrow> (u8 \<Rightarrow> bool) \<Rightarrow> session_inner" where
  "initial_inner cfg cache allowed =
     \<lparr>si_session_id = vc_session_id cfg, si_endpoint = vc_endpoint cfg,
      si_expires_at = vc_expires_at cfg, si_encrypted = vc_encrypted cfg,
      si_max_payload = vc_max_payload cfg, si_status = Joining, si_media_open = True,
      si_media = [], si_commands = [], si_stop = None, si_stop_version = 0,
      si_key_cache = cache, si_allowed_stream_types = allowed\<rparr>"

text \<open>
  \<open>start\<close> up to the first heartbeat of \<open>run\<close>. The first component is the key cache afterwards.
  A write dropped here means that the task went away before it reported.
\<close>

definition session_start ::
  "'k aead \<Rightarrow> voice_session_config \<Rightarrow> key_cache option \<Rightarrow> write_outcome \<Rightarrow> nat
   \<Rightarrow> key_cache option \<times> ('k packet_codec \<times> session, voice_error) result" where
  "session_start A cfg cache io now =
     (case codec_from_config A cfg cache of
        (cache', Err e) \<Rightarrow> (cache', Err e)
      | (cache', Ok c) \<Rightarrow>
          let i = initial_inner cfg cache' (pc_allowed_stream_types c)
          in case send_heartbeat A c io now (initial_worker now) of
               (w, None) \<Rightarrow> (cache', Err VClosed)
             | (w, Some (Err e)) \<Rightarrow> (si_key_cache (finish Disconnected i), Err e)
             | (w, Some (Ok u)) \<Rightarrow>
                 (cache', Ok (c, \<lparr>se_inner = publish_status Active i, se_worker = w,
                                  se_running = True, se_callers = []\<rparr>)))"

text \<open>
  \<open>VoiceSession::send\<close> up to its \<open>try_send\<close>; the receiver of the command channel lives as long as
  the worker.
\<close>

definition session_send ::
  "stream_type_id \<Rightarrow> bytes \<Rightarrow> session \<Rightarrow> session \<times> (unit, voice_error) result" where
  "session_send st payload s =
     (let i = se_inner s
      in case si_status i of
           StatusRevoked reason \<Rightarrow> (s, Err (VRevoked reason))
         | Disconnected \<Rightarrow> (s, Err VClosed)
         | Idle \<Rightarrow> (s, Err NotActive)
         | Joining \<Rightarrow> (s, Err NotActive)
         | Disconnecting \<Rightarrow> (s, Err NotActive)
         | Active \<Rightarrow>
             (case validate_media_values (si_allowed_stream_types i) (si_max_payload i) st
                     (length payload) of
                Err e \<Rightarrow> (s, Err (VPacket e))
              | Ok _ \<Rightarrow>
                  if \<not> se_running s then (s, Err VClosed)
                  else if length (si_commands i) \<ge> MEDIA_QUEUE_CAPACITY then (s, Err QueueFull)
                  else (s\<lparr>se_inner := i\<lparr>si_commands := si_commands i @
                             [\<lparr>sc_stream_type = st, sc_payload = payload\<rparr>]\<rparr>\<rparr>, Ok ())))"

definition send_frame :: "outbound_media \<Rightarrow> session \<Rightarrow> session \<times> (unit, voice_error) result" where
  "send_frame frame s = session_send (om_stream_type frame) (om_payload frame) s"

definition termination_check :: "stop_request \<Rightarrow> session \<Rightarrow> session" where
  "termination_check t s =
     (if status_is_terminal (si_status (se_inner s)) then s
      else s\<lparr>se_callers := se_callers s @ [(t, AtPublish)]\<rparr>)"

definition termination_publish :: "nat \<Rightarrow> session \<Rightarrow> session" where
  "termination_publish k s =
     (case se_callers s ! k of
        (t, pc) \<Rightarrow>
          s\<lparr>se_inner := (if t = Close \<or> t = Disconnect
                         then publish_status Disconnecting (se_inner s) else se_inner s),
            se_callers := (se_callers s)[k := (t, AtSend)]\<rparr>)"

text \<open>\<open>watch::Sender::send\<close> fails when the worker has dropped the receiver.\<close>

definition termination_send :: "nat \<Rightarrow> session \<Rightarrow> session \<times> (unit, voice_error) result" where
  "termination_send k s =
     (case se_callers s ! k of
        (t, pc) \<Rightarrow>
          let s' = s\<lparr>se_callers := take k (se_callers s) @ drop (Suc k) (se_callers s)\<rparr>
          in if se_running s
             then (s'\<lparr>se_inner := (se_inner s)\<lparr>si_stop := Some t,
                         si_stop_version := Suc (si_stop_version (se_inner s))\<rparr>\<rparr>, Ok ())
             else (s', Err VClosed))"


section \<open>Interleaving\<close>

definition run_handler ::
  "(session_inner \<times> worker \<Rightarrow> (session_inner \<times> worker) \<times> bool) \<Rightarrow> session \<Rightarrow> session" where
  "run_handler h s =
     (case h (se_inner s, se_worker s) of
        ((i, w), go) \<Rightarrow> s\<lparr>se_inner := i, se_worker := w, se_running := go\<rparr>)"

definition pop_command :: "session \<Rightarrow> session" where
  "pop_command s = s\<lparr>se_inner := (se_inner s)\<lparr>si_commands := tl (si_commands (se_inner s))\<rparr>\<rparr>"

fun race_allowed :: "bool \<Rightarrow> write_race \<Rightarrow> bool" where
  "race_allowed ready StopFirst = ready"
| "race_allowed ready (WritePolled WriteDropped) = ready"
| "race_allowed ready (WritePolled io) = (\<not> ready)"

text \<open>
  The branches of the worker's \<open>select!\<close> and the calls on the handle. The worker holds the shared
  state, and with it the senders of its own channels, so \<open>recv\<close> and \<open>changed\<close> never report a
  closed channel.
\<close>

inductive session_step :: "'k aead \<Rightarrow> 'k packet_codec \<Rightarrow> session \<Rightarrow> session \<Rightarrow> bool" for A c where
  worker_stop: "se_running s \<Longrightarrow> stop_ready (se_inner s) (se_worker s) \<Longrightarrow>
    session_step A c s (run_handler handle_stop s)"
| worker_command: "se_running s \<Longrightarrow> si_commands (se_inner s) = cmd # rest \<Longrightarrow>
    race_allowed (stop_ready (se_inner s) (se_worker s)) race \<Longrightarrow>
    session_step A c s (run_handler (handle_command A c race now cmd) (pop_command s))"
| worker_inbound: "se_running s \<Longrightarrow> session_step A c s (run_handler (handle_inbound A c datagram) s)"
| worker_receive_error: "se_running s \<Longrightarrow>
    session_step A c s (run_handler (\<lambda>(i, w). ((finish Disconnected i, w), False)) s)"
| worker_tick: "se_running s \<Longrightarrow> race_allowed (stop_ready (se_inner s) (se_worker s)) race \<Longrightarrow>
    session_step A c s (run_handler (handle_tick A c race now) s)"
| host_send: "session_step A c s (fst (session_send st payload s))"
| host_stop_check: "session_step A c s (termination_check t s)"
| host_stop_publish: "k < length (se_callers s) \<Longrightarrow> snd (se_callers s ! k) = AtPublish \<Longrightarrow>
    session_step A c s (termination_publish k s)"
| host_stop_send: "k < length (se_callers s) \<Longrightarrow> snd (se_callers s ! k) = AtSend \<Longrightarrow>
    session_step A c s (fst (termination_send k s))"

inductive session_reach :: "'k aead \<Rightarrow> 'k packet_codec \<Rightarrow> session \<Rightarrow> bool" for A c where
  started: "session_start A cfg cache io now = (cache', Ok (c, s)) \<Longrightarrow> session_reach A c s"
| stepped: "session_reach A c s \<Longrightarrow> session_step A c s s' \<Longrightarrow> session_reach A c s'"


section \<open>Outbound invariant\<close>

definition datagram_sequence :: "bytes \<Rightarrow> u64" where
  "datagram_sequence d = from_be_bytes (slice d 22 30)"

definition outbound_inv :: "worker \<Rightarrow> bool" where
  "outbound_inv w \<longleftrightarrow>
     0 < unat (wk_transport_sequence w)
     \<and> sorted_wrt (<) (map (\<lambda>d. unat (datagram_sequence d)) (wk_sent w))
     \<and> (\<forall>d \<in> set (wk_sent w). 0 < unat (datagram_sequence d)
          \<and> unat (datagram_sequence d) < unat (wk_transport_sequence w))"

lemma reserve_Ok:
  assumes "reserve_transport_sequence ts = (ts', Ok q)"
  shows "q = ts \<and> unat ts' = Suc (unat ts)"
proof -
  have "ts \<noteq> - 1" and q: "q = ts" "ts' = ts + 1"
    using assms by (auto simp: reserve_transport_sequence_def split: if_splits)
  then have "1 + ts \<noteq> 0" by (metis add.commute add_eq_0_iff)
  then show ?thesis using q by (simp add: unatSuc add.commute)
qed

lemma reserve_Err: "reserve_transport_sequence ts = (ts', Err e) \<Longrightarrow> ts' = ts"
  by (auto simp: reserve_transport_sequence_def split: if_splits)

lemma encode_body_sequence:
  assumes "encode_body A c seq st ch sp payload dir = Ok d" and "fixed_id_wf (pc_session_id c)"
  shows "datagram_sequence d = seq"
  using assms
  by (auto simp: encode_body_def Let_def res_simps datagram_sequence_def outer_header_fields
      split: if_splits)

lemma encode_sequence:
  assumes "fixed_id_wf (pc_session_id c)"
  shows "encode_media A c seq ch st payload = Ok d \<Longrightarrow> datagram_sequence d = seq"
    and "encode_heartbeat A c seq = Ok d \<Longrightarrow> datagram_sequence d = seq"
  using assms by (auto simp: encode_media_def encode_heartbeat_def res_simps encode_body_sequence)

lemma outbound_inv_initial [simp]: "outbound_inv (initial_worker now)"
  by (simp add: outbound_inv_def initial_worker_def)

lemma outbound_inv_extend:
  assumes "outbound_inv w" and "reserve_transport_sequence (wk_transport_sequence w) = (ts, Ok q)"
    and "datagram_sequence d = q"
    and "wk_transport_sequence w' = ts" and "wk_sent w' = wk_sent w @ [d]"
  shows "outbound_inv w'"
  using assms reserve_Ok [OF assms(2)]
  by (auto simp: outbound_inv_def sorted_wrt_append less_SucI)

lemma outbound_inv_skip:
  assumes "outbound_inv w" and "reserve_transport_sequence (wk_transport_sequence w) = (ts, Ok q)"
    and "wk_transport_sequence w' = ts" and "wk_sent w' = wk_sent w"
  shows "outbound_inv w'"
  using assms reserve_Ok [OF assms(2)] by (auto simp: outbound_inv_def less_SucI)

lemma send_media_outbound:
  assumes "send_media A c io now st payload w = (w', r)"
    and "outbound_inv w" and "fixed_id_wf (pc_session_id c)"
  shows "outbound_inv w'"
proof (cases "validate_media c st (length payload)")
  case (Err e)
  with assms show ?thesis by (simp add: send_media_def)
next
  case (Ok u)
  obtain ts q where r: "reserve_transport_sequence (wk_transport_sequence w) = (ts, q)" by fastforce
  show ?thesis
  proof (cases q)
    case (Err e)
    with Ok r assms(1,2) reserve_Err [of "wk_transport_sequence w"] show ?thesis
      by (auto simp: send_media_def Let_def outbound_inv_def)
  next
    case [simp]: (Ok sequence)
    let ?ch = "case wk_channel_sequences w (stream_type_get st) of Some q \<Rightarrow> q | None \<Rightarrow> 0"
    note r = r [unfolded Ok]
    show ?thesis
    proof (cases "encode_media A c sequence ?ch st payload")
      case (Err e)
      with \<open>validate_media c st (length payload) = result.Ok u\<close> r assms(1,2) show ?thesis
        by (auto simp: send_media_def Let_def intro: outbound_inv_skip)
    next
      case (Ok packet)
      note enc = encode_sequence(1) [OF assms(3) Ok]
      from Ok \<open>validate_media c st (length payload) = result.Ok u\<close> r assms(1,2) show ?thesis
        by (auto simp: send_media_def Let_def write_packet_def
            intro!: outbound_inv_extend [OF assms(2) r enc] split: write_outcome.splits)
    qed
  qed
qed

lemma send_heartbeat_outbound:
  assumes "send_heartbeat A c io now w = (w', r)"
    and "outbound_inv w" and "fixed_id_wf (pc_session_id c)"
  shows "outbound_inv w'"
proof -
  obtain ts q where r: "reserve_transport_sequence (wk_transport_sequence w) = (ts, q)" by fastforce
  show ?thesis
  proof (cases q)
    case (Err e)
    with r assms(1,2) reserve_Err [of "wk_transport_sequence w"] show ?thesis
      by (auto simp: send_heartbeat_def outbound_inv_def)
  next
    case q: (Ok sequence)
    note r = r [unfolded q]
    show ?thesis
    proof (cases "encode_heartbeat A c sequence")
      case (Err e)
      with r assms(1,2) show ?thesis
        by (auto simp: send_heartbeat_def intro: outbound_inv_skip)
    next
      case (Ok packet)
      note enc = encode_sequence(2) [OF assms(3) Ok]
      from Ok r assms(1,2) show ?thesis
        by (auto simp: send_heartbeat_def write_packet_def
            intro!: outbound_inv_extend [OF assms(2) r enc] split: write_outcome.splits)
    qed
  qed
qed

text \<open>Writing touches neither the replay window nor the stop cursor.\<close>

lemma send_media_frame:
  "send_media A c io now st payload w = (w', r) \<Longrightarrow>
   wk_replay w' = wk_replay w \<and> wk_stop_seen w' = wk_stop_seen w"
  by (auto simp: send_media_def write_packet_def Let_def
      split: result.splits prod.splits write_outcome.splits)

lemma send_heartbeat_frame:
  "send_heartbeat A c io now w = (w', r) \<Longrightarrow>
   wk_replay w' = wk_replay w \<and> wk_stop_seen w' = wk_stop_seen w"
  by (auto simp: send_heartbeat_def write_packet_def Let_def
      split: result.splits prod.splits write_outcome.splits)


section \<open>What every worker branch keeps\<close>

definition inbound_inv :: "session_inner \<Rightarrow> worker \<Rightarrow> bool" where
  "inbound_inv i w \<longleftrightarrow>
     distinct (map im_transport_seq (si_media i))
     \<and> (\<exists>S. window_sees (wk_replay w) S \<and> im_transport_seq ` set (si_media i) \<subseteq> S)"

text \<open>What \<open>finish\<close> leaves behind: no media sender and no cached key.\<close>

definition released :: "session_inner \<Rightarrow> bool" where
  "released i \<longleftrightarrow>
     \<not> si_media_open i
     \<and> (\<forall>cache. si_key_cache i = Some cache \<longrightarrow> cache_get cache (si_session_id i) = None)"

lemma finish_simps [simp]:
  "si_status (finish st i) = st" "si_media (finish st i) = si_media i"
  "si_commands (finish st i) = si_commands i" "si_session_id (finish st i) = si_session_id i"
  "si_stop (finish st i) = si_stop i" "si_stop_version (finish st i) = si_stop_version i"
  by (simp_all add: finish_def publish_status_def close_media_def remove_cached_key_def
      split: option.splits)

lemma finish_released [simp]: "released (finish st i)"
  by (auto simp: released_def finish_def publish_status_def close_media_def remove_cached_key_def
      keys.lookup_del split: option.splits)

lemma observe_stop_simps [simp]:
  "wk_replay (observe_stop i w) = wk_replay w" "wk_sent (observe_stop i w) = wk_sent w"
  "wk_transport_sequence (observe_stop i w) = wk_transport_sequence w"
  "wk_stop_seen (observe_stop i w) = si_stop_version i"
  "outbound_inv (observe_stop i w) = outbound_inv w"
  by (simp_all add: observe_stop_def outbound_inv_def)

lemma status_after_stop_terminal [simp]: "status_is_terminal (status_after_stop b t)"
  by (simp add: status_after_stop_def split: option.splits stop_request.splits)

lemma inbound_inv_finish [simp]: "inbound_inv (finish st i) w = inbound_inv i w"
  by (simp add: inbound_inv_def)

text \<open>The contract every branch of the loop satisfies.\<close>

locale worker_branch =
  fixes c :: "'k packet_codec"
    and h :: "session_inner \<times> worker \<Rightarrow> (session_inner \<times> worker) \<times> bool"
  assumes keeps_outbound: "h (i, w) = ((i', w'), go) \<Longrightarrow> fixed_id_wf (pc_session_id c) \<Longrightarrow>
      outbound_inv w \<Longrightarrow> outbound_inv w'"
    and keeps_inbound: "h (i, w) = ((i', w'), go) \<Longrightarrow> inbound_inv i w \<Longrightarrow> inbound_inv i' w'"
    and keeps_frame: "h (i, w) = ((i', w'), go) \<Longrightarrow>
      si_commands i' = si_commands i \<and> si_session_id i' = si_session_id i
      \<and> si_stop i' = si_stop i \<and> si_stop_version i' = si_stop_version i
      \<and> wk_stop_seen w' \<in> {wk_stop_seen w, si_stop_version i}"
    and goes_on: "h (i, w) = ((i', w'), True) \<Longrightarrow> si_status i' = si_status i"
    and ends_released: "h (i, w) = ((i', w'), False) \<Longrightarrow> inbound_inv i w \<Longrightarrow>
      released i' \<and> status_is_terminal (si_status i')"

interpretation stop: worker_branch c handle_stop for c
  by unfold_locales
    (auto simp: handle_stop_def Let_def inbound_inv_def
      split: option.splits stop_request.splits)

interpretation receive_error: worker_branch c "\<lambda>(i, w). ((finish Disconnected i, w), False)" for c
  by unfold_locales (auto simp: inbound_inv_def)

interpretation command: worker_branch c "handle_command A c race now cmd" for A c race now cmd
proof
  fix i w i' w' go
  assume h: "handle_command A c race now cmd (i, w) = ((i', w'), go)"
  show "outbound_inv w'" if "fixed_id_wf (pc_session_id c)" "outbound_inv w"
    using h that send_media_outbound
    by (fastforce simp: handle_command_def
        split: write_race.splits prod.splits option.splits if_splits)
  show "inbound_inv i' w'" if "inbound_inv i w"
    using h that send_media_frame
    by (fastforce simp: handle_command_def inbound_inv_def
        split: write_race.splits prod.splits option.splits if_splits)
  show "si_commands i' = si_commands i \<and> si_session_id i' = si_session_id i
      \<and> si_stop i' = si_stop i \<and> si_stop_version i' = si_stop_version i
      \<and> wk_stop_seen w' \<in> {wk_stop_seen w, si_stop_version i}"
    using h send_media_frame
    by (fastforce simp: handle_command_def
        split: write_race.splits prod.splits option.splits if_splits)
next
  show "handle_command A c race now cmd (i, w) = ((i', w'), True) \<Longrightarrow> si_status i' = si_status i"
    for i w i' w'
    by (auto simp: handle_command_def
        split: write_race.splits prod.splits option.splits if_splits)
  show "handle_command A c race now cmd (i, w) = ((i', w'), False) \<Longrightarrow> inbound_inv i w \<Longrightarrow>
      released i' \<and> status_is_terminal (si_status i')" for i w i' w'
    by (auto simp: handle_command_def
        split: write_race.splits prod.splits option.splits if_splits)
qed

interpretation tick: worker_branch c "handle_tick A c race now" for A c race now
proof
  fix i w i' w' go
  assume h: "handle_tick A c race now (i, w) = ((i', w'), go)"
  show "outbound_inv w'" if "fixed_id_wf (pc_session_id c)" "outbound_inv w"
    using h that send_heartbeat_outbound
    by (fastforce simp: handle_tick_def
        split: write_race.splits prod.splits option.splits if_splits result.splits)
  show "inbound_inv i' w'" if "inbound_inv i w"
    using h that send_heartbeat_frame
    by (fastforce simp: handle_tick_def inbound_inv_def
        split: write_race.splits prod.splits option.splits if_splits result.splits)
  show "si_commands i' = si_commands i \<and> si_session_id i' = si_session_id i
      \<and> si_stop i' = si_stop i \<and> si_stop_version i' = si_stop_version i
      \<and> wk_stop_seen w' \<in> {wk_stop_seen w, si_stop_version i}"
    using h send_heartbeat_frame
    by (fastforce simp: handle_tick_def
        split: write_race.splits prod.splits option.splits if_splits result.splits)
next
  show "handle_tick A c race now (i, w) = ((i', w'), True) \<Longrightarrow> si_status i' = si_status i"
    for i w i' w'
    by (auto simp: handle_tick_def
        split: write_race.splits prod.splits option.splits if_splits result.splits)
  show "handle_tick A c race now (i, w) = ((i', w'), False) \<Longrightarrow> inbound_inv i w \<Longrightarrow>
      released i' \<and> status_is_terminal (si_status i')" for i w i' w'
    by (auto simp: handle_tick_def
        split: write_race.splits prod.splits option.splits if_splits result.splits)
qed

lemma inbound_inv_accept:
  assumes "inbound_inv i w" and "accept (wk_replay w) q = Some (rp, fresh)"
  shows "inbound_inv i (w\<lparr>wk_replay := rp\<rparr>)"
    and "fresh \<Longrightarrow> im_transport_seq m = q \<Longrightarrow>
      inbound_inv (i\<lparr>si_media := si_media i @ [m]\<rparr>) (w\<lparr>wk_replay := rp\<rparr>)"
proof -
  obtain S where S: "window_sees (wk_replay w) S" "im_transport_seq ` set (si_media i) \<subseteq> S"
    using assms(1) by (auto simp: inbound_inv_def)
  show "inbound_inv i (w\<lparr>wk_replay := rp\<rparr>)"
  proof (cases fresh)
    case True
    then have "window_sees rp (insert q S)" using window.admit_fresh [OF S(1)] assms(2) by simp
    with assms(1) S(2) show ?thesis by (auto simp: inbound_inv_def)
  next
    case False
    then have "rp = wk_replay w" using window.admit_reject [OF S(1)] assms(2) by simp
    with assms(1) show ?thesis by (auto simp: inbound_inv_def)
  qed
  show "inbound_inv (i\<lparr>si_media := si_media i @ [m]\<rparr>) (w\<lparr>wk_replay := rp\<rparr>)"
    if "fresh" "im_transport_seq m = q"
  proof -
    have "q \<notin> S" "window_sees rp (insert q S)"
      using window.admit_fresh [OF S(1)] assms(2) that(1) by simp_all
    with assms(1) S(2) that(2) show ?thesis by (auto simp: inbound_inv_def)
  qed
qed

lemma accept_total: "inbound_inv i w \<Longrightarrow> accept (wk_replay w) q \<noteq> None"
  using window.admit_total by (fastforce simp: inbound_inv_def)

interpretation inbound: worker_branch c "handle_inbound A c datagram" for A c datagram
proof
  fix i w i' w' go
  assume h: "handle_inbound A c datagram (i, w) = ((i', w'), go)"
  show "outbound_inv w'" if "outbound_inv w"
    using h that
    by (auto simp: handle_inbound_def Let_def outbound_inv_def
        split: result.splits option.splits prod.splits if_splits packet_control.splits)
  show "inbound_inv i' w'" if "inbound_inv i w"
    using h that inbound_inv_accept [OF that]
    by (auto simp: handle_inbound_def Let_def
        split: result.splits option.splits prod.splits if_splits packet_control.splits)
  show "si_commands i' = si_commands i \<and> si_session_id i' = si_session_id i
      \<and> si_stop i' = si_stop i \<and> si_stop_version i' = si_stop_version i
      \<and> wk_stop_seen w' \<in> {wk_stop_seen w, si_stop_version i}"
    using h
    by (auto simp: handle_inbound_def Let_def
        split: result.splits option.splits prod.splits if_splits packet_control.splits)
next
  show "handle_inbound A c datagram (i, w) = ((i', w'), True) \<Longrightarrow> si_status i' = si_status i"
    for i w i' w'
    by (auto simp: handle_inbound_def Let_def
        split: result.splits option.splits prod.splits if_splits packet_control.splits)
  show "handle_inbound A c datagram (i, w) = ((i', w'), False) \<Longrightarrow> inbound_inv i w \<Longrightarrow>
      released i' \<and> status_is_terminal (si_status i')" for i w i' w'
    by (auto simp: handle_inbound_def Let_def accept_total
        split: result.splits option.splits prod.splits if_splits packet_control.splits)
qed


section \<open>The session invariant\<close>

definition session_inv :: "session \<Rightarrow> bool" where
  "session_inv s \<longleftrightarrow>
     outbound_inv (se_worker s)
     \<and> inbound_inv (se_inner s) (se_worker s)
     \<and> length (si_commands (se_inner s)) \<le> MEDIA_QUEUE_CAPACITY
     \<and> wk_stop_seen (se_worker s) \<le> si_stop_version (se_inner s)
     \<and> (si_stop (se_inner s) = None \<longrightarrow>
          si_stop_version (se_inner s) = 0 \<and> wk_stop_seen (se_worker s) = 0)
     \<and> (if se_running s then si_status (se_inner s) \<in> {Active, Disconnecting}
        else released (se_inner s)
             \<and> (status_is_terminal (si_status (se_inner s)) \<or> si_status (se_inner s) = Disconnecting))"

context worker_branch begin

lemma run_keeps_inv:
  assumes "session_inv s" and "se_running s" and "fixed_id_wf (pc_session_id c)"
  shows "session_inv (run_handler h s)"
proof -
  obtain i' w' go where h: "h (se_inner s, se_worker s) = ((i', w'), go)" by (metis prod.collapse)
  have "outbound_inv w'" "inbound_inv i' w'"
    using keeps_outbound [OF h assms(3)] keeps_inbound [OF h] assms(1) by (simp_all add: session_inv_def)
  then show ?thesis
    using h assms keeps_frame [OF h] goes_on ends_released
    by (cases go) (auto simp: session_inv_def run_handler_def)
qed

end

lemma session_send_inv: "session_inv s \<Longrightarrow> session_inv (fst (session_send st payload s))"
  by (auto simp: session_inv_def session_send_def Let_def inbound_inv_def released_def
      split: voice_status.splits result.splits if_splits)

lemma termination_publish_inv: "session_inv s \<Longrightarrow> session_inv (termination_publish k s)"
  by (auto simp: session_inv_def termination_publish_def publish_status_def inbound_inv_def
      released_def split: prod.splits if_splits)

lemma termination_send_inv: "session_inv s \<Longrightarrow> session_inv (fst (termination_send k s))"
  by (auto simp: session_inv_def termination_send_def inbound_inv_def released_def Let_def
      split: prod.splits if_splits)

lemma pop_command_inv:
  "session_inv s \<Longrightarrow> session_inv (pop_command s)"
  by (auto simp: session_inv_def pop_command_def inbound_inv_def released_def split: if_splits)

lemma session_step_inv:
  assumes "session_step A c s s'" and "session_inv s" and "fixed_id_wf (pc_session_id c)"
  shows "session_inv s'"
  using assms(1)
proof cases
  case worker_stop
  then show ?thesis using stop.run_keeps_inv assms(2,3) by simp
next
  case (worker_command cmd rest race now)
  then show ?thesis
    using command.run_keeps_inv [OF pop_command_inv [OF assms(2)]] assms(3)
    by (simp add: pop_command_def)
next
  case (worker_inbound datagram)
  then show ?thesis using inbound.run_keeps_inv assms(2,3) by simp
next
  case worker_receive_error
  then show ?thesis using receive_error.run_keeps_inv [OF assms(2) _ assms(3)] by simp
next
  case (worker_tick race now)
  then show ?thesis using tick.run_keeps_inv assms(2,3) by simp
next
  case (host_send st payload)
  then show ?thesis using session_send_inv assms(2) by simp
next
  case (host_stop_check t)
  then show ?thesis using assms(2) by (auto simp: termination_check_def session_inv_def split: if_splits)
next
  case (host_stop_publish k)
  then show ?thesis using termination_publish_inv assms(2) by simp
next
  case (host_stop_send k)
  then show ?thesis using termination_send_inv assms(2) by simp
qed

lemma session_start_inv:
  assumes "session_start A cfg cache io now = (cache', Ok (c, s))" and "fixed_id_wf (pc_session_id c)"
  shows "session_inv s"
proof -
  obtain w i where hb: "send_heartbeat A c io now (initial_worker now) = (w, Some (Ok ()))"
    and s: "s = \<lparr>se_inner = publish_status Active i, se_worker = w, se_running = True, se_callers = []\<rparr>"
    and i: "i = initial_inner cfg (si_key_cache i) (pc_allowed_stream_types c)"
    using assms(1)
    by (auto simp: session_start_def Let_def initial_inner_def
        split: prod.splits result.splits option.splits)
  have "outbound_inv w" using send_heartbeat_outbound [OF hb] assms(2) by simp
  moreover have "wk_replay w = replay_default" "wk_stop_seen w = 0"
    using send_heartbeat_frame [OF hb] by (simp_all add: initial_worker_def)
  moreover have "si_media i = []" "si_commands i = []" "si_stop i = None" "si_stop_version i = 0"
    by (subst i, simp add: initial_inner_def)+
  ultimately show ?thesis
    using window_sees_default
    by (auto simp: s session_inv_def publish_status_def inbound_inv_def)
qed

lemma session_reach_inv:
  assumes "session_reach A c s" and "fixed_id_wf (pc_session_id c)"
  shows "session_inv s"
  using assms by induction (auto intro: session_start_inv session_step_inv)


section \<open>Properties of sessions\<close>

lemma encode_heartbeat_Ok:
  assumes "codec_wf c" and "aead_ok A" and "seq \<noteq> 0"
  shows "\<exists>d. encode_heartbeat A c seq = Ok d"
  using decode_encode_body [OF assms, of "[]" "StreamTypeId HEARTBEAT_STREAM_TYPE" 0 0 True]
  by (auto simp: encode_heartbeat_def)

lemma session_start_succeeds:
  assumes "codec_from_config A cfg cache = (cache', Ok c)" and "codec_wf c" and "aead_ok A"
  shows "\<exists>s. session_start A cfg cache Written now = (cache', Ok (c, s)) \<and> se_running s
     \<and> si_status (se_inner s) = Active \<and> se_callers s = []"
  using assms(1) encode_heartbeat_Ok [OF assms(2,3), of 1]
  by (auto simp: session_start_def send_heartbeat_def initial_worker_def initial_inner_def
      reserve_transport_sequence_def write_packet_def publish_status_def)

definition sample_config :: voice_session_config where
  "sample_config = \<lparr>vc_endpoint = \<lparr>ve_host = ''10.0.0.1'', ve_port = 4000\<rparr>,
     vc_session_id = FixedId (replicate 16 1), vc_protocol_version = 1, vc_encrypted = False,
     vc_max_payload = 1000, vc_expires_at = 5, vc_session_key = None, vc_allowed_stream_types = None\<rparr>"

definition plain_codec :: "nat packet_codec" where
  "plain_codec = \<lparr>pc_session_id = FixedId (replicate 16 1), pc_encrypted = False,
     pc_max_payload = 1000, pc_keys = None,
     pc_allowed_stream_types = (\<lambda>_. True)(HEARTBEAT_STREAM_TYPE := False)\<rparr>"

lemma plain_codec_wf: "codec_wf plain_codec"
  by code_simp

lemma sample_session:
  "\<exists>s. session_reach tag_cipher plain_codec s \<and> se_running s
     \<and> si_status (se_inner s) = Active \<and> se_callers s = []"
proof -
  have "codec_from_config tag_cipher sample_config None = (None, Ok plain_codec)"
    by (simp add: codec_from_config_def sample_config_def cache_inline_key_def resolve_key_def
        plain_codec_def)
  from session_start_succeeds [OF this plain_codec_wf tag_cipher_ok] show ?thesis
    by (blast intro: session_reach.started)
qed

lemma plain_codec_id: "fixed_id_wf (pc_session_id plain_codec)"
  using plain_codec_wf by (simp add: codec_wf_def)

text \<open>
  Claim C2. Over the whole life of a session, whatever the host calls and the network does, the
  datagrams handed to the socket carry strictly increasing non-zero transport sequences; so the
  encryption nonces derived from them are pairwise distinct.
\<close>

theorem session_nonces_unique:
  assumes "session_reach A c s" and "fixed_id_wf (pc_session_id c)"
  shows "sorted_wrt (<) (map (\<lambda>d. unat (datagram_sequence d)) (wk_sent (se_worker s)))
     \<and> 0 \<notin> datagram_sequence ` set (wk_sent (se_worker s))
     \<and> distinct (map (\<lambda>d. nonce_for (datagram_sequence d)) (wk_sent (se_worker s)))"
proof -
  let ?ds = "wk_sent (se_worker s)"
  have inv: "outbound_inv (se_worker s)"
    using session_reach_inv [OF assms] by (simp add: session_inv_def)
  then have "distinct (map (\<lambda>d. unat (datagram_sequence d)) ?ds)"
    by (simp add: outbound_inv_def strict_sorted_iff)
  then have "distinct (map (\<lambda>d. nonce_for (datagram_sequence d)) ?ds)"
    by (auto simp: distinct_map inj_on_def nonce_for_inject)
  with inv show ?thesis by (auto simp: outbound_inv_def)
qed

theorem session_nonces_unique_witness:
  "\<exists>s. session_reach tag_cipher plain_codec s
     \<and> distinct (map (\<lambda>d. nonce_for (datagram_sequence d)) (wk_sent (se_worker s)))"
  using sample_session session_nonces_unique [OF _ plain_codec_id] by blast

text \<open>
  Claim C7. Every frame a session publishes to its receivers carries a transport sequence no earlier
  frame of the session carried, although the network may duplicate, reorder and inject datagrams.
\<close>

theorem session_media_at_most_once:
  assumes "session_reach A c s" and "fixed_id_wf (pc_session_id c)"
  shows "distinct (map im_transport_seq (si_media (se_inner s)))"
  using session_reach_inv [OF assms] by (simp add: session_inv_def inbound_inv_def)

theorem session_media_at_most_once_witness:
  "\<exists>s. session_reach tag_cipher plain_codec s \<and> distinct (map im_transport_seq (si_media (se_inner s)))"
  using sample_session session_media_at_most_once [OF _ plain_codec_id] by blast

inductive_cases session_stepE: "session_step A c s s'"

lemma stopped_step:
  assumes "session_step A c s s'" and "\<not> se_running s"
  shows "\<not> se_running s' \<and> wk_sent (se_worker s') = wk_sent (se_worker s)
     \<and> si_media (se_inner s') = si_media (se_inner s)
     \<and> si_status (se_inner s') \<in> {si_status (se_inner s), Disconnecting}"
  using assms
  by (elim session_stepE)
    (auto simp: session_send_def termination_check_def termination_publish_def termination_send_def
      publish_status_def Let_def split: voice_status.splits result.splits prod.splits if_splits)

text \<open>
  Claim C12. Once its worker has ended, a session holds no media sender and no cached key, its status
  is terminal or the \<open>Disconnecting\<close> of a late caller, and no later call sends a datagram, delivers a
  frame or revives the worker.
\<close>

theorem session_stopped_is_final:
  assumes "session_reach A c s" and "fixed_id_wf (pc_session_id c)" and "\<not> se_running s"
  shows "released (se_inner s)
     \<and> (status_is_terminal (si_status (se_inner s)) \<or> si_status (se_inner s) = Disconnecting)
     \<and> (\<forall>s'. (session_step A c)\<^sup>*\<^sup>* s s' \<longrightarrow>
          \<not> se_running s' \<and> wk_sent (se_worker s') = wk_sent (se_worker s)
          \<and> si_media (se_inner s') = si_media (se_inner s))"
proof -
  have "\<not> se_running s' \<and> wk_sent (se_worker s') = wk_sent (se_worker s)
      \<and> si_media (se_inner s') = si_media (se_inner s)" if "(session_step A c)\<^sup>*\<^sup>* s s'" for s'
    using that
  proof induction
    case base
    with assms(3) show ?case by simp
  next
    case (step t t')
    with stopped_step [OF step(2)] show ?case by simp
  qed
  moreover have "released (se_inner s)
      \<and> (status_is_terminal (si_status (se_inner s)) \<or> si_status (se_inner s) = Disconnecting)"
    using session_reach_inv [OF assms(1,2)] assms(3) by (simp add: session_inv_def)
  ultimately show ?thesis by blast
qed

text \<open>The caller that checks the status just before the worker fails on a receive error.\<close>

lemma late_close:
  assumes "session_reach A c s" and "se_running s" and "si_status (se_inner s) = Active"
    and "se_callers s = []"
  shows "\<exists>s'. session_reach A c s' \<and> \<not> se_running s' \<and> si_status (se_inner s') = Disconnecting
     \<and> se_callers s' = []"
proof -
  let ?s1 = "termination_check Close s"
  let ?s2 = "run_handler (\<lambda>(i, w). ((finish Disconnected i, w), False)) ?s1"
  let ?s3 = "termination_publish 0 ?s2"
  let ?s4 = "fst (termination_send 0 ?s3)"
  have 1: "se_callers ?s1 = [(Close, AtPublish)]" "se_running ?s1"
    using assms(2-4) by (simp_all add: termination_check_def)
  then have 2: "se_callers ?s2 = [(Close, AtPublish)]" "\<not> se_running ?s2"
    "si_status (se_inner ?s2) = Disconnected"
    by (simp_all add: run_handler_def)
  then have 3: "se_callers ?s3 = [(Close, AtSend)]" "\<not> se_running ?s3"
    "si_status (se_inner ?s3) = Disconnecting"
    by (simp_all add: termination_publish_def publish_status_def)
  then have 4: "se_callers ?s4 = []" "\<not> se_running ?s4" "si_status (se_inner ?s4) = Disconnecting"
    by (simp_all add: termination_send_def Let_def)
  have "session_reach A c ?s1" using assms(1) by (rule stepped [OF _ host_stop_check])
  then have "session_reach A c ?s2"
    by (rule stepped [OF _ worker_receive_error [OF 1(2)]])
  then have "session_reach A c ?s3" by (rule stepped [OF _ host_stop_publish]) (use 2 in simp_all)
  then have "session_reach A c ?s4" by (rule stepped [OF _ host_stop_send]) (use 3 in simp_all)
  with 4 show ?thesis by blast
qed

theorem session_stopped_is_final_witness:
  "\<exists>s. session_reach tag_cipher plain_codec s \<and> \<not> se_running s \<and> released (se_inner s)"
  using sample_session late_close session_stopped_is_final [OF _ plain_codec_id] by blast

text \<open>
  Claim C27. \<open>request_termination\<close> checks the status and publishes \<open>Disconnecting\<close> in two steps. A
  worker that fails in between has its terminal status overwritten: a session is reachable whose
  worker is gone and whose status is not terminal and never becomes terminal again, so that
  \<open>wait_until_stopped\<close> does not return.
\<close>

theorem late_close_hides_terminal_status:
  "\<exists>s. session_reach tag_cipher plain_codec s \<and> \<not> se_running s \<and> se_callers s = []
     \<and> {s'. (session_step tag_cipher plain_codec)\<^sup>*\<^sup>* s s'}
        \<subseteq> {s'. si_status (se_inner s') = Disconnecting}"
proof -
  obtain s where s: "session_reach tag_cipher plain_codec s" "\<not> se_running s" "se_callers s = []"
    "si_status (se_inner s) = Disconnecting"
    using sample_session late_close by blast
  have "si_status (se_inner s') = Disconnecting \<and> \<not> se_running s'"
    if "(session_step tag_cipher plain_codec)\<^sup>*\<^sup>* s s'" for s'
    using that
  proof induction
    case base
    with s show ?case by simp
  next
    case (step t t')
    with stopped_step [OF step(2)] show ?case by auto
  qed
  with s show ?thesis by blast
qed

text \<open>
  A stop request that reaches a running worker is honoured: the stop branch is ready, and
  taking it ends the worker with the status the request stands for, the key removed and the media
  channel closed.
\<close>

theorem stop_request_honoured:
  assumes "session_reach A c s" and "fixed_id_wf (pc_session_id c)" and "se_running s"
    and "se_callers s ! k = (t, AtSend)"
  shows "let s' = fst (termination_send k s); s'' = run_handler handle_stop s'
     in stop_ready (se_inner s') (se_worker s') \<and> \<not> se_running s'' \<and> released (se_inner s'')
        \<and> si_status (se_inner s'')
            = (case t of Revoke r \<Rightarrow> StatusRevoked r | Close \<Rightarrow> Disconnected | Disconnect \<Rightarrow> Disconnected)"
  using assms(3,4) session_reach_inv [OF assms(1,2)]
  by (cases t) (simp_all add: termination_send_def run_handler_def handle_stop_def stop_ready_def
      session_inv_def)

end
