(* ===== verification/RealtimeTypes.thy ===== *)
theory RealtimeTypes
  imports DomainState RustText
begin

text \<open>
  The data types of \<open>crates/zephyrvox-realtime\<close>: the errors of \<open>error.rs\<close> with their display
  texts, the frames of \<open>frame.rs\<close>, \<open>command.rs\<close>, \<open>event.rs\<close>, the access token of
  \<open>token.rs\<close>, the connection status of \<open>config.rs\<close> and the messages of \<open>transport.rs\<close>. The
  type parameter \<open>'v\<close> is \<open>serde_json::Value\<close>.
\<close>

section \<open>Errors\<close>

datatype state_apply_error =
    InvalidEnvelope string
  | ApplyGeidOrder geid geid
  | ApplyGeidGap geid geid
  | UnknownEvent string
  | ApplySnapshotRequired string
  | InvalidPayload string string
  | InvalidCursor

datatype sync_error =
    InvalidPhase string
  | ReplayBounds
  | QueueLimit
  | SyncGeidOrder geid geid
  | SyncGeidGap geid geid
  | StreamEpochChanged stream_epoch stream_epoch
  | SyncSnapshotRequired string

record command_error =
  ce_request_id :: string
  ce_command_type :: string
  ce_code :: int
  ce_message :: string
  ce_retryable :: bool

datatype realtime_error =
    RProvider string
  | RAuthenticationRequired
  | RAuthenticationExpired
  | RTransport string
  | RProtocol string
  | RJson string
  | RState state_apply_error
  | RSync sync_error
  | RServerCommand command_error
  | RNotLive
  | RCommandTimeout
  | RClosed
  | RRevoked string
  | RTlsPinMismatch string string
  | RTlsCertificateInvalid
  | RReconnectExhausted
  | RConfiguration string

fun state_apply_error_display :: "state_apply_error \<Rightarrow> string" where
  "state_apply_error_display (InvalidEnvelope m) = ''invalid state event envelope: '' @ m"
| "state_apply_error_display (ApplyGeidOrder current actual) =
     ''state GEID '' @ geid_to_string actual @ '' is not after current GEID '' @ geid_to_string current"
| "state_apply_error_display (ApplyGeidGap expected actual) =
     ''state stream GEID gap: expected '' @ geid_to_string expected @ '', got '' @ geid_to_string actual"
| "state_apply_error_display (UnknownEvent t) = ''unknown state event type: '' @ t"
| "state_apply_error_display (ApplySnapshotRequired t) = ''state event requires a full snapshot: '' @ t"
| "state_apply_error_display (InvalidPayload t m) =
     ''invalid payload for state event '' @ t @ '': '' @ m"
| "state_apply_error_display InvalidCursor = ''state event cursor is invalid''"

fun sync_error_display :: "sync_error \<Rightarrow> string" where
  "sync_error_display (InvalidPhase m) = ''invalid synchronization phase transition: '' @ m"
| "sync_error_display ReplayBounds = ''sync replay GEID bounds are inconsistent''"
| "sync_error_display QueueLimit = ''queued live state events exceed the synchronization limit''"
| "sync_error_display (SyncGeidOrder current actual) =
     ''state stream GEID '' @ geid_to_string actual @ '' is not after '' @ geid_to_string current"
| "sync_error_display (SyncGeidGap expected actual) =
     ''state stream GEID gap: expected '' @ geid_to_string expected @ '', got '' @ geid_to_string actual"
| "sync_error_display (StreamEpochChanged expected actual) =
     ''state stream epoch changed from '' @ fixed_id_to_hex expected @ '' to '' @ fixed_id_to_hex actual"
| "sync_error_display (SyncSnapshotRequired m) = ''server requires a state snapshot: '' @ m"


section \<open>Frames, commands and events\<close>

datatype access_token = AccessToken string

definition access_token_new :: "string \<Rightarrow> (access_token, realtime_error) result" where
  "access_token_new v =
     (if v = [] then Err (RConfiguration ''access token must not be empty'') else Ok (AccessToken v))"

fun access_token_as_str :: "access_token \<Rightarrow> string" where
  "access_token_as_str (AccessToken v) = v"

record command_ack =
  ca_request_id :: string
  ca_command_type :: string
  ca_command_id :: "string option"
  ca_expires_at :: "int option"

record presence_command =
  pq_status :: string
  pq_activity :: "presence_activity option"

definition presence_command_from :: "presence \<Rightarrow> presence_command" where
  "presence_command_from p = \<lparr>pq_status = pr_status p, pq_activity = pr_activity p\<rparr>"

record connection_ready =
  cr_control_connection_id :: control_connection_id
  cr_access_expires_at :: int

record 'v sync_replay =
  sr_from_geid :: geid
  sr_to_geid :: geid
  sr_events :: "'v state_event list"

record sync_complete =
  sy_cursor :: cursor

record sync_required =
  sq_reason :: string

record auth_revoked =
  ar_reason :: string

record 'v unknown_frame =
  uf_frame_type :: string
  uf_request_id :: "string option"
  uf_data :: 'v

datatype 'v server_frame =
    FConnectionReady connection_ready
  | FSyncReplay "'v sync_replay"
  | FSyncComplete sync_complete
  | FSyncRequired sync_required
  | FStateEvent "'v state_event"
  | FCommandOk command_ack
  | FCommandError command_error
  | FAuthRevoked auth_revoked
  | FUnknown "'v unknown_frame"

datatype connection_status =
    CDisconnected | CConnecting | CReady | CSyncing | CLive | CReconnecting | CClosed

datatype 'v client_event =
    StatusChanged connection_status
  | EReady control_connection_id int
  | ESyncRequired string
  | EState "'v state_event"
  | VoiceLost voice_authority
  | EDisconnected string
  | EUnknown "'v unknown_frame"

datatype web_socket_message =
    WText string
  | WPing bytes
  | WPong bytes
  | WClose "string option"
  | WCloseFrame "nat option" "string option"

definition command_failure :: "command_error \<Rightarrow> realtime_error" where
  "command_failure e = RServerCommand e"

end
