(* ===== verification/SyncMachine.thy ===== *)
theory SyncMachine
  imports RealtimeTypes
begin

text \<open>
  \<open>crates/zephyrvox-realtime/src/sync.rs\<close>: the state machine that validates the order of a
  synchronisation before anything is applied. A method with \<open>&mut self\<close> returns the machine beside
  its result, since a failing call may already have changed it. The serialised length of an event
  (\<open>serde_json::to_vec\<close>) is the argument \<open>enc\<close>.
\<close>

section \<open>The machine\<close>

definition MAX_QUEUED_LIVE_EVENTS :: nat where
  "MAX_QUEUED_LIVE_EVENTS = 256"

definition MAX_QUEUED_LIVE_BYTES :: nat where
  "MAX_QUEUED_LIVE_BYTES = 2 ^ 20"

datatype sync_phase = PDisconnected | PConnecting | PReady | PSyncing | PLive | PReconnecting

fun phase_debug :: "sync_phase \<Rightarrow> string" where
  "phase_debug PDisconnected = ''Disconnected''"
| "phase_debug PConnecting = ''Connecting''"
| "phase_debug PReady = ''Ready''"
| "phase_debug PSyncing = ''Syncing''"
| "phase_debug PLive = ''Live''"
| "phase_debug PReconnecting = ''Reconnecting''"

record 'v sync_machine =
  sm_phase :: sync_phase
  sm_cursor :: cursor
  sm_stream_epoch :: stream_epoch
  sm_geid :: geid
  sm_control_connection_id :: "control_connection_id option"
  sm_queued_live :: "'v state_event list"
  sm_queued_live_bytes :: nat

definition sync_new :: "client_state \<Rightarrow> 'v sync_machine" where
  "sync_new st =
     \<lparr>sm_phase = PDisconnected, sm_cursor = cs_cursor st, sm_stream_epoch = cs_stream_epoch st,
      sm_geid = cs_geid st, sm_control_connection_id = None, sm_queued_live = [],
      sm_queued_live_bytes = 0\<rparr>"

definition clear_queue :: "'v sync_machine \<Rightarrow> 'v sync_machine" where
  "clear_queue m = m\<lparr>sm_queued_live := [], sm_queued_live_bytes := 0\<rparr>"

definition sync_replace_snapshot :: "client_state \<Rightarrow> 'v sync_machine \<Rightarrow> 'v sync_machine" where
  "sync_replace_snapshot st m =
     (clear_queue m)\<lparr>sm_cursor := cs_cursor st, sm_stream_epoch := cs_stream_epoch st,
        sm_geid := cs_geid st, sm_phase := PReady\<rparr>"

definition check_stream_epoch :: "'v sync_machine \<Rightarrow> stream_epoch \<Rightarrow> (unit, sync_error) result" where
  "check_stream_epoch m actual =
     (if sm_stream_epoch m = actual then Ok ()
      else Err (StreamEpochChanged (sm_stream_epoch m) actual))"

definition begin_connecting :: "'v sync_machine \<Rightarrow> 'v sync_machine \<times> (unit, sync_error) result" where
  "begin_connecting m =
     (if sm_phase m = PDisconnected \<or> sm_phase m = PReconnecting
      then (m\<lparr>sm_phase := PConnecting\<rparr>, Ok ())
      else (m, Err (InvalidPhase (''cannot connect from '' @ phase_debug (sm_phase m)))))"

definition accept_ready ::
  "control_connection_id \<Rightarrow> 'v sync_machine \<Rightarrow> 'v sync_machine \<times> (unit, sync_error) result" where
  "accept_ready cid m =
     (if \<not> (sm_phase m = PConnecting \<or> sm_phase m = PReconnecting)
      then (m, Err (InvalidPhase (''connection.ready received in '' @ phase_debug (sm_phase m))))
      else (m\<lparr>sm_control_connection_id := Some cid, sm_phase := PReady\<rparr>, Ok ()))"

definition begin_sync :: "'v sync_machine \<Rightarrow> 'v sync_machine \<times> (cursor, sync_error) result" where
  "begin_sync m =
     (if sm_phase m \<noteq> PReady
      then (m, Err (InvalidPhase (''sync.hello sent in '' @ phase_debug (sm_phase m))))
      else ((clear_queue m)\<lparr>sm_phase := PSyncing\<rparr>, Ok (sm_cursor m)))"

definition accept_ordered_event ::
  "'v state_event \<Rightarrow> 'v sync_machine \<Rightarrow> 'v sync_machine \<times> (unit, sync_error) result" where
  "accept_ordered_event e m =
     (if ev_geid e \<le> sm_geid m then (m, Err (SyncGeidOrder (sm_geid m) (ev_geid e)))
      else (m\<lparr>sm_geid := ev_geid e, sm_cursor := ev_cursor e\<rparr>, Ok ()))"

fun accept_ordered_all ::
  "'v state_event list \<Rightarrow> 'v sync_machine \<Rightarrow> 'v sync_machine \<times> (unit, sync_error) result" where
  "accept_ordered_all [] m = (m, Ok ())"
| "accept_ordered_all (e # es) m =
     (case accept_ordered_event e m of
        (m', Ok _) \<Rightarrow> accept_ordered_all es m'
      | (m', Err x) \<Rightarrow> (m', Err x))"

definition accept_replay ::
  "'v sync_replay \<Rightarrow> 'v sync_machine \<Rightarrow> 'v sync_machine \<times> (unit, sync_error) result" where
  "accept_replay r m =
     (if sm_phase m \<noteq> PSyncing
      then (m, Err (InvalidPhase (''sync.replay received in '' @ phase_debug (sm_phase m))))
      else if sr_events r = [] then
        (if sr_from_geid r \<noteq> sr_to_geid r \<or> sr_from_geid r \<noteq> sm_geid m
         then (m, Err ReplayBounds) else (m, Ok ()))
      else if ev_geid (hd (sr_events r)) \<noteq> sr_from_geid r
              \<or> ev_geid (last (sr_events r)) \<noteq> sr_to_geid r
      then (m, Err ReplayBounds)
      else accept_ordered_all (sr_events r) m)"

definition accept_live_event ::
  "('v state_event \<Rightarrow> nat option) \<Rightarrow> 'v state_event \<Rightarrow> 'v sync_machine
   \<Rightarrow> 'v sync_machine \<times> ('v state_event option, sync_error) result" where
  "accept_live_event enc e m =
     (if \<not> (sm_phase m = PSyncing \<or> sm_phase m = PLive)
      then (m, Err (InvalidPhase (''state.event received in '' @ phase_debug (sm_phase m))))
      else case (if sm_phase m = PSyncing then enc e else Some 0) of
             None \<Rightarrow> (m, Err QueueLimit)
           | Some event_bytes \<Rightarrow>
               if sm_phase m = PSyncing
                  \<and> (length (sm_queued_live m) \<ge> MAX_QUEUED_LIVE_EVENTS
                     \<or> sm_queued_live_bytes m + event_bytes > MAX_QUEUED_LIVE_BYTES)
               then (m, Err QueueLimit)
               else (case accept_ordered_event e m of
                       (m', Err x) \<Rightarrow> (m', Err x)
                     | (m', Ok _) \<Rightarrow>
                         if sm_phase m' = PSyncing
                         then (m'\<lparr>sm_queued_live_bytes := sm_queued_live_bytes m' + event_bytes,
                                  sm_queued_live := sm_queued_live m' @ [e]\<rparr>, Ok None)
                         else (m', Ok (Some e))))"

definition accept_complete ::
  "sync_complete \<Rightarrow> 'v sync_machine \<Rightarrow> 'v sync_machine \<times> ('v state_event list, sync_error) result"
where
  "accept_complete c m =
     (if sm_phase m \<noteq> PSyncing
      then (m, Err (InvalidPhase (''sync.complete received in '' @ phase_debug (sm_phase m))))
      else ((clear_queue m)\<lparr>sm_cursor := sy_cursor c, sm_phase := PLive\<rparr>, Ok (sm_queued_live m)))"

definition require_snapshot ::
  "string \<Rightarrow> 'v sync_machine \<Rightarrow> 'v sync_machine \<times> (unit, sync_error) result" where
  "require_snapshot reason m =
     (if \<not> (sm_phase m = PReady \<or> sm_phase m = PSyncing \<or> sm_phase m = PLive)
      then (m, Err (InvalidPhase (''sync.required received in '' @ phase_debug (sm_phase m) @ '': ''
                                  @ reason)))
      else ((clear_queue m)\<lparr>sm_phase := PReady\<rparr>, Ok ()))"

definition sync_disconnect :: "'v sync_machine \<Rightarrow> 'v sync_machine" where
  "sync_disconnect m = (clear_queue m)\<lparr>sm_control_connection_id := None, sm_phase := PDisconnected\<rparr>"

definition sync_reconnecting :: "'v sync_machine \<Rightarrow> 'v sync_machine" where
  "sync_reconnecting m = (clear_queue m)\<lparr>sm_control_connection_id := None, sm_phase := PReconnecting\<rparr>"


section \<open>Ordered streams\<close>

text \<open>
  Both the machine and the state store admit an event only when its identifier is above their
  position, and then move there; a rejected event leaves the position where it was.
\<close>

locale ordered_stream =
  fixes position :: "'s \<Rightarrow> 'g::linorder"
    and stamp :: "'e \<Rightarrow> 'g"
    and install :: "'e \<Rightarrow> 's \<Rightarrow> 's \<times> bool"
  assumes install_advances: "install e s = (s', True) \<Longrightarrow> position s < stamp e \<and> position s' = stamp e"
    and install_rejects: "install e s = (s', False) \<Longrightarrow> position s' = position s"
begin

fun install_all :: "'e list \<Rightarrow> 's \<Rightarrow> 's \<times> 'e list" where
  "install_all [] s = (s, [])"
| "install_all (e # es) s =
     (case install e s of (s', b) \<Rightarrow>
       case install_all es s' of (t, ds) \<Rightarrow> (t, if b then e # ds else ds))"

lemma install_all_sorted:
  "install_all es s = (t, ds) \<Longrightarrow>
   sorted_wrt (<) (map stamp ds) \<and> (\<forall>d \<in> set ds. position s < stamp d) \<and> position s \<le> position t
   \<and> (\<forall>d \<in> set ds. stamp d \<le> position t)"
proof (induction es arbitrary: s t ds)
  case Nil
  then show ?case by simp
next
  case (Cons e es)
  obtain s' b where i: "install e s = (s', b)" by fastforce
  obtain t' ds' where r: "install_all es s' = (t', ds')" by fastforce
  note IH = Cons.IH [OF r]
  have eq: "t = t'" "ds = (if b then e # ds' else ds')" using Cons.prems i r by auto
  show ?case
  proof (cases b)
    case True
    with i have "position s < stamp e" "position s' = stamp e" using install_advances by auto
    with IH eq True show ?thesis by auto
  next
    case False
    with i have "position s' = position s" using install_rejects by auto
    with IH eq False show ?thesis by auto
  qed
qed

end

definition machine_install :: "'v state_event \<Rightarrow> 'v sync_machine \<Rightarrow> 'v sync_machine \<times> bool" where
  "machine_install e m = (case accept_ordered_event e m of (m', r) \<Rightarrow> (m', is_ok r))"

interpretation machine: ordered_stream sm_geid ev_geid machine_install
  by unfold_locales (auto simp: machine_install_def accept_ordered_event_def split: if_splits)


section \<open>Replay batches\<close>

lemma accept_ordered_all_frame:
  "accept_ordered_all es m = (m', r) \<Longrightarrow>
   sm_phase m' = sm_phase m \<and> sm_queued_live m' = sm_queued_live m
   \<and> sm_queued_live_bytes m' = sm_queued_live_bytes m \<and> sm_stream_epoch m' = sm_stream_epoch m
   \<and> sm_control_connection_id m' = sm_control_connection_id m \<and> sm_geid m \<le> sm_geid m'"
proof (induction es arbitrary: m)
  case Nil
  then show ?case by simp
next
  case (Cons e es)
  show ?case
  proof (cases "ev_geid e \<le> sm_geid m")
    case True
    with Cons.prems show ?thesis by (auto simp: accept_ordered_event_def)
  next
    case False
    with Cons.IH [of "m\<lparr>sm_geid := ev_geid e, sm_cursor := ev_cursor e\<rparr>"] Cons.prems
    show ?thesis by (auto simp: accept_ordered_event_def)
  qed
qed

lemma accept_ordered_all_Ok_iff:
  "snd (accept_ordered_all es m) = Ok () \<longleftrightarrow> sorted_wrt (<) (sm_geid m # map ev_geid es)"
proof (induction es arbitrary: m)
  case Nil
  show ?case by simp
next
  case (Cons e es)
  show ?case
    by (auto simp: accept_ordered_event_def Cons.IH not_le)
qed

lemma accept_ordered_all_position:
  "snd (accept_ordered_all es m) = Ok () \<Longrightarrow>
   sm_geid (fst (accept_ordered_all es m)) = last (sm_geid m # map ev_geid es)
   \<and> sm_cursor (fst (accept_ordered_all es m)) = last (sm_cursor m # map ev_cursor es)"
proof (induction es arbitrary: m)
  case Nil
  show ?case by simp
next
  case (Cons e es)
  then show ?case
    by (cases "ev_geid e \<le> sm_geid m") (auto simp: accept_ordered_event_def)
qed

text \<open>
  While synchronising, a non-empty replay batch is accepted exactly when its bounds are
  the identifiers of its first and last event and its identifiers rise strictly from the machine's
  position; gaps are allowed. Accepting it moves the machine to the last event's identifier and
  cursor. An empty batch is accepted exactly when both bounds are the current position.
\<close>

theorem accept_replay_iff:
  assumes "sm_phase m = PSyncing"
  shows "(snd (accept_replay r m) = Ok () \<longleftrightarrow>
       (if sr_events r = [] then sr_from_geid r = sm_geid m \<and> sr_to_geid r = sm_geid m
        else ev_geid (hd (sr_events r)) = sr_from_geid r \<and> ev_geid (last (sr_events r)) = sr_to_geid r
             \<and> sorted_wrt (<) (sm_geid m # map ev_geid (sr_events r))))
     \<and> (snd (accept_replay r m) = Ok () \<longrightarrow>
         sm_geid (fst (accept_replay r m)) = last (sm_geid m # map ev_geid (sr_events r))
         \<and> sm_cursor (fst (accept_replay r m)) = last (sm_cursor m # map ev_cursor (sr_events r)))"
  using assms accept_ordered_all_position [of "sr_events r" m]
  by (auto simp: accept_replay_def accept_ordered_all_Ok_iff)

definition sample_machine :: "unit sync_machine" where
  "sample_machine = \<lparr>sm_phase = PSyncing, sm_cursor = Cursor ''c'', sm_stream_epoch = FixedId [],
     sm_geid = Geid 7, sm_control_connection_id = None, sm_queued_live = [], sm_queued_live_bytes = 0\<rparr>"

definition sample_event :: "nat \<Rightarrow> unit state_event" where
  "sample_event n = \<lparr>ev_frame_type = ''state.event'', ev_geid = Geid (of_nat n), ev_cursor = Cursor ''d'',
     ev_class = ''state'', ev_scope = \<lparr>sc_kind = ''server'', sc_id = None\<rparr>,
     ev_event_type = ''server.updated'', ev_causation_id = None, ev_server_time = 0, ev_data = ()\<rparr>"

lemma accept_replay_frame:
  assumes "accept_replay r m = (m', res)"
  shows "sm_phase m' = sm_phase m \<and> sm_queued_live m' = sm_queued_live m
     \<and> sm_queued_live_bytes m' = sm_queued_live_bytes m \<and> sm_stream_epoch m' = sm_stream_epoch m
     \<and> sm_control_connection_id m' = sm_control_connection_id m \<and> sm_geid m \<le> sm_geid m'"
  using assms accept_ordered_all_frame [of "sr_events r" m m' res]
  by (auto simp: accept_replay_def split: if_splits)


section \<open>The machine invariant\<close>

text \<open>The queue is empty outside \<open>Syncing\<close>, bounded, and in stream order below the position.\<close>

definition sync_inv :: "('v state_event \<Rightarrow> nat option) \<Rightarrow> 'v sync_machine \<Rightarrow> bool" where
  "sync_inv enc m \<longleftrightarrow>
     (sm_phase m \<noteq> PSyncing \<longrightarrow> sm_queued_live m = [])
     \<and> length (sm_queued_live m) \<le> MAX_QUEUED_LIVE_EVENTS
     \<and> sm_queued_live_bytes m \<le> MAX_QUEUED_LIVE_BYTES
     \<and> sm_queued_live_bytes m = sum_list (map (the \<circ> enc) (sm_queued_live m))
     \<and> sorted_wrt (<) (map ev_geid (sm_queued_live m))
     \<and> (\<forall>e \<in> set (sm_queued_live m). ev_geid e \<le> sm_geid m)"

datatype 'v sync_op =
    OpBeginConnecting
  | OpAcceptReady control_connection_id
  | OpBeginSync
  | OpAcceptReplay "'v sync_replay"
  | OpAcceptLive "'v state_event"
  | OpAcceptComplete sync_complete
  | OpRequireSnapshot string
  | OpReplaceSnapshot client_state
  | OpDisconnect
  | OpReconnecting

fun sync_apply :: "('v state_event \<Rightarrow> nat option) \<Rightarrow> 'v sync_op \<Rightarrow> 'v sync_machine \<Rightarrow> 'v sync_machine" where
  "sync_apply enc OpBeginConnecting m = fst (begin_connecting m)"
| "sync_apply enc (OpAcceptReady i) m = fst (accept_ready i m)"
| "sync_apply enc OpBeginSync m = fst (begin_sync m)"
| "sync_apply enc (OpAcceptReplay r) m = fst (accept_replay r m)"
| "sync_apply enc (OpAcceptLive e) m = fst (accept_live_event enc e m)"
| "sync_apply enc (OpAcceptComplete c) m = fst (accept_complete c m)"
| "sync_apply enc (OpRequireSnapshot reason) m = fst (require_snapshot reason m)"
| "sync_apply enc (OpReplaceSnapshot st) m = sync_replace_snapshot st m"
| "sync_apply enc OpDisconnect m = sync_disconnect m"
| "sync_apply enc OpReconnecting m = sync_reconnecting m"

lemma sync_inv_clear: "sm_queued_live m = [] \<Longrightarrow> sm_queued_live_bytes m = 0 \<Longrightarrow> sync_inv enc m"
  by (simp add: sync_inv_def)

lemma clear_queue_simps [simp]:
  "sm_queued_live (clear_queue m) = []" "sm_queued_live_bytes (clear_queue m) = 0"
  "sm_phase (clear_queue m) = sm_phase m" "sm_geid (clear_queue m) = sm_geid m"
  "sm_cursor (clear_queue m) = sm_cursor m" "sm_stream_epoch (clear_queue m) = sm_stream_epoch m"
  "sm_control_connection_id (clear_queue m) = sm_control_connection_id m"
  by (simp_all add: clear_queue_def)

lemma sync_inv_live:
  assumes "sync_inv enc m"
  shows "sync_inv enc (fst (accept_live_event enc e m))"
proof (cases "sm_phase m = PSyncing")
  case True
  with assms show ?thesis
    by (auto simp: accept_live_event_def accept_ordered_event_def sync_inv_def sorted_wrt_append
        not_le less_le_trans dest: le_less_trans split: option.splits if_splits)
next
  case False
  with assms show ?thesis
    by (auto simp: accept_live_event_def accept_ordered_event_def sync_inv_def
        split: option.splits if_splits)
qed

lemma sync_inv_replay:
  assumes "sync_inv enc m"
  shows "sync_inv enc (fst (accept_replay r m))"
  using assms accept_replay_frame [of r m "fst (accept_replay r m)" "snd (accept_replay r m)"]
  by (auto simp: sync_inv_def intro: order_trans)

lemma sync_inv_step: "sync_inv enc m \<Longrightarrow> sync_inv enc (sync_apply enc op m)"
proof (cases op)
  case (OpAcceptReplay r)
  then show "sync_inv enc m \<Longrightarrow> ?thesis" by (simp add: sync_inv_replay)
next
  case (OpAcceptLive e)
  then show "sync_inv enc m \<Longrightarrow> ?thesis" by (simp add: sync_inv_live)
qed (auto simp: begin_connecting_def accept_ready_def begin_sync_def accept_complete_def
      require_snapshot_def sync_replace_snapshot_def sync_disconnect_def sync_reconnecting_def
      sync_inv_def split: if_splits)

text \<open>
  Claim C18. Whatever sequence of calls a machine receives, failing ones included, the queue of live
  events stays within 256 events and one mebibyte, its byte counter is exact, its events are in
  strictly increasing order at or below the machine's position, and it is empty outside the
  synchronisation phase.
\<close>

theorem sync_machine_inv: "sync_inv enc (fold (sync_apply enc) ops (sync_new st))"
proof -
  have "sync_inv enc m \<Longrightarrow> sync_inv enc (fold (sync_apply enc) ops m)" for m
    by (induction ops arbitrary: m) (simp_all add: sync_inv_step)
  then show ?thesis by (simp add: sync_inv_clear sync_new_def)
qed

text \<open>Only a replacement snapshot moves the position back or changes the epoch.\<close>

lemma sync_monotone_step:
  assumes "\<And>st. op \<noteq> OpReplaceSnapshot st"
  shows "sm_geid m \<le> sm_geid (sync_apply enc op m) \<and> sm_stream_epoch (sync_apply enc op m) = sm_stream_epoch m"
proof (cases op)
  case (OpAcceptReplay r)
  then show ?thesis
    using accept_replay_frame [of r m "fst (accept_replay r m)" "snd (accept_replay r m)"] by simp
next
  case (OpAcceptLive e)
  then show ?thesis
    by (auto simp: accept_live_event_def accept_ordered_event_def not_le less_imp_le
        split: option.splits)
qed (use assms in \<open>auto simp: begin_connecting_def accept_ready_def begin_sync_def
      accept_complete_def require_snapshot_def sync_disconnect_def sync_reconnecting_def\<close>)

end
