(* ===== verification/Projection.thy ===== *)
theory Projection
  imports SyncMachine
begin

text \<open>
  The client-side state projection of \<open>crates/zephyrvox-realtime\<close>: \<open>state/projection.rs\<close>
  (validation and application of one event) and the \<open>StateStore\<close> of \<open>state.rs\<close>.

  Decoding a JSON payload is the work of \<open>serde_json\<close>: the argument \<open>D\<close> of the definitions is a
  record with one decoder per payload type, each of which gives the value or an error text.
\<close>

section \<open>Payloads\<close>

record entity_tombstone =
  et_entity_id :: snowflake

record user_tombstone =
  ut_user_id :: snowflake

record role_tombstone =
  rt_role_key :: string

record user_envelope =
  ue_user :: user_presence

record self_envelope =
  se_self_state :: self_user_state

record membership_envelope =
  me_membership :: voice_membership

record membership_tombstone =
  mt_user_id :: snowflake
  mt_channel_id :: snowflake

record authority_envelope =
  ae_authority :: "voice_authority option"

record 'v payload_decoders =
  de_group :: "'v \<Rightarrow> (group, string) result"
  de_channel :: "'v \<Rightarrow> (channel, string) result"
  de_role :: "'v \<Rightarrow> (role, string) result"
  de_entity_tombstone :: "'v \<Rightarrow> (entity_tombstone, string) result"
  de_user_tombstone :: "'v \<Rightarrow> (user_tombstone, string) result"
  de_role_tombstone :: "'v \<Rightarrow> (role_tombstone, string) result"
  de_user_envelope :: "'v \<Rightarrow> (user_envelope, string) result"
  de_self_envelope :: "'v \<Rightarrow> (self_envelope, string) result"
  de_membership_envelope :: "'v \<Rightarrow> (membership_envelope, string) result"
  de_membership_tombstone :: "'v \<Rightarrow> (membership_tombstone, string) result"
  de_authority_envelope :: "'v \<Rightarrow> (authority_envelope, string) result"

definition payload :: "('v \<Rightarrow> ('a, string) result) \<Rightarrow> 'v state_event \<Rightarrow> ('a, state_apply_error) result" where
  "payload dec e = map_err (InvalidPayload (ev_event_type e)) (dec (ev_data e))"


section \<open>The closed event table\<close>

definition is_visibility_scope_event :: "string \<Rightarrow> bool" where
  "is_visibility_scope_event t \<longleftrightarrow>
     t \<in> set [''visibility.grant.begin'', ''visibility.fragment'', ''visibility.granted'',
              ''visibility.revoked'', ''visibility.tombstone'']"

definition is_visibility_state_event :: "string \<Rightarrow> bool" where
  "is_visibility_state_event t \<longleftrightarrow>
     is_visibility_scope_event t \<or> t = ''visibility.transition.complete''"

definition is_known_state_event :: "string \<Rightarrow> bool" where
  "is_known_state_event t \<longleftrightarrow>
     t \<in> set [''group.created'', ''group.updated'', ''group.deleted'', ''group.access.updated'',
              ''acl.updated'', ''channel.created'', ''channel.updated'', ''channel.deleted'',
              ''channel.access.updated'', ''channel.member.joined'', ''channel.member.left'',
              ''user.created'', ''user.updated'', ''user.deleted'', ''presence.updated'',
              ''self.updated'', ''rbac.role.created'', ''rbac.role.updated'', ''rbac.role.deleted'',
              ''rbac.binding.updated'', ''rbac.config.updated'', ''owner.transferred'',
              ''moderation.mute.updated'', ''moderation.mute.removed'', ''voice.authority.updated'',
              ''voice.revoked'', ''voice.disconnected'', ''voice.membership.updated'',
              ''server.updated'', ''visibility.grant.begin'', ''visibility.fragment'',
              ''visibility.granted'', ''visibility.revoked'', ''visibility.tombstone'',
              ''visibility.transition.complete'']"

definition expected_scope_kind :: "string \<Rightarrow> string option" where
  "expected_scope_kind t =
     (if t \<in> set [''group.created'', ''group.updated'', ''group.deleted'', ''group.access.updated'']
      then Some ''group''
      else if t \<in> set [''channel.created'', ''channel.updated'', ''channel.deleted'',
                       ''channel.access.updated'', ''channel.member.joined'', ''channel.member.left'',
                       ''voice.membership.updated'']
      then Some ''channel''
      else if t \<in> set [''user.created'', ''user.updated'', ''user.deleted'', ''presence.updated'',
                       ''self.updated'', ''rbac.role.created'', ''rbac.role.updated'',
                       ''rbac.role.deleted'', ''owner.transferred'', ''voice.authority.updated'',
                       ''voice.revoked'', ''voice.disconnected'', ''server.updated'',
                       ''visibility.transition.complete'']
      then Some ''server''
      else None)"

definition validate_event :: "'v state_event \<Rightarrow> client_state \<Rightarrow> (unit, state_apply_error) result" where
  "validate_event e current =
     (let kind = sc_kind (ev_scope e); t = ev_event_type e
      in if ev_frame_type e \<noteq> ''state.event'' \<or> ev_class e \<noteq> ''state''
         then Err (InvalidEnvelope ''state event must have type state.event and class state'')
         else if cursor_as_str (ev_cursor e) = [] then Err InvalidCursor
         else if ev_geid e \<le> cs_geid current
         then Err (ApplyGeidOrder (cs_geid current) (ev_geid e))
         else if \<not> is_known_state_event t then Err (UnknownEvent t)
         else if kind \<noteq> ''server'' \<and> kind \<noteq> ''group'' \<and> kind \<noteq> ''channel''
         then Err (InvalidEnvelope (''unknown event scope '' @ kind))
         else if kind \<noteq> ''server'' \<and> sc_id (ev_scope e) = None
         then Err (InvalidEnvelope ''non-server event scope has no id'')
         else if kind = ''server'' \<and> sc_id (ev_scope e) \<noteq> None
         then Err (InvalidEnvelope ''server event scope must not have an id'')
         else (case expected_scope_kind t of
                 Some expected \<Rightarrow>
                   if kind \<noteq> expected
                   then Err (InvalidEnvelope (t @ '' event must use a '' @ expected @ '' scope''))
                   else if is_visibility_scope_event t \<and> kind = ''server''
                   then Err (InvalidEnvelope
                          ''visibility transition event must use a group or channel scope'')
                   else Ok ()
               | None \<Rightarrow>
                   if is_visibility_scope_event t \<and> kind = ''server''
                   then Err (InvalidEnvelope
                          ''visibility transition event must use a group or channel scope'')
                   else Ok ()))"


section \<open>Applying an event\<close>

fun upsert_by_id :: "('a \<Rightarrow> 'k) \<Rightarrow> 'a list \<Rightarrow> 'a \<Rightarrow> 'a list" where
  "upsert_by_id key [] item = [item]"
| "upsert_by_id key (x # xs) item =
     (if key x = key item then item # xs else x # upsert_by_id key xs item)"

text \<open>The body of \<open>upsert_by_key\<close> is that of \<open>upsert_by_id\<close>.\<close>

definition upsert_by_key :: "('a \<Rightarrow> 'k) \<Rightarrow> 'a list \<Rightarrow> 'a \<Rightarrow> 'a list" where
  "upsert_by_key key items item = upsert_by_id key items item"

definition upsert_user :: "user_presence list \<Rightarrow> user_presence \<Rightarrow> user_presence list" where
  "upsert_user items item = upsert_by_id up_user_id items item"

fun upsert_membership :: "voice_membership list \<Rightarrow> voice_membership \<Rightarrow> voice_membership list" where
  "upsert_membership [] item = [item]"
| "upsert_membership (x # xs) item =
     (if vm_user_id x = vm_user_id item then item # xs else x # upsert_membership xs item)"

definition set_authority :: "voice_authority option \<Rightarrow> client_state \<Rightarrow> client_state" where
  "set_authority a st = st\<lparr>cs_self_user := (cs_self_user st)\<lparr>su_voice_authority := a\<rparr>\<rparr>"

definition delete_channel :: "snowflake \<Rightarrow> client_state \<Rightarrow> client_state" where
  "delete_channel i st =
     (let st' = st\<lparr>cs_channels := filter (\<lambda>c. ch_id c \<noteq> i) (cs_channels st),
                   cs_voice_memberships :=
                     filter (\<lambda>m. vm_channel_id m \<noteq> i) (cs_voice_memberships st)\<rparr>
      in case su_voice_authority (cs_self_user st) of
           Some a \<Rightarrow> if va_channel_id a = i then set_authority None st' else st'
         | None \<Rightarrow> st')"

definition apply_known_event ::
  "'v payload_decoders \<Rightarrow> client_state \<Rightarrow> 'v state_event \<Rightarrow> (client_state, state_apply_error) result" where
  "apply_known_event D st e =
     (let t = ev_event_type e
      in if t \<in> set [''group.created'', ''group.updated''] then
           map_ok (\<lambda>g. st\<lparr>cs_groups := upsert_by_id gr_id (cs_groups st) g\<rparr>) (payload (de_group D) e)
         else if t = ''group.deleted'' then
           map_ok (\<lambda>d. st\<lparr>cs_groups := filter (\<lambda>g. gr_id g \<noteq> et_entity_id d) (cs_groups st),
                          cs_channels :=
                            filter (\<lambda>c. ch_group_id c \<noteq> Some (et_entity_id d)) (cs_channels st)\<rparr>)
             (payload (de_entity_tombstone D) e)
         else if t \<in> set [''channel.created'', ''channel.updated''] then
           map_ok (\<lambda>c. st\<lparr>cs_channels := upsert_by_id ch_id (cs_channels st) c\<rparr>)
             (payload (de_channel D) e)
         else if t = ''channel.deleted'' then
           map_ok (\<lambda>d. delete_channel (et_entity_id d) st) (payload (de_entity_tombstone D) e)
         else if t = ''channel.member.joined'' then
           map_ok (\<lambda>j. st\<lparr>cs_voice_memberships :=
                       upsert_membership (cs_voice_memberships st) (me_membership j)\<rparr>)
             (payload (de_membership_envelope D) e)
         else if t = ''channel.member.left'' then
           map_ok (\<lambda>l. st\<lparr>cs_voice_memberships :=
                       filter (\<lambda>m. vm_user_id m \<noteq> mt_user_id l \<or> vm_channel_id m \<noteq> mt_channel_id l)
                         (cs_voice_memberships st)\<rparr>)
             (payload (de_membership_tombstone D) e)
         else if t \<in> set [''user.created'', ''user.updated'', ''presence.updated''] then
           map_ok (\<lambda>u. st\<lparr>cs_users := upsert_user (cs_users st) (ue_user u)\<rparr>)
             (payload (de_user_envelope D) e)
         else if t = ''user.deleted'' then
           map_ok (\<lambda>d. st\<lparr>cs_users := filter (\<lambda>u. up_user_id u \<noteq> ut_user_id d) (cs_users st)\<rparr>)
             (payload (de_user_tombstone D) e)
         else if t = ''self.updated'' then
           map_ok (\<lambda>s. st\<lparr>cs_self_user := se_self_state s\<rparr>) (payload (de_self_envelope D) e)
         else if t \<in> set [''rbac.role.created'', ''rbac.role.updated''] then
           map_ok (\<lambda>r. st\<lparr>cs_roles := upsert_by_key ro_key (cs_roles st) r\<rparr>) (payload (de_role D) e)
         else if t = ''rbac.role.deleted'' then
           map_ok (\<lambda>d. st\<lparr>cs_roles := filter (\<lambda>r. ro_key r \<noteq> rt_role_key d) (cs_roles st)\<rparr>)
             (payload (de_role_tombstone D) e)
         else if t = ''voice.authority.updated'' then
           map_ok (\<lambda>a. set_authority (ae_authority a) st) (payload (de_authority_envelope D) e)
         else if t \<in> set [''voice.revoked'', ''voice.disconnected'', ''voice.membership.updated''] then Ok st
         else if t \<in> set [''group.access.updated'', ''acl.updated'', ''channel.access.updated'',
                          ''rbac.binding.updated'', ''rbac.config.updated'', ''owner.transferred'',
                          ''moderation.mute.updated'', ''moderation.mute.removed'', ''server.updated'']
         then Ok st
         else if is_visibility_state_event t then Err (ApplySnapshotRequired t)
         else Err (UnknownEvent t))"


section \<open>The store\<close>

text \<open>
  \<open>store_events\<close> is what the event channel of the current generation has carried; a replacement
  snapshot starts a fresh channel under the next generation number.
\<close>

record 'v state_store =
  store_state :: client_state
  store_events :: "'v state_event list"
  store_generation :: u64

definition store_from_snapshot :: "state_snapshot \<Rightarrow> 'v state_store" where
  "store_from_snapshot s =
     \<lparr>store_state = from_snapshot s, store_events = [], store_generation = 0\<rparr>"

definition store_replace_snapshot ::
  "state_snapshot \<Rightarrow> 'v state_store \<Rightarrow> 'v state_store \<times> voice_authority option" where
  "store_replace_snapshot s store =
     (let replacement = from_snapshot s;
          previous = su_voice_authority (cs_self_user (store_state store));
          next_authority = su_voice_authority (cs_self_user replacement);
          voice_lost = (case (previous, next_authority) of
                          (Some p, Some n) \<Rightarrow> if p = n then None else Some p
                        | (Some p, None) \<Rightarrow> Some p
                        | (None, _) \<Rightarrow> None)
      in (\<lparr>store_state = replacement, store_events = [],
           store_generation = store_generation store + 1\<rparr>, voice_lost))"

definition store_update_cursor :: "cursor \<Rightarrow> 'v state_store \<Rightarrow> 'v state_store" where
  "store_update_cursor c store = store\<lparr>store_state := (store_state store)\<lparr>cs_cursor := c\<rparr>\<rparr>"

definition store_apply_event ::
  "'v payload_decoders \<Rightarrow> 'v state_event \<Rightarrow> 'v state_store
   \<Rightarrow> 'v state_store \<times> (unit, state_apply_error) result" where
  "store_apply_event D e store =
     (case and_then (validate_event e (store_state store))
             (\<lambda>_. apply_known_event D (store_state store) e) of
        Err x \<Rightarrow> (store, Err x)
      | Ok next_state \<Rightarrow>
          (store\<lparr>store_state := next_state\<lparr>cs_cursor := ev_cursor e, cs_geid := ev_geid e\<rparr>,
                 store_events := store_events store @ [e]\<rparr>, Ok ()))"

section \<open>Tables\<close>

text \<open>A list of entities as the finite map from key to entity it stands for.\<close>

definition table :: "('a \<Rightarrow> 'k) \<Rightarrow> 'a list \<Rightarrow> 'k \<rightharpoonup> 'a" where
  "table key xs = map_of (map (\<lambda>x. (key x, x)) xs)"

lemma table_simps [simp]:
  "table key [] = Map.empty"
  "table key (x # xs) = (table key xs)(key x \<mapsto> x)"
  by (simp_all add: table_def)

lemma table_None: "table key xs k = None \<longleftrightarrow> k \<notin> key ` set xs"
  by (induction xs) auto

lemma table_filter:
  "distinct (map key xs) \<Longrightarrow>
   table key (filter P xs) k = Option.bind (table key xs k) (\<lambda>x. if P x then Some x else None)"
  by (induction xs) (auto simp: table_None split: bind_splits)

lemma table_filter_key:
  "table key (filter (\<lambda>x. key x \<noteq> k) xs) = (table key xs)(k := None)"
  by (induction xs) (auto simp: fun_eq_iff)

lemma distinct_map_filter_key: "distinct (map key xs) \<Longrightarrow> distinct (map key (filter P xs))"
  by (simp add: distinct_map_filter)

text \<open>What the projection relies on in an upsert.\<close>

locale keyed_upsert =
  fixes key :: "'a \<Rightarrow> 'k" and put :: "'a list \<Rightarrow> 'a \<Rightarrow> 'a list"
  assumes put_table: "table key (put xs x) = (table key xs)(key x \<mapsto> x)"
    and put_distinct: "distinct (map key xs) \<Longrightarrow> distinct (map key (put xs x))"
begin

lemma put_idem: "table key (put (put xs x) x) = table key (put xs x)"
  by (simp add: put_table)

lemma put_last_wins: "key x = key y \<Longrightarrow> table key (put (put xs x) y) = table key (put xs y)"
  by (simp add: put_table)

lemma filter_put: "table key (filter (\<lambda>z. key z \<noteq> key x) (put xs x)) = (table key xs)(key x := None)"
  by (simp add: table_filter_key put_table)

end

lemma upsert_by_id_table: "table key (upsert_by_id key xs x) = (table key xs)(key x \<mapsto> x)"
  by (induction xs) (auto simp: fun_upd_twist)

lemma upsert_by_id_keys: "key ` set (upsert_by_id key xs x) = insert (key x) (key ` set xs)"
  by (induction xs) auto

lemma upsert_by_id_distinct:
  "distinct (map key xs) \<Longrightarrow> distinct (map key (upsert_by_id key xs x))"
proof (induction xs)
  case Nil
  show ?case by simp
next
  case (Cons y ys)
  then show ?case using upsert_by_id_keys [of key ys x] by auto
qed

lemma upsert_membership_eq: "upsert_membership xs x = upsert_by_id vm_user_id xs x"
  by (induction xs) auto

lemmas upsert_laws = upsert_by_id_table upsert_by_id_distinct

interpretation groups: keyed_upsert gr_id "upsert_by_id gr_id"
  by unfold_locales (fact upsert_laws)+

interpretation channels: keyed_upsert ch_id "upsert_by_id ch_id"
  by unfold_locales (fact upsert_laws)+

interpretation users: keyed_upsert up_user_id upsert_user
  by unfold_locales (simp_all add: upsert_user_def [abs_def] upsert_laws)

interpretation roles: keyed_upsert ro_key "upsert_by_key ro_key"
  by unfold_locales (simp_all add: upsert_by_key_def [abs_def] upsert_laws)

interpretation memberships: keyed_upsert vm_user_id upsert_membership
  by unfold_locales (simp_all add: upsert_membership_eq upsert_laws)


section \<open>Specification of the projection\<close>

text \<open>Each event, once decoded, is one change of five tables and the own state.\<close>

datatype change =
    PutGroup group | DeleteGroup snowflake
  | PutChannel channel | DeleteChannel snowflake
  | Join voice_membership | Leave snowflake snowflake
  | PutUser user_presence | DeleteUser snowflake
  | PutSelf self_user_state
  | PutRole role | DeleteRole string
  | PutAuthority "voice_authority option"
  | Keep

record tables =
  tb_self :: self_user_state
  tb_users :: "snowflake \<rightharpoonup> user_presence"
  tb_roles :: "string \<rightharpoonup> role"
  tb_groups :: "snowflake \<rightharpoonup> group"
  tb_channels :: "snowflake \<rightharpoonup> channel"
  tb_members :: "snowflake \<rightharpoonup> voice_membership"

definition tables_of :: "client_state \<Rightarrow> tables" where
  "tables_of st = \<lparr>tb_self = cs_self_user st, tb_users = table up_user_id (cs_users st),
     tb_roles = table ro_key (cs_roles st), tb_groups = table gr_id (cs_groups st),
     tb_channels = table ch_id (cs_channels st), tb_members = table vm_user_id (cs_voice_memberships st)\<rparr>"

definition keep_if :: "('a \<Rightarrow> bool) \<Rightarrow> ('k \<rightharpoonup> 'a) \<Rightarrow> 'k \<rightharpoonup> 'a" where
  "keep_if P m = (\<lambda>k. Option.bind (m k) (\<lambda>x. if P x then Some x else None))"

fun change_tables :: "change \<Rightarrow> tables \<Rightarrow> tables" where
  "change_tables (PutGroup g) t = t\<lparr>tb_groups := (tb_groups t)(gr_id g \<mapsto> g)\<rparr>"
| "change_tables (DeleteGroup i) t =
     t\<lparr>tb_groups := (tb_groups t)(i := None),
       tb_channels := keep_if (\<lambda>c. ch_group_id c \<noteq> Some i) (tb_channels t)\<rparr>"
| "change_tables (PutChannel c) t = t\<lparr>tb_channels := (tb_channels t)(ch_id c \<mapsto> c)\<rparr>"
| "change_tables (DeleteChannel i) t =
     t\<lparr>tb_channels := (tb_channels t)(i := None),
       tb_members := keep_if (\<lambda>m. vm_channel_id m \<noteq> i) (tb_members t),
       tb_self := (tb_self t)\<lparr>su_voice_authority :=
         Option.bind (su_voice_authority (tb_self t)) (\<lambda>a. if va_channel_id a = i then None else Some a)\<rparr>\<rparr>"
| "change_tables (Join m) t = t\<lparr>tb_members := (tb_members t)(vm_user_id m \<mapsto> m)\<rparr>"
| "change_tables (Leave u c) t =
     t\<lparr>tb_members := keep_if (\<lambda>m. vm_user_id m \<noteq> u \<or> vm_channel_id m \<noteq> c) (tb_members t)\<rparr>"
| "change_tables (PutUser u) t = t\<lparr>tb_users := (tb_users t)(up_user_id u \<mapsto> u)\<rparr>"
| "change_tables (DeleteUser i) t = t\<lparr>tb_users := (tb_users t)(i := None)\<rparr>"
| "change_tables (PutSelf s) t = t\<lparr>tb_self := s\<rparr>"
| "change_tables (PutRole r) t = t\<lparr>tb_roles := (tb_roles t)(ro_key r \<mapsto> r)\<rparr>"
| "change_tables (DeleteRole k) t = t\<lparr>tb_roles := (tb_roles t)(k := None)\<rparr>"
| "change_tables (PutAuthority a) t = t\<lparr>tb_self := (tb_self t)\<lparr>su_voice_authority := a\<rparr>\<rparr>"
| "change_tables Keep t = t"

text \<open>The change an event stands for, read off its type and payload alone.\<close>

definition event_change ::
  "'v payload_decoders \<Rightarrow> 'v state_event \<Rightarrow> (change, state_apply_error) result" where
  "event_change D e =
     (let t = ev_event_type e
      in if t \<in> set [''group.created'', ''group.updated''] then map_ok PutGroup (payload (de_group D) e)
         else if t = ''group.deleted''
         then map_ok (DeleteGroup \<circ> et_entity_id) (payload (de_entity_tombstone D) e)
         else if t \<in> set [''channel.created'', ''channel.updated'']
         then map_ok PutChannel (payload (de_channel D) e)
         else if t = ''channel.deleted''
         then map_ok (DeleteChannel \<circ> et_entity_id) (payload (de_entity_tombstone D) e)
         else if t = ''channel.member.joined''
         then map_ok (Join \<circ> me_membership) (payload (de_membership_envelope D) e)
         else if t = ''channel.member.left''
         then map_ok (\<lambda>l. Leave (mt_user_id l) (mt_channel_id l)) (payload (de_membership_tombstone D) e)
         else if t \<in> set [''user.created'', ''user.updated'', ''presence.updated'']
         then map_ok (PutUser \<circ> ue_user) (payload (de_user_envelope D) e)
         else if t = ''user.deleted''
         then map_ok (DeleteUser \<circ> ut_user_id) (payload (de_user_tombstone D) e)
         else if t = ''self.updated''
         then map_ok (PutSelf \<circ> se_self_state) (payload (de_self_envelope D) e)
         else if t \<in> set [''rbac.role.created'', ''rbac.role.updated'']
         then map_ok PutRole (payload (de_role D) e)
         else if t = ''rbac.role.deleted''
         then map_ok (DeleteRole \<circ> rt_role_key) (payload (de_role_tombstone D) e)
         else if t = ''voice.authority.updated''
         then map_ok (PutAuthority \<circ> ae_authority) (payload (de_authority_envelope D) e)
         else if is_visibility_state_event t then Err (ApplySnapshotRequired t)
         else if is_known_state_event t then Ok Keep
         else Err (UnknownEvent t))"

definition projection_inv :: "client_state \<Rightarrow> bool" where
  "projection_inv st \<longleftrightarrow>
     distinct (map up_user_id (cs_users st)) \<and> distinct (map ro_key (cs_roles st))
     \<and> distinct (map gr_id (cs_groups st)) \<and> distinct (map ch_id (cs_channels st))
     \<and> distinct (map vm_user_id (cs_voice_memberships st))"

section \<open>The projection implements its specification\<close>

fun change_state :: "change \<Rightarrow> client_state \<Rightarrow> client_state" where
  "change_state (PutGroup g) st = st\<lparr>cs_groups := upsert_by_id gr_id (cs_groups st) g\<rparr>"
| "change_state (DeleteGroup i) st =
     st\<lparr>cs_groups := filter (\<lambda>g. gr_id g \<noteq> i) (cs_groups st),
        cs_channels := filter (\<lambda>c. ch_group_id c \<noteq> Some i) (cs_channels st)\<rparr>"
| "change_state (PutChannel c) st = st\<lparr>cs_channels := upsert_by_id ch_id (cs_channels st) c\<rparr>"
| "change_state (DeleteChannel i) st = delete_channel i st"
| "change_state (Join m) st =
     st\<lparr>cs_voice_memberships := upsert_membership (cs_voice_memberships st) m\<rparr>"
| "change_state (Leave u c) st =
     st\<lparr>cs_voice_memberships :=
       filter (\<lambda>m. vm_user_id m \<noteq> u \<or> vm_channel_id m \<noteq> c) (cs_voice_memberships st)\<rparr>"
| "change_state (PutUser u) st = st\<lparr>cs_users := upsert_user (cs_users st) u\<rparr>"
| "change_state (DeleteUser i) st = st\<lparr>cs_users := filter (\<lambda>u. up_user_id u \<noteq> i) (cs_users st)\<rparr>"
| "change_state (PutSelf s) st = st\<lparr>cs_self_user := s\<rparr>"
| "change_state (PutRole r) st = st\<lparr>cs_roles := upsert_by_key ro_key (cs_roles st) r\<rparr>"
| "change_state (DeleteRole k) st = st\<lparr>cs_roles := filter (\<lambda>r. ro_key r \<noteq> k) (cs_roles st)\<rparr>"
| "change_state (PutAuthority a) st = set_authority a st"
| "change_state Keep st = st"

lemma map_ok_map_ok: "map_ok f (map_ok g r) = map_ok (f \<circ> g) r"
  by (cases r) simp_all

lemma map_ok_cong2: "(\<And>a. f a = g a) \<Longrightarrow> map_ok f r = map_ok g r"
  by (cases r) simp_all

lemma apply_known_event_change:
  "apply_known_event D st e = map_ok (\<lambda>c. change_state c st) (event_change D e)"
  unfolding apply_known_event_def event_change_def Let_def is_visibility_state_event_def
    is_visibility_scope_event_def is_known_state_event_def
  by (simp add: map_ok_map_ok comp_def)

lemma set_authority_same: "set_authority (su_voice_authority (cs_self_user st)) st = st"
  by (simp add: set_authority_def)

lemma change_state_inv: "projection_inv st \<Longrightarrow> projection_inv (change_state c st)"
  by (cases c)
    (simp_all add: projection_inv_def groups.put_distinct channels.put_distinct users.put_distinct
      roles.put_distinct memberships.put_distinct distinct_map_filter_key delete_channel_def
      set_authority_def Let_def split: option.splits)

lemma change_state_refines:
  assumes "projection_inv st"
  shows "tables_of (change_state c st) = change_tables c (tables_of st)"
  using assms
  by (cases c)
    (simp_all add: tables_of_def groups.put_table channels.put_table users.put_table
      roles.put_table memberships.put_table table_filter_key keep_if_def projection_inv_def
      table_filter delete_channel_def set_authority_def fun_eq_iff Let_def split: option.splits)

lemma change_state_position [simp]:
  "cs_geid (change_state c st) = cs_geid st" "cs_cursor (change_state c st) = cs_cursor st"
  "cs_stream_epoch (change_state c st) = cs_stream_epoch st"
  by (cases c; simp add: delete_channel_def set_authority_def Let_def split: option.splits)+

text \<open>
  Claim C5. Applying an event to the stored lists is applying its decoded change to the tables they
  stand for: upserts replace by key, deletions remove by key with their channels or members, and the
  key of every list stays unique. Events with no projection rule keep the tables; visibility and
  unknown events are refused, as is a payload that does not decode.
\<close>

theorem apply_known_event_refines:
  assumes "projection_inv st"
  shows "(case apply_known_event D st e of
            Ok st' \<Rightarrow> \<exists>c. event_change D e = Ok c \<and> tables_of st' = change_tables c (tables_of st)
                       \<and> projection_inv st' \<and> cs_geid st' = cs_geid st
          | Err x \<Rightarrow> event_change D e = Err x)"
  using change_state_refines [OF assms] change_state_inv [OF assms]
  by (cases "event_change D e") (simp_all add: apply_known_event_change)

definition sample_self :: self_user_state where
  "sample_self = \<lparr>su_user = \<lparr>us_id = Snowflake 1, us_username = ''u'', us_nickname = ''n'', us_avatar = None\<rparr>,
     su_server_role_keys = [], su_server_permissions = [],
     su_presence = \<lparr>pr_status = ''online'', pr_activity = None\<rparr>,
     su_voice_authority = Some \<lparr>va_channel_id = Snowflake 20, va_control_connection_id = FixedId [1],
        va_voice_session_id = FixedId [2], va_voice_authority_generation = ''1''\<rparr>\<rparr>"

definition sample_state :: client_state where
  "sample_state = \<lparr>cs_cursor = Cursor ''c'', cs_stream_epoch = FixedId [9], cs_geid = Geid 7,
     cs_state_version = ''1'', cs_server = \<lparr>sv_name = ''s'', sv_version = ''1''\<rparr>,
     cs_self_user = sample_self, cs_users = [], cs_roles = [],
     cs_groups = [\<lparr>gr_id = Snowflake 10, gr_name = ''g'', gr_position = 0, gr_visibility = ''public'',
                   gr_version = ''1''\<rparr>],
     cs_channels = [\<lparr>ch_id = Snowflake 20, ch_group_id = Some (Snowflake 10), ch_name = ''c'',
                     ch_mode = ''voice'', ch_temporary = False, ch_visibility = ''public'',
                     ch_capacity = 0, ch_position = 0, ch_pinned = False, ch_version = ''1''\<rparr>],
     cs_voice_memberships = [\<lparr>vm_user_id = Snowflake 1, vm_channel_id = Snowflake 20, vm_joined_at = 5\<rparr>]\<rparr>"

text \<open>A payload value that is itself an identifier, decoded only as a tombstone.\<close>

definition sample_decoders :: "u64 payload_decoders" where
  "sample_decoders = \<lparr>de_group = (\<lambda>v. Err ''group''), de_channel = (\<lambda>v. Err ''channel''),
     de_role = (\<lambda>v. Err ''role''), de_entity_tombstone = (\<lambda>v. Ok \<lparr>et_entity_id = Snowflake v\<rparr>),
     de_user_tombstone = (\<lambda>v. Ok \<lparr>ut_user_id = Snowflake v\<rparr>), de_role_tombstone = (\<lambda>v. Err ''role''),
     de_user_envelope = (\<lambda>v. Err ''user''), de_self_envelope = (\<lambda>v. Err ''self''),
     de_membership_envelope = (\<lambda>v. Err ''membership''),
     de_membership_tombstone = (\<lambda>v. Err ''membership''), de_authority_envelope = (\<lambda>v. Err ''authority'')\<rparr>"

definition delete_group_event :: "u64 state_event" where
  "delete_group_event = \<lparr>ev_frame_type = ''state.event'', ev_geid = Geid 8, ev_cursor = Cursor ''d'',
     ev_class = ''state'', ev_scope = \<lparr>sc_kind = ''group'', sc_id = Some (Snowflake 10)\<rparr>,
     ev_event_type = ''group.deleted'', ev_causation_id = None, ev_server_time = 0, ev_data = 10\<rparr>"

lemma sample_state_inv: "projection_inv sample_state"
  by (simp add: projection_inv_def sample_state_def)

theorem apply_known_event_refines_witness:
  "\<exists>st'. apply_known_event sample_decoders sample_state delete_group_event = Ok st'
     \<and> tables_of st' = change_tables (DeleteGroup (Snowflake 10)) (tables_of sample_state)"
proof -
  have "event_change sample_decoders delete_group_event = Ok (DeleteGroup (Snowflake 10))"
    by code_simp
  with apply_known_event_refines [OF sample_state_inv, of sample_decoders delete_group_event]
  show ?thesis by (auto split: result.splits)
qed

text \<open>
  The closed table of known events and the projection agree: an event is answered with
  \<open>UnknownEvent\<close> exactly when its type is not in the table, whatever its payload.
\<close>

theorem unknown_event_iff:
  "apply_known_event D st e = Err (UnknownEvent t) \<longleftrightarrow>
     t = ev_event_type e \<and> \<not> is_known_state_event (ev_event_type e)"
proof -
  have "payload dec e \<noteq> Err (UnknownEvent t)" for dec :: "'a \<Rightarrow> ('b, string) result"
    by (auto simp: payload_def res_simps)
  then show ?thesis
    by (auto simp: apply_known_event_change event_change_def Let_def res_simps payload_def
        is_known_state_event_def is_visibility_state_event_def is_visibility_scope_event_def)
qed



section \<open>The store\<close>

lemma store_apply_Ok:
  assumes "store_apply_event D e s = (s', Ok u)"
  shows "cs_geid (store_state s) < ev_geid e \<and> cs_geid (store_state s') = ev_geid e
     \<and> cs_cursor (store_state s') = ev_cursor e
     \<and> cs_stream_epoch (store_state s') = cs_stream_epoch (store_state s)
     \<and> store_events s' = store_events s @ [e] \<and> store_generation s' = store_generation s
     \<and> is_known_state_event (ev_event_type e) \<and> \<not> is_visibility_state_event (ev_event_type e)
     \<and> (\<exists>c. event_change D e = Ok c
            \<and> store_state s' = (change_state c (store_state s))\<lparr>cs_cursor := ev_cursor e, cs_geid := ev_geid e\<rparr>)"
proof -
  obtain c where v: "validate_event e (store_state s) = Ok ()" and c: "event_change D e = Ok c"
    and s': "s' = s\<lparr>store_state :=
        (change_state c (store_state s))\<lparr>cs_cursor := ev_cursor e, cs_geid := ev_geid e\<rparr>,
      store_events := store_events s @ [e]\<rparr>"
    using assms
    by (auto simp: store_apply_event_def apply_known_event_change res_simps split: result.splits)
  from v have "cs_geid (store_state s) < ev_geid e" "is_known_state_event (ev_event_type e)"
    by (auto simp: validate_event_def Let_def not_le split: if_splits)
  moreover from c have "\<not> is_visibility_state_event (ev_event_type e)"
    by (auto simp: event_change_def Let_def is_visibility_state_event_def
        is_visibility_scope_event_def split: if_splits)
  ultimately show ?thesis using c s' by auto
qed

lemma store_apply_Err: "store_apply_event D e s = (s', Err x) \<Longrightarrow> s' = s"
  by (auto simp: store_apply_event_def split: result.splits)

definition store_install ::
  "'v payload_decoders \<Rightarrow> 'v state_event \<Rightarrow> 'v state_store \<Rightarrow> 'v state_store \<times> bool" where
  "store_install D e s = (case store_apply_event D e s of (s', r) \<Rightarrow> (s', is_ok r))"

interpretation store: ordered_stream "\<lambda>s. cs_geid (store_state s)" ev_geid "store_install D" for D
proof
  fix e s s'
  show "cs_geid (store_state s) < ev_geid e \<and> cs_geid (store_state s') = ev_geid e"
    if "store_install D e s = (s', True)"
    using that store_apply_Ok by (fastforce simp: store_install_def res_simps split: prod.splits)
  show "cs_geid (store_state s') = cs_geid (store_state s)"
    if refused: "store_install D e s = (s', False)"
  proof -
    obtain r where r: "store_apply_event D e s = (s', r)" "\<not> is_ok r"
      using refused by (auto simp: store_install_def split: prod.splits)
    then show ?thesis by (cases r) (auto dest: store_apply_Err)
  qed
qed

text \<open>
  Applying an event is all or nothing. A refused event leaves the state, the event channel
  and the generation untouched; an accepted one has an identifier above the stored one, moves the
  position to it, keeps the epoch, publishes exactly that event, and is a known event that is not a
  visibility transition.
\<close>

theorem store_apply_atomic:
  "case store_apply_event D e s of
     (s', Err x) \<Rightarrow> s' = s
   | (s', Ok u) \<Rightarrow>
       cs_geid (store_state s) < ev_geid e \<and> cs_geid (store_state s') = ev_geid e
       \<and> cs_cursor (store_state s') = ev_cursor e
       \<and> cs_stream_epoch (store_state s') = cs_stream_epoch (store_state s)
       \<and> store_events s' = store_events s @ [e] \<and> store_generation s' = store_generation s
       \<and> is_known_state_event (ev_event_type e) \<and> \<not> is_visibility_state_event (ev_event_type e)"
  using store_apply_Ok store_apply_Err by (fastforce split: prod.splits result.splits)

datatype 'v store_call = StoreApply "'v state_event" | StoreCursor cursor | StoreReplace state_snapshot

fun store_op :: "'v payload_decoders \<Rightarrow> 'v store_call \<Rightarrow> 'v state_store \<Rightarrow> 'v state_store" where
  "store_op D (StoreApply e) s = fst (store_apply_event D e s)"
| "store_op D (StoreCursor c) s = store_update_cursor c s"
| "store_op D (StoreReplace n) s = fst (store_replace_snapshot n s)"

definition store_inv :: "'v state_store \<Rightarrow> bool" where
  "store_inv s \<longleftrightarrow>
     sorted_wrt (<) (map ev_geid (store_events s))
     \<and> (\<forall>e \<in> set (store_events s). ev_geid e \<le> cs_geid (store_state s))
     \<and> (store_events s \<noteq> [] \<longrightarrow> ev_geid (last (store_events s)) = cs_geid (store_state s))"

lemma store_apply_inv: "store_inv s \<Longrightarrow> store_inv (fst (store_apply_event D e s))"
proof (cases "snd (store_apply_event D e s)")
  case (Ok u)
  assume "store_inv s"
  with store_apply_Ok [of D e s "fst (store_apply_event D e s)" u] Ok show ?thesis
    by (auto simp: store_inv_def sorted_wrt_append prod_eq_iff)
next
  case (Err x)
  assume "store_inv s"
  with store_apply_Err [of D e s "fst (store_apply_event D e s)" x] Err show ?thesis
    by (simp add: prod_eq_iff)
qed

lemma store_op_inv: "store_inv s \<Longrightarrow> store_inv (store_op D op s)"
  by (cases op)
    (simp_all add: store_apply_inv, simp_all add: store_inv_def store_update_cursor_def
      store_replace_snapshot_def Let_def)

text \<open>
  Claim C16. Whatever sequence of events, cursor updates and replacement snapshots a store receives,
  the events its current channel has carried have strictly increasing identifiers and the last of
  them is the stored position, so no subscriber of a generation sees an event twice or out of order.
\<close>

theorem store_events_ordered: "store_inv (fold (store_op D) ops (store_from_snapshot s))"
proof -
  have "store_inv t \<Longrightarrow> store_inv (fold (store_op D) ops t)" for t
    by (induction ops arbitrary: t) (simp_all add: store_op_inv)
  then show ?thesis by (simp add: store_inv_def store_from_snapshot_def)
qed

end
