(* ===== verification/StateEvents.thy ===== *)
theory StateEvents
  imports Projection "HOL-Library.Sublist"
begin

text \<open>
  The event side of the state store: publishing on the channel of the current generation, the swap of
  that channel at a snapshot boundary, and \<open>StateEventReceiver\<close>, which follows the swaps. The channel of
  \<open>tokio::sync::broadcast\<close> is a parameter \<open>B\<close>; the receiver's call and the store's calls interleave at
  every read of the shared marker and every use of the channel. What is shown: which events a receiver
  hands out, and three ways in which it loses events or reports a closed store that is alive.
\<close>

section \<open>Channels\<close>

datatype try_recv_error = TryEmpty | TryClosed | TryLagged nat

record ('ch, 'rx, 'v) broadcast =
  bc_channel :: 'ch
  bc_send :: "'v state_event \<Rightarrow> 'ch \<Rightarrow> 'ch"
  bc_close :: "'ch \<Rightarrow> 'ch"
  bc_subscribe :: "'ch \<Rightarrow> 'rx"
  bc_try_recv :: "'ch \<Rightarrow> 'rx \<Rightarrow> 'rx \<times> ('v state_event, try_recv_error) result"

text \<open>
  What the documentation of the channel promises: a channel keeps the order of what is sent, a new receiver
  starts at the end, and a receiver takes one value after the other unless it is told that it lagged.
\<close>

definition broadcast_ok ::
  "('ch, 'rx, 'v) broadcast \<Rightarrow> ('ch \<Rightarrow> 'v state_event list) \<Rightarrow> ('rx \<Rightarrow> nat) \<Rightarrow> bool" where
  "broadcast_ok B sent cursor \<longleftrightarrow>
     sent (bc_channel B) = []
     \<and> (\<forall>e c. sent (bc_send B e c) = sent c @ [e])
     \<and> (\<forall>c. sent (bc_close B c) = sent c)
     \<and> (\<forall>c. cursor (bc_subscribe B c) = length (sent c))
     \<and> (\<forall>c r r' e. bc_try_recv B c r = (r', Ok e) \<longrightarrow>
          cursor r < length (sent c) \<and> e = sent c ! cursor r \<and> cursor r' = Suc (cursor r))
     \<and> (\<forall>c r r' x. bc_try_recv B c r = (r', Err x) \<longrightarrow> cursor r \<le> cursor r')"

text \<open>
  The shared fields of \<open>StateStore\<close>: the sender in the slot \<open>event_tx\<close> belongs to the last channel, the
  marker is a watch channel with a version, and \<open>hub_replacing\<close> is the marker value of a replacement that
  holds the write lock of the slot.
\<close>

record 'ch event_hub =
  hub_channels :: "'ch list"
  hub_generation :: u64
  hub_version :: nat
  hub_replacing :: "u64 option"
  hub_alive :: bool

definition hub_from_snapshot :: "('ch, 'rx, 'v) broadcast \<Rightarrow> 'ch event_hub" where
  "hub_from_snapshot B =
     \<lparr>hub_channels = [bc_channel B], hub_generation = 0, hub_version = 0, hub_replacing = None, hub_alive = True\<rparr>"

definition slot :: "'ch event_hub \<Rightarrow> nat" where
  "slot hub = length (hub_channels hub) - 1"

text \<open>Replacing the sender drops the old one, the last of its channel; the marker follows.\<close>

definition replace_swap :: "('ch, 'rx, 'v) broadcast \<Rightarrow> 'ch event_hub \<Rightarrow> 'ch event_hub" where
  "replace_swap B hub =
     (let next_generation = hub_generation hub + 1; i = slot hub
      in hub\<lparr>hub_channels := (hub_channels hub)[i := bc_close B (hub_channels hub ! i)] @ [bc_channel B],
             hub_replacing := Some next_generation\<rparr>)"

definition replace_mark :: "u64 \<Rightarrow> 'ch event_hub \<Rightarrow> 'ch event_hub" where
  "replace_mark g hub = hub\<lparr>hub_generation := g, hub_version := Suc (hub_version hub), hub_replacing := None\<rparr>"

definition publish_event :: "('ch, 'rx, 'v) broadcast \<Rightarrow> 'v state_event \<Rightarrow> 'ch event_hub \<Rightarrow> 'ch event_hub" where
  "publish_event B e hub =
     (let i = slot hub in hub\<lparr>hub_channels := (hub_channels hub)[i := bc_send B e (hub_channels hub ! i)]\<rparr>)"

definition drop_store :: "('ch, 'rx, 'v) broadcast \<Rightarrow> 'ch event_hub \<Rightarrow> 'ch event_hub" where
  "drop_store B hub =
     (let i = slot hub in hub\<lparr>hub_channels := (hub_channels hub)[i := bc_close B (hub_channels hub ! i)],
                              hub_alive := False\<rparr>)"


section \<open>Receivers\<close>

record 'rx event_receiver =
  er_channel :: nat
  er_receiver :: 'rx
  er_seen :: nat
  er_observed :: u64

definition receiver_new :: "('ch, 'rx, 'v) broadcast \<Rightarrow> 'ch event_hub \<Rightarrow> 'rx event_receiver" where
  "receiver_new B hub =
     \<lparr>er_channel = slot hub, er_receiver = bc_subscribe B (hub_channels hub ! slot hub),
      er_seen = hub_version hub, er_observed = hub_generation hub\<rparr>"

definition receiver_resubscribe ::
  "('ch, 'rx, 'v) broadcast \<Rightarrow> 'ch event_hub \<Rightarrow> 'rx event_receiver \<Rightarrow> 'rx event_receiver" where
  "receiver_resubscribe B hub r =
     (let k = (if hub_alive hub then slot hub else er_channel r)
      in r\<lparr>er_channel := k, er_receiver := bc_subscribe B (hub_channels hub ! k),
           er_observed := hub_generation hub\<rparr>)"

text \<open>The part of \<open>refresh_generation\<close> after a new marker \<open>g\<close> was read; it needs the lock of the slot.\<close>

definition refresh_locked ::
  "('ch, 'rx, 'v) broadcast \<Rightarrow> u64 \<Rightarrow> 'ch event_hub \<Rightarrow> 'rx event_receiver \<Rightarrow> 'rx event_receiver option" where
  "refresh_locked B g hub r =
     (if hub_alive hub
      then Some (r\<lparr>er_channel := slot hub, er_receiver := bc_subscribe B (hub_channels hub ! slot hub),
                   er_observed := g\<rparr>)
      else None)"

datatype recv_call = Recv | TryRecv

text \<open>
  Where a call is: at the top of its loop; in \<open>refresh_generation\<close> with a new marker (and whether the loop
  then goes on or starts again); before receiving; before a refresh that ends the round; before the
  comparison of the markers; returned.
\<close>

datatype 'v recv_pc =
    RvIdle
  | RvTop recv_call
  | RvRefresh recv_call u64 bool
  | RvReceive recv_call
  | RvAgain recv_call
  | RvCheck recv_call "('v state_event, try_recv_error) result"
  | RvDone "('v state_event, try_recv_error) result"

record ('ch, 'rx, 'v) event_sys =
  es_hub :: "'ch event_hub"
  es_rx :: "'rx event_receiver"
  es_pc :: "'v recv_pc"
  es_out :: "(nat \<times> 'v state_event) list"

definition events_start :: "('ch, 'rx, 'v) broadcast \<Rightarrow> ('ch, 'rx, 'v) event_sys" where
  "events_start B =
     \<lparr>es_hub = hub_from_snapshot B, es_rx = receiver_new B (hub_from_snapshot B), es_pc = RvIdle, es_out = []\<rparr>"

text \<open>A result goes to the caller; \<open>es_out\<close> keeps the events handed out with their channels.\<close>

definition return_result ::
  "('v state_event, try_recv_error) result \<Rightarrow> ('ch, 'rx, 'v) event_sys \<Rightarrow> ('ch, 'rx, 'v) event_sys" where
  "return_result r s =
     s\<lparr>es_pc := RvDone r,
       es_out := (case r of Ok e \<Rightarrow> es_out s @ [(er_channel (es_rx s), e)] | Err _ \<Rightarrow> es_out s)\<rparr>"

definition read_marker :: "recv_call \<Rightarrow> bool \<Rightarrow> ('ch, 'rx, 'v) event_sys \<Rightarrow> ('ch, 'rx, 'v) event_sys" where
  "read_marker c go s =
     (let generation = hub_generation (es_hub s)
      in s\<lparr>es_pc := (if generation = er_observed (es_rx s) then (if go then RvReceive c else RvTop c)
                     else RvRefresh c generation go)\<rparr>)"

definition receive_step ::
  "('ch, 'rx, 'v) broadcast \<Rightarrow> recv_call \<Rightarrow> ('ch, 'rx, 'v) event_sys \<Rightarrow> ('ch, 'rx, 'v) event_sys option" where
  "receive_step B c s =
     (case bc_try_recv B (hub_channels (es_hub s) ! er_channel (es_rx s)) (er_receiver (es_rx s)) of
        (rx, res) \<Rightarrow>
          let s' = s\<lparr>es_rx := (es_rx s)\<lparr>er_receiver := rx\<rparr>\<rparr>
          in case (c, res) of
               (Recv, Err TryEmpty) \<Rightarrow> None
             | (Recv, _) \<Rightarrow> Some (s'\<lparr>es_pc := RvCheck Recv res\<rparr>)
             | (TryRecv, Ok _) \<Rightarrow> Some (s'\<lparr>es_pc := RvCheck TryRecv res\<rparr>)
             | (TryRecv, Err _) \<Rightarrow> Some (return_result res s'))"

text \<open>The next step of the call in progress; \<open>None\<close> when it has to wait.\<close>

definition poll_step :: "('ch, 'rx, 'v) broadcast \<Rightarrow> ('ch, 'rx, 'v) event_sys \<Rightarrow> ('ch, 'rx, 'v) event_sys option" where
  "poll_step B s =
     (case es_pc s of
        RvTop c \<Rightarrow> Some (read_marker c True s)
      | RvAgain c \<Rightarrow> Some (read_marker c False s)
      | RvRefresh c g go \<Rightarrow>
          if hub_replacing (es_hub s) \<noteq> None then None
          else (case refresh_locked B g (es_hub s) (es_rx s) of
                  None \<Rightarrow> Some (return_result (Err TryClosed) s)
                | Some r \<Rightarrow> Some (s\<lparr>es_rx := r, es_pc := (if go then RvReceive c else RvTop c)\<rparr>))
      | RvReceive c \<Rightarrow> receive_step B c s
      | RvCheck c res \<Rightarrow>
          Some (if hub_generation (es_hub s) \<noteq> er_observed (es_rx s) then s\<lparr>es_pc := RvAgain c\<rparr>
                else return_result res s)
      | _ \<Rightarrow> None)"

text \<open>The other branch of the \<open>select!\<close> in \<open>recv\<close>: the marker was sent again, or its sender is gone.\<close>

definition changed_step :: "('ch, 'rx, 'v) event_sys \<Rightarrow> ('ch, 'rx, 'v) event_sys option" where
  "changed_step s =
     (case es_pc s of
        RvReceive Recv \<Rightarrow>
          if er_seen (es_rx s) \<noteq> hub_version (es_hub s)
          then Some (s\<lparr>es_rx := (es_rx s)\<lparr>er_seen := hub_version (es_hub s)\<rparr>, es_pc := RvAgain Recv\<rparr>)
          else if hub_alive (es_hub s) then None else Some (return_result (Err TryClosed) s)
      | _ \<Rightarrow> None)"

definition call_idle :: "('ch, 'rx, 'v) event_sys \<Rightarrow> bool" where
  "call_idle s = (case es_pc s of RvIdle \<Rightarrow> True | RvDone _ \<Rightarrow> True | _ \<Rightarrow> False)"

definition store_free :: "('ch, 'rx, 'v) event_sys \<Rightarrow> bool" where
  "store_free s \<longleftrightarrow> hub_alive (es_hub s) \<and> hub_replacing (es_hub s) = None"

datatype 'v event_label =
    ReplaceSwap | ReplaceMark | Publish "'v state_event" | DropStore
  | Call recv_call | Resubscribe | Poll | MarkerChanged

fun events_do ::
  "('ch, 'rx, 'v) broadcast \<Rightarrow> 'v event_label \<Rightarrow> ('ch, 'rx, 'v) event_sys \<Rightarrow> ('ch, 'rx, 'v) event_sys option" where
  "events_do B ReplaceSwap s = (if store_free s then Some (s\<lparr>es_hub := replace_swap B (es_hub s)\<rparr>) else None)"
| "events_do B ReplaceMark s =
     map_option (\<lambda>g. s\<lparr>es_hub := replace_mark g (es_hub s)\<rparr>) (hub_replacing (es_hub s))"
| "events_do B (Publish e) s = (if store_free s then Some (s\<lparr>es_hub := publish_event B e (es_hub s)\<rparr>) else None)"
| "events_do B DropStore s = (if store_free s then Some (s\<lparr>es_hub := drop_store B (es_hub s)\<rparr>) else None)"
| "events_do B (Call c) s = (if call_idle s then Some (s\<lparr>es_pc := RvTop c\<rparr>) else None)"
| "events_do B Resubscribe s =
     (if call_idle s \<and> hub_replacing (es_hub s) = None
      then Some (s\<lparr>es_rx := receiver_resubscribe B (es_hub s) (es_rx s)\<rparr>) else None)"
| "events_do B Poll s = poll_step B s"
| "events_do B MarkerChanged s = changed_step s"

inductive events_reachable :: "('ch, 'rx, 'v) broadcast \<Rightarrow> ('ch, 'rx, 'v) event_sys \<Rightarrow> bool" for B where
  start: "events_reachable B (events_start B)"
| step: "events_reachable B s \<Longrightarrow> events_do B l s = Some s' \<Longrightarrow> events_reachable B s'"


section \<open>Generations\<close>

text \<open>The marker counts the swaps; it is one behind while a replacement is between its two steps.\<close>

definition hub_inv :: "'ch event_hub \<Rightarrow> bool" where
  "hub_inv hub \<longleftrightarrow> hub_channels hub \<noteq> [] \<and> hub_generation hub = of_nat (hub_version hub)
     \<and> (case hub_replacing hub of
          None \<Rightarrow> slot hub = hub_version hub
        | Some g \<Rightarrow> slot hub = Suc (hub_version hub) \<and> g = of_nat (Suc (hub_version hub)))"

lemmas hub_defs = replace_swap_def replace_mark_def publish_event_def drop_store_def Let_def

lemma hub_inv_start: "hub_inv (hub_from_snapshot B)"
  by (simp add: hub_inv_def hub_from_snapshot_def slot_def)

lemma hub_inv_replace_swap:
  "hub_inv hub \<Longrightarrow> hub_replacing hub = None \<Longrightarrow> hub_inv (replace_swap B hub)"
  by (auto simp: hub_inv_def hub_defs slot_def simp flip: length_greater_0_conv)

lemma hub_inv_others:
  "hub_inv hub \<Longrightarrow> hub_replacing hub = Some g \<Longrightarrow> hub_inv (replace_mark g hub)"
  "hub_inv hub \<Longrightarrow> hub_inv (publish_event B e hub)"
  "hub_inv hub \<Longrightarrow> hub_inv (drop_store B hub)"
  by (auto simp: hub_inv_def hub_defs slot_def split: option.splits)

text \<open>What a step does to the three parts of the system.\<close>

lemma events_do_cases:
  assumes "events_do B l s = Some s'"
  obtains (store) hub where "s' = s\<lparr>es_hub := hub\<rparr>"
      "(hub = replace_swap B (es_hub s) \<and> store_free s) \<or>
       (\<exists>g. hub = replace_mark g (es_hub s) \<and> hub_replacing (es_hub s) = Some g) \<or>
       (\<exists>e. hub = publish_event B e (es_hub s) \<and> store_free s) \<or> (hub = drop_store B (es_hub s) \<and> store_free s)"
  | (move) p where "s' = s\<lparr>es_pc := p\<rparr>" "\<And>c r. p \<noteq> RvCheck c r"
      "\<And>c g go. p = RvRefresh c g go \<Longrightarrow> g = hub_generation (es_hub s)"
  | (seen) v where "s' = s\<lparr>es_rx := (es_rx s)\<lparr>er_seen := v\<rparr>, es_pc := RvAgain Recv\<rparr>"
  | (fresh) g p where "s' = s\<lparr>es_rx := (es_rx s)\<lparr>er_channel := slot (es_hub s),
        er_receiver := bc_subscribe B (hub_channels (es_hub s) ! slot (es_hub s)), er_observed := g\<rparr>, es_pc := p\<rparr>"
      "store_free s" "\<And>c r. p \<noteq> RvCheck c r" "\<And>c h go. p \<noteq> RvRefresh c h go"
      "g = hub_generation (es_hub s) \<or> (\<exists>c go. es_pc s = RvRefresh c g go)"
  | (orphan) "s' = s\<lparr>es_rx := (es_rx s)\<lparr>er_receiver := bc_subscribe B (hub_channels (es_hub s) ! er_channel (es_rx s)),
        er_observed := hub_generation (es_hub s)\<rparr>\<rparr>" "\<not> hub_alive (es_hub s)" "call_idle s"
  | (received) rx r c where "bc_try_recv B (hub_channels (es_hub s) ! er_channel (es_rx s)) (er_receiver (es_rx s)) = (rx, r)"
      "s' = s\<lparr>es_rx := (es_rx s)\<lparr>er_receiver := rx\<rparr>, es_pc := RvCheck c r\<rparr>
       \<or> (\<exists>x. r = Err x \<and> s' = s\<lparr>es_rx := (es_rx s)\<lparr>er_receiver := rx\<rparr>, es_pc := RvDone r\<rparr>)"
      "es_pc s = RvReceive c"
  | (handed) c e where "s' = s\<lparr>es_pc := RvDone (Ok e), es_out := es_out s @ [(er_channel (es_rx s), e)]\<rparr>"
      "es_pc s = RvCheck c (Ok e)" "hub_generation (es_hub s) = er_observed (es_rx s)"
proof (cases l)
  case (Call c)
  then show thesis using assms by (intro move [of "RvTop c"]) (auto split: if_splits)
next
  case Resubscribe
  show thesis
  proof (cases "hub_alive (es_hub s)")
    case True
    then show thesis
      using assms Resubscribe
      by (intro fresh [where g = "hub_generation (es_hub s)" and p = "es_pc s"])
        (auto simp: receiver_resubscribe_def store_free_def call_idle_def Let_def split: if_splits)
  next
    case False
    then show thesis
      using assms Resubscribe
      by (intro orphan) (auto simp: receiver_resubscribe_def Let_def split: if_splits)
  qed
next
  case MarkerChanged
  show thesis
  proof (cases "es_pc s = RvReceive Recv \<and> er_seen (es_rx s) \<noteq> hub_version (es_hub s)")
    case True
    then show thesis using assms MarkerChanged by (intro seen) (auto simp: changed_step_def)
  next
    case False
    then show thesis using assms MarkerChanged
      by (intro move [of "RvDone (Err TryClosed)"])
        (auto simp: changed_step_def return_result_def split: recv_pc.splits recv_call.splits if_splits)
  qed
next
  case Poll
  then have poll: "poll_step B s = Some s'" using assms by simp
  show thesis
  proof (cases "es_pc s")
    case (RvTop c)
    then show thesis
      using poll by (intro move [of "es_pc s'"]) (auto simp: poll_step_def read_marker_def Let_def split: if_splits)
  next
    case (RvAgain c)
    then show thesis
      using poll by (intro move [of "es_pc s'"]) (auto simp: poll_step_def read_marker_def Let_def split: if_splits)
  next
    case (RvRefresh c g go)
    show thesis
    proof (cases "hub_alive (es_hub s)")
      case True
      then show thesis
        using poll RvRefresh
        by (intro fresh [where g = g and p = "es_pc s'"])
          (auto simp: poll_step_def refresh_locked_def store_free_def split: if_splits)
    next
      case False
      then show thesis
        using poll RvRefresh
        by (intro move [of "RvDone (Err TryClosed)"])
          (auto simp: poll_step_def refresh_locked_def return_result_def split: if_splits)
    qed
  next
    case (RvReceive c)
    obtain rx r where r: "bc_try_recv B (hub_channels (es_hub s) ! er_channel (es_rx s)) (er_receiver (es_rx s)) = (rx, r)"
      by fastforce
    show thesis
      using poll RvReceive r
      by (intro received [OF r, of c])
        (auto simp: poll_step_def receive_step_def return_result_def Let_def
          split: recv_call.splits result.splits try_recv_error.splits)
  next
    case (RvCheck c r)
    show thesis
    proof (cases "hub_generation (es_hub s) = er_observed (es_rx s)")
      case True
      show thesis
      proof (cases r)
        case (Ok e)
        then show thesis using poll RvCheck True
          by (intro handed) (auto simp: poll_step_def return_result_def)
      next
        case (Err x)
        then show thesis using poll RvCheck True
          by (intro move [of "RvDone r"]) (auto simp: poll_step_def return_result_def)
      qed
    next
      case False
      then show thesis using poll RvCheck by (intro move [of "RvAgain c"]) (auto simp: poll_step_def)
    qed
  qed (use poll in \<open>simp_all add: poll_step_def\<close>)
qed (use assms in \<open>auto intro: store split: if_splits\<close>)


text \<open>The store only extends what its channels have carried, and a dropped store does nothing.\<close>

lemma hub_grows:
  assumes "broadcast_ok B sent cursor" "hub_inv (es_hub s)"
    and "(hub = replace_swap B (es_hub s) \<and> store_free s) \<or>
       (\<exists>g. hub = replace_mark g (es_hub s) \<and> hub_replacing (es_hub s) = Some g) \<or>
       (\<exists>e. hub = publish_event B e (es_hub s) \<and> store_free s) \<or> (hub = drop_store B (es_hub s) \<and> store_free s)"
  shows "hub_inv hub" "hub_version (es_hub s) \<le> hub_version hub"
    "length (hub_channels (es_hub s)) \<le> length (hub_channels hub)"
    "k < length (hub_channels (es_hub s)) \<Longrightarrow> prefix (sent (hub_channels (es_hub s) ! k)) (sent (hub_channels hub ! k))"
    "\<not> hub_alive (es_hub s) \<Longrightarrow> \<not> hub_alive hub \<and> hub_channels hub = hub_channels (es_hub s)"
proof -
  note sent = assms(1) [unfolded broadcast_ok_def]
  show "hub_inv hub"
    using assms(2,3) hub_inv_replace_swap [OF assms(2)] hub_inv_others [OF assms(2)] by (auto simp: store_free_def)
  show "hub_version (es_hub s) \<le> hub_version hub" "length (hub_channels (es_hub s)) \<le> length (hub_channels hub)"
    "\<not> hub_alive (es_hub s) \<Longrightarrow> \<not> hub_alive hub \<and> hub_channels hub = hub_channels (es_hub s)"
    using assms(3) by (auto simp: hub_defs store_free_def)
  show "prefix (sent (hub_channels (es_hub s) ! k)) (sent (hub_channels hub ! k))"
    if "k < length (hub_channels (es_hub s))"
    using assms(3) sent that by (cases "k = slot (es_hub s)") (auto simp: hub_defs nth_append)
qed

text \<open>
  The channel of a receiver is never older than the marker it observed, unless the store is gone and the
  receiver is at the end of what it can get.
\<close>

definition receiver_inv :: "('ch \<Rightarrow> 'v state_event list) \<Rightarrow> ('rx \<Rightarrow> nat) \<Rightarrow> ('ch, 'rx, 'v) event_sys \<Rightarrow> bool" where
  "receiver_inv sent cursor s \<longleftrightarrow>
     hub_inv (es_hub s) \<and> er_channel (es_rx s) \<le> hub_version (es_hub s)
     \<and> (\<forall>c g go. es_pc s = RvRefresh c g go \<longrightarrow> (\<exists>m \<le> hub_version (es_hub s). g = of_nat m))
     \<and> ((\<exists>m \<le> er_channel (es_rx s). er_observed (es_rx s) = of_nat m)
        \<or> (\<not> hub_alive (es_hub s) \<and> (\<forall>c e. es_pc s \<noteq> RvCheck c (Ok e))
           \<and> length (sent (hub_channels (es_hub s) ! er_channel (es_rx s))) \<le> cursor (er_receiver (es_rx s))))"

lemma version_slot: "hub_inv hub \<Longrightarrow> hub_version hub \<le> slot hub \<and> slot hub < length (hub_channels hub)"
  by (cases "hub_channels hub") (auto simp: hub_inv_def slot_def split: option.splits)

lemma free_slot: "hub_inv (es_hub s) \<Longrightarrow> store_free s \<Longrightarrow> slot (es_hub s) = hub_version (es_hub s)"
  by (simp add: hub_inv_def store_free_def)

lemma receiver_inv_step:
  assumes "broadcast_ok B sent cursor" "events_do B l s = Some s'" "receiver_inv sent cursor s"
  shows "receiver_inv sent cursor s'"
proof -
  have inv: "hub_inv (es_hub s)" "er_channel (es_rx s) \<le> hub_version (es_hub s)"
    "\<And>c g go. es_pc s = RvRefresh c g go \<Longrightarrow> \<exists>m \<le> hub_version (es_hub s). g = of_nat m"
    using assms(3) unfolding receiver_inv_def by blast+
  have gen: "hub_generation (es_hub s) = of_nat (hub_version (es_hub s))" using inv(1) by (simp add: hub_inv_def)
  show ?thesis
    using assms(2)
  proof (cases rule: events_do_cases)
    case (store hub)
    note grows = hub_grows [OF assms(1) inv(1) store(2)]
    have marker: "\<exists>m \<le> hub_version hub. g = of_nat m" if "es_pc s = RvRefresh c g go" for c g go
      using inv(3) [OF that] grows(2) le_trans by blast
    have bound: "er_channel (es_rx s) \<le> hub_version hub" using inv(2) grows(2) by simp
    have fields: "es_hub s' = hub" "es_rx s' = es_rx s" "es_pc s' = es_pc s" using store(1) by simp_all
    have "(\<exists>m \<le> er_channel (es_rx s). er_observed (es_rx s) = of_nat m)
        \<or> (\<not> hub_alive hub \<and> (\<forall>c e. es_pc s \<noteq> RvCheck c (Ok e))
           \<and> length (sent (hub_channels hub ! er_channel (es_rx s))) \<le> cursor (er_receiver (es_rx s)))"
      using assms(3) grows(5) by (auto simp: receiver_inv_def)
    then show ?thesis using grows(1) marker bound unfolding receiver_inv_def fields by blast
  next
    case (move p)
    then show ?thesis using assms(3) gen by (auto simp: receiver_inv_def)
  next
    case (seen v)
    then show ?thesis using assms(3) by (auto simp: receiver_inv_def)
  next
    case (fresh g p)
    have "\<exists>m \<le> hub_version (es_hub s). g = of_nat m" using fresh(5) inv(3) gen by auto
    then show ?thesis using fresh(1,3,4) inv(1) free_slot [OF inv(1) fresh(2)] by (auto simp: receiver_inv_def)
  next
    case orphan
    then show ?thesis
      using assms(1) inv by (auto simp: receiver_inv_def broadcast_ok_def call_idle_def)
  next
    case (received rx r c)
    have adv: "cursor (er_receiver (es_rx s)) \<le> cursor rx"
      "r = Ok e \<Longrightarrow> cursor (er_receiver (es_rx s)) < length (sent (hub_channels (es_hub s) ! er_channel (es_rx s)))" for e
      using assms(1) received(1) by (cases r; auto simp: broadcast_ok_def; fastforce)+
    show ?thesis
      using received(2) assms(3) adv by (cases r) (auto simp: receiver_inv_def received(3))
  next
    case (handed c e)
    then show ?thesis using assms(3) by (auto simp: receiver_inv_def)
  qed
qed


section \<open>What a receiver hands out\<close>

definition from_channel :: "nat \<Rightarrow> (nat \<times> 'v state_event) list \<Rightarrow> 'v state_event list" where
  "from_channel k out = map snd (filter (\<lambda>p. fst p = k) out)"

lemma from_channel_simps [simp]:
  "from_channel k [] = []"
  "from_channel k (out @ [(j, e)]) = (if j = k then from_channel k out @ [e] else from_channel k out)"
  by (simp_all add: from_channel_def)

lemma from_channel_none: "\<forall>p \<in> set out. fst p < k \<Longrightarrow> from_channel k out = []"
  by (auto simp: from_channel_def filter_empty_conv)

definition pending_event :: "'v recv_pc \<Rightarrow> 'v state_event list" where
  "pending_event p = (case p of RvCheck c (Ok e) \<Rightarrow> [e] | _ \<Rightarrow> [])"

lemma pending_none: "(\<And>c r. p \<noteq> RvCheck c r) \<Longrightarrow> pending_event p = []"
  by (auto simp: pending_event_def split: recv_pc.splits)

lemma pending_simps [simp]:
  "pending_event (RvCheck c (Ok e)) = [e]" "pending_event (RvCheck c (Err x)) = []"
  "pending_event (RvDone r) = []" "pending_event (RvAgain c) = []" "pending_event (RvReceive c) = []"
  by (simp_all add: pending_event_def)

lemma subseq_prefix: "subseq xs ys \<Longrightarrow> prefix ys zs \<Longrightarrow> subseq xs zs"
  using subseq_order.order_trans prefix_imp_subseq by blast

lemma prefix_take: "prefix ys zs \<Longrightarrow> prefix (take n ys) (take n zs)"
  by (auto simp: prefix_def)

lemma subseq_left: "subseq (xs @ ys) zs \<Longrightarrow> subseq xs zs"
  using subseq_prefix subseq_order.order_trans prefixI prefix_imp_subseq by blast

definition delivery_inv :: "('ch \<Rightarrow> 'v state_event list) \<Rightarrow> ('rx \<Rightarrow> nat) \<Rightarrow> ('ch, 'rx, 'v) event_sys \<Rightarrow> bool" where
  "delivery_inv sent cursor s \<longleftrightarrow>
     (let chans = hub_channels (es_hub s); k = er_channel (es_rx s)
      in (\<forall>j < length chans. subseq (from_channel j (es_out s)) (sent (chans ! j)))
       \<and> subseq (from_channel k (es_out s) @ pending_event (es_pc s)) (take (cursor (er_receiver (es_rx s))) (sent (chans ! k)))
       \<and> sorted (map fst (es_out s)) \<and> (\<forall>p \<in> set (es_out s). fst p \<le> k))"

lemma delivery_inv_store:
  assumes "delivery_inv sent cursor s" "es_rx s' = es_rx s" "es_pc s' = es_pc s" "es_out s' = es_out s"
    and "er_channel (es_rx s) < length (hub_channels (es_hub s))"
    and "\<And>k. k < length (hub_channels (es_hub s)) \<Longrightarrow>
          prefix (sent (hub_channels (es_hub s) ! k)) (sent (hub_channels (es_hub s') ! k))"
  shows "delivery_inv sent cursor s'"
proof -
  let ?k = "er_channel (es_rx s)"
  note inv = assms(1) [unfolded delivery_inv_def Let_def]
  have "subseq (from_channel j (es_out s)) (sent (hub_channels (es_hub s') ! j))" if "j < length (hub_channels (es_hub s'))" for j
  proof (cases "j < length (hub_channels (es_hub s))")
    case True
    then show ?thesis using inv assms(6) subseq_prefix by blast
  next
    case False
    then have "from_channel j (es_out s) = []" using inv assms(5) by (intro from_channel_none) auto
    then show ?thesis by simp
  qed
  moreover have "subseq (from_channel ?k (es_out s) @ pending_event (es_pc s))
      (take (cursor (er_receiver (es_rx s))) (sent (hub_channels (es_hub s') ! ?k)))"
    using inv subseq_prefix [OF _ prefix_take [OF assms(6) [OF assms(5)]]] by blast
  ultimately show ?thesis using inv assms(2-4) by (auto simp: delivery_inv_def Let_def)
qed

text \<open>A fresh subscription to a channel that is not older starts at the end of that channel.\<close>

lemma delivery_inv_fresh:
  assumes "delivery_inv sent cursor s" "es_hub s' = es_hub s" "es_out s' = es_out s" "pending_event (es_pc s') = []"
    and "er_channel (es_rx s) \<le> er_channel (es_rx s')" "er_channel (es_rx s') < length (hub_channels (es_hub s))"
    and "cursor (er_receiver (es_rx s')) = length (sent (hub_channels (es_hub s) ! er_channel (es_rx s')))"
  shows "delivery_inv sent cursor s'"
  using assms by (fastforce simp: delivery_inv_def Let_def)

lemma delivery_inv_step:
  assumes "broadcast_ok B sent cursor" "events_do B l s = Some s'" "receiver_inv sent cursor s" "delivery_inv sent cursor s"
  shows "delivery_inv sent cursor s'"
proof -
  let ?k = "er_channel (es_rx s)" and ?ch = "hub_channels (es_hub s)"
  have inv: "hub_inv (es_hub s)" "?k \<le> hub_version (es_hub s)" using assms(3) unfolding receiver_inv_def by blast+
  have k: "?k < length ?ch" "?k \<le> slot (es_hub s)" "slot (es_hub s) < length ?ch"
    using inv version_slot [OF inv(1)] by auto
  have cursor: "cursor (bc_subscribe B c) = length (sent c)" for c using assms(1) by (simp add: broadcast_ok_def)
  note d = assms(4) [unfolded delivery_inv_def Let_def]
  show ?thesis
    using assms(2)
  proof (cases rule: events_do_cases)
    case (store hub)
    show ?thesis
      by (rule delivery_inv_store [OF assms(4) _ _ _ k(1)]) (use store hub_grows(4) [OF assms(1) inv(1) store(2)] in simp_all)
  next
    case (move p)
    then show ?thesis using d pending_none [of p] subseq_left by (auto simp: delivery_inv_def Let_def)
  next
    case (seen v)
    then show ?thesis using d subseq_left by (auto simp: delivery_inv_def Let_def)
  next
    case (fresh g p)
    then show ?thesis by (intro delivery_inv_fresh [OF assms(4)]) (use k cursor pending_none [of p] in auto)
  next
    case orphan
    then have "pending_event (es_pc s) = []" by (intro pending_none) (auto simp: call_idle_def)
    then show ?thesis using orphan(1) by (intro delivery_inv_fresh [OF assms(4)]) (use k cursor in auto)
  next
    case (received rx r c)
    show ?thesis
    proof (cases r)
      case (Ok e)
      have "cursor (er_receiver (es_rx s)) < length (sent (?ch ! ?k))" "e = sent (?ch ! ?k) ! cursor (er_receiver (es_rx s))"
        "cursor rx = Suc (cursor (er_receiver (es_rx s)))"
        using assms(1) received(1) Ok unfolding broadcast_ok_def by blast+
      then show ?thesis
        using d received(2,3) Ok by (auto simp: delivery_inv_def Let_def take_Suc_conv_app_nth)
    next
      case (Err x)
      then have "cursor (er_receiver (es_rx s)) \<le> cursor rx" using assms(1) received(1) unfolding broadcast_ok_def by blast
      then have "prefix (take (cursor (er_receiver (es_rx s))) (sent (?ch ! ?k))) (take (cursor rx) (sent (?ch ! ?k)))"
        by (metis min.absorb1 take_is_prefix take_take)
      then have "subseq (from_channel ?k (es_out s)) (take (cursor rx) (sent (?ch ! ?k)))"
        using d received(3) subseq_prefix by auto
      then show ?thesis using d received(2) Err by (elim disjE exE conjE) (simp_all add: delivery_inv_def Let_def)
    qed
  next
    case (handed c e)
    have "sent (?ch ! ?k) = take (cursor (er_receiver (es_rx s))) (sent (?ch ! ?k)) @ drop (cursor (er_receiver (es_rx s))) (sent (?ch ! ?k))"
      by simp
    then have "subseq (from_channel ?k (es_out s) @ [e]) (sent (?ch ! ?k))"
      using d handed(2) take_is_prefix subseq_prefix by (metis pending_simps(1))
    then show ?thesis using d handed(1,2) by (auto simp: delivery_inv_def Let_def sorted_append)
  qed
qed

lemma events_reachable_inv:
  assumes "broadcast_ok B sent cursor" "events_reachable B s"
  shows "receiver_inv sent cursor s \<and> delivery_inv sent cursor s"
  using assms(2)
proof induction
  case start
  have "0 = (of_nat 0 :: u64)" by simp
  then have "receiver_inv sent cursor (events_start B)"
    using hub_inv_start [of B]
    by (auto simp: receiver_inv_def events_start_def receiver_new_def hub_from_snapshot_def slot_def)
  moreover have "delivery_inv sent cursor (events_start B)"
    by (simp add: delivery_inv_def events_start_def pending_event_def receiver_new_def)
  ultimately show ?case by blast
next
  case (step s l s')
  then show ?case using receiver_inv_step [OF assms(1)] delivery_inv_step [OF assms(1)] by blast
qed


text \<open>
  Claim C17. A receiver of state events respects snapshot boundaries. However its calls interleave with
  the store, the events it has handed out from one generation's channel are, in order and without
  repetition, among the events published there; they never go back to an earlier generation; and an event
  is handed out only while its channel is the one of the current generation marker. (The marker is a
  64-bit counter, so this is for fewer than \<open>2\<^sup>6\<^sup>4\<close> snapshots.)
\<close>

theorem receiver_respects_snapshots:
  assumes "broadcast_ok B sent cursor" "events_reachable B s" "length (hub_channels (es_hub s)) \<le> 2 ^ 64"
  shows "(\<forall>k < length (hub_channels (es_hub s)). subseq (from_channel k (es_out s)) (sent (hub_channels (es_hub s) ! k)))
    \<and> sorted (map fst (es_out s))
    \<and> (\<forall>l s' k e. events_do B l s = Some s' \<and> es_out s' = es_out s @ [(k, e)] \<longrightarrow>
         k = hub_version (es_hub s) \<and> e \<in> set (sent (hub_channels (es_hub s) ! k)))"
proof -
  have inv: "receiver_inv sent cursor s" "delivery_inv sent cursor s"
    using events_reachable_inv [OF assms(1,2)] by auto
  have "k = hub_version (es_hub s) \<and> e \<in> set (sent (hub_channels (es_hub s) ! k))"
    if step: "events_do B l s = Some s'" and out: "es_out s' = es_out s @ [(k, e)]" for l s' k e
    using step
  proof (cases rule: events_do_cases)
    case (handed c e')
    then have here: "es_pc s = RvCheck c (Ok e)" "k = er_channel (es_rx s)" using out by auto
    have hub: "hub_inv (es_hub s)" "k \<le> hub_version (es_hub s)" using inv(1) here unfolding receiver_inv_def by auto
    obtain m where m: "m \<le> k" "er_observed (es_rx s) = of_nat m" using inv(1) here unfolding receiver_inv_def by blast
    have small: "hub_version (es_hub s) < 2 ^ 64" using version_slot [OF hub(1)] assms(3) by simp
    have "unat (of_nat m :: u64) = unat (of_nat (hub_version (es_hub s)) :: u64)"
      using handed(3) m(2) hub(1) by (simp add: hub_inv_def)
    then have "m = hub_version (es_hub s)"
      using small m(1) hub(2) by (simp add: unat_of_nat)
    then have k: "k = hub_version (es_hub s)" using m(1) hub(2) by simp
    have "e \<in> set (from_channel k (es_out s) @ pending_event (es_pc s))" using here by simp
    then have "e \<in> set (take (cursor (er_receiver (es_rx s))) (sent (hub_channels (es_hub s) ! k)))"
      using inv(2) here(2) by (auto simp: delivery_inv_def Let_def dest: list_emb_set)
    then show ?thesis using k by (auto dest: in_set_takeD)
  qed (use out in auto)
  then show ?thesis using inv(2) by (auto simp: delivery_inv_def Let_def)
qed

text \<open>A channel of capacity 256 as a list of what was sent and whether it is open.\<close>

definition list_broadcast :: "('v state_event list \<times> bool, nat, 'v) broadcast" where
  "list_broadcast =
     \<lparr>bc_channel = ([], True), bc_send = (\<lambda>e (xs, is_open). (xs @ [e], is_open)), bc_close = (\<lambda>(xs, _). (xs, False)),
      bc_subscribe = (\<lambda>(xs, _). length xs),
      bc_try_recv = (\<lambda>(xs, is_open) n.
        if length xs \<le> n then (n, Err (if is_open then TryEmpty else TryClosed))
        else if n + 256 < length xs then (length xs - 256, Err (TryLagged (length xs - 256 - n)))
        else (Suc n, Ok (xs ! n)))\<rparr>"

lemma list_broadcast_ok: "broadcast_ok list_broadcast fst (\<lambda>n. n)"
  by (auto simp: broadcast_ok_def list_broadcast_def split: if_splits)

fun events_run ::
  "('ch, 'rx, 'v) broadcast \<Rightarrow> 'v event_label list \<Rightarrow> ('ch, 'rx, 'v) event_sys \<Rightarrow> ('ch, 'rx, 'v) event_sys option" where
  "events_run B [] s = Some s"
| "events_run B (l # ls) s = Option.bind (events_do B l s) (events_run B ls)"

lemma events_run_reachable:
  "events_run B ls s = Some s' \<Longrightarrow> events_reachable B s \<Longrightarrow> events_reachable B s'"
  by (induction ls arbitrary: s) (auto simp: bind_eq_Some_conv intro: events_reachable.step)

lemmas events_eval = events_start_def hub_from_snapshot_def receiver_new_def list_broadcast_def store_free_def
  call_idle_def slot_def hub_defs poll_step_def read_marker_def receive_step_def refresh_locked_def return_result_def

theorem receiver_respects_snapshots_witness:
  "\<exists>s. events_run list_broadcast [Publish (sample_event 1), Call Recv, Poll, Poll, Poll] (events_start list_broadcast) = Some s
     \<and> es_out s = [(0, (sample_event 1))] \<and> subseq (from_channel 0 (es_out s)) [(sample_event 1)]"
proof -
  obtain s where s: "events_run list_broadcast [Publish (sample_event 1), Call Recv, Poll, Poll, Poll] (events_start list_broadcast) = Some s"
    "es_out s = [(0, (sample_event 1))]" "hub_channels (es_hub s) = [([(sample_event 1)], True)]"
    by (simp add: events_eval)
  have "events_reachable list_broadcast s" by (rule events_run_reachable [OF s(1) events_reachable.start])
  from receiver_respects_snapshots [OF list_broadcast_ok this] s show ?thesis by auto
qed


section \<open>The store behind the channels\<close>

text \<open>
  The store of the projection, whose replacement and publication are one step each, against the hub: the
  same marker, and the events of its current channel.
\<close>

definition hub_shows :: "('ch \<Rightarrow> 'v state_event list) \<Rightarrow> 'ch event_hub \<Rightarrow> 'v state_store \<Rightarrow> bool" where
  "hub_shows sent hub st \<longleftrightarrow> hub_channels hub \<noteq> [] \<and> store_generation st = hub_generation hub
     \<and> store_events st = sent (hub_channels hub ! slot hub)"

theorem hub_refines_store:
  assumes "broadcast_ok B sent cursor" "hub_shows sent hub st"
  shows "hub_shows sent (replace_mark (hub_generation hub + 1) (replace_swap B hub)) (fst (store_replace_snapshot snap st))"
    "store_apply_event D e st = (st', Ok ()) \<Longrightarrow> hub_shows sent (publish_event B e hub) st'"
    "store_apply_event D e st = (st', Err x) \<Longrightarrow> hub_shows sent hub st'"
    "hub_shows sent hub (store_update_cursor c st)"
  using assms
  by (auto simp: hub_shows_def broadcast_ok_def hub_defs slot_def nth_append store_replace_snapshot_def
      store_apply_event_def store_update_cursor_def split: result.splits)

section \<open>Gaps\<close>

text \<open>
  Events published after a snapshot replacement are lost for a receiver that has not polled since
  the replacement: its next call follows the marker to the new channel, but subscribes at the end of it, so
  the event is skipped and no lag is reported.
\<close>

theorem receiver_skips_published_event:
  "\<exists>s. events_run list_broadcast [ReplaceSwap, ReplaceMark, Publish e, Call TryRecv, Poll, Poll, Poll]
         (events_start list_broadcast) = Some s
     \<and> es_pc s = RvDone (Err TryEmpty) \<and> es_out s = [] \<and> store_free s
     \<and> fst (hub_channels (es_hub s) ! hub_version (es_hub s)) = [e] \<and> er_channel (es_rx s) = hub_version (es_hub s)"
  by (simp add: events_eval)

text \<open>
  A snapshot replacement drops the old sender before it moves the marker, so a call of \<open>recv\<close> that
  is polled in between finds its channel closed and its marker current and returns \<open>Closed\<close>, although the
  store is alive and goes on publishing; \<open>try_recv\<close> does not compare the markers for errors at all.
\<close>

theorem receiver_reports_live_store_closed:
  "\<exists>s s'. events_run list_broadcast [Call Recv, Poll, ReplaceSwap, Poll, Poll, ReplaceMark, Publish e]
         (events_start list_broadcast) = Some s
     \<and> es_pc s = RvDone (Err TryClosed) \<and> store_free s
     \<and> events_run list_broadcast [Call TryRecv, Poll, ReplaceSwap, ReplaceMark, Poll, Publish e]
         (events_start list_broadcast) = Some s'
     \<and> es_pc s' = RvDone (Err TryClosed) \<and> store_free s'"
  by (simp add: events_eval)

end
