(* ===== verification/RealtimeConfig.thy ===== *)
theory RealtimeConfig
  imports RealtimeTypes
begin

text \<open>
  \<open>crates/zephyrvox-realtime/src/config.rs\<close>: the reconnect policy and the limits of a connection.
  A \<open>Duration\<close> is its number of nanoseconds. The jitter sample, the wall clock in nanoseconds, is an
  argument of \<open>delay\<close>. \<open>u128\<close> arithmetic is on \<open>nat\<close> with the saturation written out.
\<close>

definition U128_MAX :: nat where
  "U128_MAX = 2 ^ 128 - 1"

definition U64_MAX :: nat where
  "U64_MAX = 2 ^ 64 - 1"

definition sat_mul_u128 :: "nat \<Rightarrow> nat \<Rightarrow> nat" where
  "sat_mul_u128 a b = min (a * b) U128_MAX"

definition sat_add_u128 :: "nat \<Rightarrow> nat \<Rightarrow> nat" where
  "sat_add_u128 a b = min (a + b) U128_MAX"

definition from_secs :: "nat \<Rightarrow> nat" where
  "from_secs s = s * 1000000000"

definition from_millis :: "nat \<Rightarrow> nat" where
  "from_millis m = m * 1000000"

record reconnect_policy =
  rp_enabled :: bool
  rp_minimum_delay :: nat
  rp_maximum_delay :: nat
  rp_jitter :: nat
  rp_maximum_attempts :: "nat option"

definition policy_new :: "nat \<Rightarrow> nat \<Rightarrow> nat \<Rightarrow> (reconnect_policy, realtime_error) result" where
  "policy_new minimum_delay maximum_delay jitter =
     (if minimum_delay = 0 \<or> maximum_delay < minimum_delay
      then Err (RConfiguration ''reconnect delays must be non-zero and ordered'')
      else Ok \<lparr>rp_enabled = True, rp_minimum_delay = minimum_delay,
               rp_maximum_delay = maximum_delay, rp_jitter = jitter, rp_maximum_attempts = None\<rparr>)"

definition policy_disabled :: reconnect_policy where
  "policy_disabled = \<lparr>rp_enabled = False, rp_minimum_delay = from_secs 1,
     rp_maximum_delay = from_secs 1, rp_jitter = 0, rp_maximum_attempts = Some 0\<rparr>"

definition default_policy :: reconnect_policy where
  "default_policy = \<lparr>rp_enabled = True, rp_minimum_delay = from_millis 250,
     rp_maximum_delay = from_secs 30, rp_jitter = from_millis 250, rp_maximum_attempts = None\<rparr>"

definition with_maximum_attempts :: "nat option \<Rightarrow> reconnect_policy \<Rightarrow> reconnect_policy" where
  "with_maximum_attempts attempts p = p\<lparr>rp_maximum_attempts := attempts\<rparr>"

definition delay :: "nat \<Rightarrow> reconnect_policy \<Rightarrow> nat \<Rightarrow> nat" where
  "delay clock p attempt =
     (let exponent = min attempt 31;
          multiplier = 2 ^ exponent;
          base_nanos = sat_mul_u128 (rp_minimum_delay p) multiplier;
          bounded = min base_nanos (rp_maximum_delay p);
          jitter = (if rp_jitter p = 0 then 0 else clock mod (max (rp_jitter p) 1))
      in min (min (sat_add_u128 bounded jitter) (rp_maximum_delay p)) U64_MAX)"

record realtime_config =
  rc_reconnect :: reconnect_policy
  rc_command_timeout :: nat
  rc_maximum_pending_commands :: nat
  rc_maximum_frame_bytes :: nat

definition realtime_config_new :: realtime_config where
  "realtime_config_new = \<lparr>rc_reconnect = default_policy, rc_command_timeout = from_secs 10,
     rc_maximum_pending_commands = 64, rc_maximum_frame_bytes = 256 * 1024\<rparr>"

definition with_reconnect_policy :: "reconnect_policy \<Rightarrow> realtime_config \<Rightarrow> realtime_config" where
  "with_reconnect_policy p c = c\<lparr>rc_reconnect := p\<rparr>"

definition with_command_timeout :: "nat \<Rightarrow> realtime_config \<Rightarrow> (realtime_config, realtime_error) result" where
  "with_command_timeout timeout c =
     (if timeout = 0 then Err (RConfiguration ''command timeout must be non-zero'')
      else Ok (c\<lparr>rc_command_timeout := timeout\<rparr>))"

definition with_maximum_pending_commands ::
  "nat \<Rightarrow> realtime_config \<Rightarrow> (realtime_config, realtime_error) result" where
  "with_maximum_pending_commands maximum c =
     (if maximum = 0 \<or> maximum > 256
      then Err (RConfiguration ''pending command limit must be between 1 and 256'')
      else Ok (c\<lparr>rc_maximum_pending_commands := maximum\<rparr>))"

definition with_maximum_frame_bytes ::
  "nat \<Rightarrow> realtime_config \<Rightarrow> (realtime_config, realtime_error) result" where
  "with_maximum_frame_bytes maximum c =
     (if maximum = 0 \<or> maximum > 256 * 1024
      then Err (RConfiguration ''frame limit must be between 1 byte and 256 KiB'')
      else Ok (c\<lparr>rc_maximum_frame_bytes := maximum\<rparr>))"


section \<open>Properties\<close>

definition policy_wf :: "reconnect_policy \<Rightarrow> bool" where
  "policy_wf p \<longleftrightarrow> 0 < rp_minimum_delay p \<and> rp_minimum_delay p \<le> rp_maximum_delay p"

definition config_wf :: "realtime_config \<Rightarrow> bool" where
  "config_wf c \<longleftrightarrow>
     0 < rc_command_timeout c
     \<and> 0 < rc_maximum_pending_commands c \<and> rc_maximum_pending_commands c \<le> 256
     \<and> 0 < rc_maximum_frame_bytes c \<and> rc_maximum_frame_bytes c \<le> 256 * 1024"

lemma policy_constructors_wf:
  "policy_new a b j = Ok p \<Longrightarrow> policy_wf p" "policy_wf policy_disabled" "policy_wf default_policy"
  "policy_wf (with_maximum_attempts n p) = policy_wf p"
  by (auto simp: policy_new_def policy_wf_def policy_disabled_def default_policy_def
      with_maximum_attempts_def from_secs_def from_millis_def split: if_splits)

lemma config_builders_wf:
  "config_wf realtime_config_new"
  "config_wf c \<Longrightarrow> config_wf (with_reconnect_policy p c)"
  "config_wf c \<Longrightarrow> with_command_timeout t c = Ok c' \<Longrightarrow> config_wf c'"
  "config_wf c \<Longrightarrow> with_maximum_pending_commands n c = Ok c' \<Longrightarrow> config_wf c'"
  "config_wf c \<Longrightarrow> with_maximum_frame_bytes n c = Ok c' \<Longrightarrow> config_wf c'"
  by (auto simp: config_wf_def realtime_config_new_def with_reconnect_policy_def
      with_command_timeout_def with_maximum_pending_commands_def with_maximum_frame_bytes_def
      from_secs_def split: if_splits)

text \<open>The delay without saturation: exponential from the minimum, plus jitter, capped.\<close>

lemma delay_closed_form:
  assumes "rp_maximum_delay p \<le> U64_MAX"
  shows "delay clock p n =
    min (rp_maximum_delay p)
      (rp_minimum_delay p * 2 ^ min n 31 + (if rp_jitter p = 0 then 0 else clock mod rp_jitter p))"
proof -
  have "U64_MAX \<le> U128_MAX" by (simp add: U64_MAX_def U128_MAX_def)
  with assms have M: "rp_maximum_delay p \<le> U128_MAX" by simp
  have "max (rp_jitter p) 1 = rp_jitter p" if "rp_jitter p \<noteq> 0" using that by simp
  with M assms show ?thesis
    by (auto simp: delay_def Let_def sat_mul_u128_def sat_add_u128_def min_def)
qed



end
