(* ===== verification/HexText.thy ===== *)
theory HexText
  imports Ids
begin

text \<open>
  Hexadecimal numbers as Rust's formatter prints them (\<open>{n:016x}\<close>): the digits, the zero padding
  and the reading back. The request identifiers of the control connection and the idempotency keys
  of the HTTP client are built from them.
\<close>

definition hex_char :: "nat \<Rightarrow> char" where
  "hex_char d = HEX ! d"

fun format_hex :: "nat \<Rightarrow> string" where
  "format_hex n = (if n < 16 then [hex_char n] else format_hex (n div 16) @ [hex_char (n mod 16)])"

declare format_hex.simps [simp del]

text \<open>\<open>pad_zero w s\<close>: the format directive \<open>0w\<close> fills with zeros on the left.\<close>

definition pad_zero :: "nat \<Rightarrow> string \<Rightarrow> string" where
  "pad_zero w s = replicate (w - length s) CHR ''0'' @ s"

lemma hex_char_valid: "d < 16 \<Longrightarrow> is_token_char (hex_char d)"
proof -
  assume "d < 16"
  then have "hex_char d \<in> set HEX" unfolding hex_char_def by (intro nth_mem) (simp add: HEX_def)
  moreover have "list_all is_token_char HEX" by code_simp
  ultimately show ?thesis by (simp add: list_all_iff)
qed

lemma format_hex_valid: "list_all is_token_char (format_hex n)"
proof (induction n rule: format_hex.induct)
  case (1 n)
  then show ?case by (subst format_hex.simps) (simp add: hex_char_valid)
qed

lemma length_format_hex: "n < 16 ^ Suc k \<Longrightarrow> length (format_hex n) \<le> Suc k"
proof (induction k arbitrary: n)
  case 0
  then show ?case by (subst format_hex.simps) simp
next
  case (Suc k)
  show ?case
  proof (cases "n < 16")
    case True
    then show ?thesis by (subst format_hex.simps) simp
  next
    case False
    have "n div 16 < 16 ^ Suc k" using Suc.prems by (simp add: less_mult_imp_div_less)
    with Suc.IH False show ?thesis by (subst format_hex.simps) simp
  qed
qed

text \<open>Reading back what \<open>format_hex\<close> wrote, padding included.\<close>

fun hex_value_of :: "nat \<Rightarrow> string \<Rightarrow> nat" where
  "hex_value_of acc [] = acc"
| "hex_value_of acc (c # cs) =
     hex_value_of (16 * acc + (case lower_hex_value c of Some v \<Rightarrow> unat v | None \<Rightarrow> 0)) cs"

lemma hex_digit_read [simp]: "d < 16 \<Longrightarrow> lower_hex_value (hex_char d) = Some (of_nat d)"
  by (simp add: hex_char_def lower_hex_value_digit)

lemma unat_of_nibble [simp]: "d < 16 \<Longrightarrow> unat (of_nat d :: u8) = d"
  by (simp add: unat_of_nat)

lemma hex_value_append: "hex_value_of acc (xs @ ys) = hex_value_of (hex_value_of acc xs) ys"
  by (induction xs arbitrary: acc) simp_all

lemma hex_value_format: "hex_value_of 0 (format_hex n) = n"
proof (induction n rule: format_hex.induct)
  case (1 n)
  then show ?case by (subst format_hex.simps) (simp add: hex_value_append)
qed

lemma hex_value_pad: "hex_value_of 0 (pad_zero w s) = hex_value_of 0 s"
proof -
  have "CHR ''0'' = hex_char 0" by (simp add: hex_char_def HEX_def)
  then have "hex_value_of 0 (replicate k CHR ''0'') = 0" for k
    by (induction k) (simp_all only: replicate.simps hex_value_of.simps hex_digit_read, simp)
  then show ?thesis by (simp add: pad_zero_def hex_value_append)
qed

lemma length_pad_zero: "length (pad_zero w s) = max w (length s)"
  by (simp add: pad_zero_def)

lemma length_sequence_text: "length (pad_zero 16 (format_hex (unat (q :: u64)))) = 16"
  using length_format_hex [of "unat q" 15] by (simp add: length_pad_zero)

lemma pad_hex_valid: "list_all is_token_char (pad_zero w (format_hex n))"
  using hex_char_valid [of 0] format_hex_valid [of n]
  by (auto simp: pad_zero_def list_all_iff hex_char_def HEX_def)

lemma sequence_text_inject:
  "pad_zero 16 (format_hex (unat (p :: u64))) = pad_zero 16 (format_hex (unat q)) \<longleftrightarrow> p = q"
  by (metis hex_value_format hex_value_pad word_unat_eq_iff)

end
