(* ===== verification/Frame.thy ===== *)
theory Frame
  imports RealtimeTypes HexText
begin

text \<open>
  \<open>crates/zephyrvox-realtime/src/frame.rs\<close>: parsing and encoding of WebSocket text frames, and the
  request identifiers of \<open>connection.rs\<close>. Reading and writing JSON is the work of \<open>serde_json\<close>: the
  record \<open>J\<close> has its parser, its printer, its value constructors and one decoder per payload type.
\<close>

section \<open>Parsing\<close>

record 'v envelope =
  en_frame_type :: string
  en_request_id :: "string option"
  en_data :: 'v

record command_ok_data =
  co_command_type :: string
  co_command_id :: "string option"
  co_expires_at :: "int option"

record command_error_data =
  cd_command_type :: string
  cd_code :: int
  cd_message :: string
  cd_retryable :: bool

record 'v json =
  js_from_str :: "string \<Rightarrow> ('v, string) result"
  js_to_string :: "'v \<Rightarrow> (string, string) result"
  js_object :: "(string \<times> 'v) list \<Rightarrow> 'v"
  js_string :: "string \<Rightarrow> 'v"
  js_presence_command :: "presence_command \<Rightarrow> 'v"
  js_envelope :: "'v \<Rightarrow> ('v envelope, string) result"
  js_connection_ready :: "'v \<Rightarrow> (connection_ready, string) result"
  js_sync_replay :: "'v \<Rightarrow> ('v sync_replay, string) result"
  js_sync_complete :: "'v \<Rightarrow> (sync_complete, string) result"
  js_sync_required :: "'v \<Rightarrow> (sync_required, string) result"
  js_state_event :: "'v \<Rightarrow> ('v state_event, string) result"
  js_command_ok :: "'v \<Rightarrow> (command_ok_data, string) result"
  js_command_error :: "'v \<Rightarrow> (command_error_data, string) result"
  js_auth_revoked :: "'v \<Rightarrow> (auth_revoked, string) result"

definition decode :: "('v \<Rightarrow> ('a, string) result) \<Rightarrow> 'v \<Rightarrow> string \<Rightarrow> ('a, realtime_error) result" where
  "decode dec data frame_type =
     map_err (\<lambda>e. RProtocol (frame_type @ '' data is invalid: '' @ e)) (dec data)"

definition is_request_char :: "char \<Rightarrow> bool" where
  "is_request_char c \<longleftrightarrow> is_ascii_alphanumeric c \<or> c = CHR ''_'' \<or> c = CHR ''-''"

lemma is_request_char_token: "is_request_char = is_token_char"
  by (auto simp: fun_eq_iff is_request_char_def is_token_char_def)

definition valid_request_id :: "string \<Rightarrow> bool" where
  "valid_request_id r \<longleftrightarrow> 16 \<le> length r \<and> length r \<le> 64 \<and> list_all is_request_char r"

definition required_request_id :: "string option \<Rightarrow> string \<Rightarrow> (string, realtime_error) result" where
  "required_request_id request_id frame_type =
     and_then (ok_or request_id (RProtocol (frame_type @ '' is missing request_id''))) (\<lambda>r.
       if \<not> valid_request_id r then Err (RProtocol (frame_type @ '' has an invalid request_id''))
       else Ok r)"

definition parse_server_frame :: "'v json \<Rightarrow> string \<Rightarrow> ('v server_frame, realtime_error) result" where
  "parse_server_frame J payload =
     and_then (map_err RJson (js_from_str J payload)) (\<lambda>raw.
     and_then (map_err RJson (js_envelope J raw)) (\<lambda>env.
       let t = en_frame_type env; data = en_data env
       in if t = ''connection.ready'' then map_ok FConnectionReady (decode (js_connection_ready J) data t)
          else if t = ''sync.replay'' then map_ok FSyncReplay (decode (js_sync_replay J) data t)
          else if t = ''sync.complete'' then map_ok FSyncComplete (decode (js_sync_complete J) data t)
          else if t = ''sync.required'' then map_ok FSyncRequired (decode (js_sync_required J) data t)
          else if t = ''state.event'' then map_ok FStateEvent (decode (js_state_event J) raw t)
          else if t = ''command.ok'' then
            and_then (required_request_id (en_request_id env) t) (\<lambda>r.
              map_ok (\<lambda>d. FCommandOk \<lparr>ca_request_id = r, ca_command_type = co_command_type d,
                         ca_command_id = co_command_id d, ca_expires_at = co_expires_at d\<rparr>)
                (decode (js_command_ok J) data t))
          else if t = ''command.error'' then
            and_then (required_request_id (en_request_id env) t) (\<lambda>r.
              map_ok (\<lambda>d. FCommandError \<lparr>ce_request_id = r, ce_command_type = cd_command_type d,
                         ce_code = cd_code d, ce_message = cd_message d, ce_retryable = cd_retryable d\<rparr>)
                (decode (js_command_error J) data t))
          else if t = ''auth.revoked'' then map_ok FAuthRevoked (decode (js_auth_revoked J) data t)
          else Ok (FUnknown \<lparr>uf_frame_type = t, uf_request_id = en_request_id env, uf_data = data\<rparr>)))"


section \<open>Encoding\<close>

definition encode_json :: "'v json \<Rightarrow> 'v \<Rightarrow> (string, realtime_error) result" where
  "encode_json J v = map_err RJson (js_to_string J v)"

definition encode_sync_hello :: "'v json \<Rightarrow> cursor \<Rightarrow> (string, realtime_error) result" where
  "encode_sync_hello J c =
     encode_json J (js_object J [(''type'', js_string J ''sync.hello''),
       (''data'', js_object J [(''cursor'', js_string J (cursor_as_str c))])])"

definition encode_presence_set ::
  "'v json \<Rightarrow> string \<Rightarrow> presence_command \<Rightarrow> (string, realtime_error) result" where
  "encode_presence_set J request_id command =
     encode_json J (js_object J [(''type'', js_string J ''presence.set''),
       (''request_id'', js_string J request_id), (''data'', js_presence_command J command)])"

definition encode_auth_update ::
  "'v json \<Rightarrow> string \<Rightarrow> access_token \<Rightarrow> (string, realtime_error) result" where
  "encode_auth_update J request_id token =
     encode_json J (js_object J [(''type'', js_string J ''auth.update''),
       (''request_id'', js_string J request_id),
       (''data'', js_object J [(''access_token'', js_string J (access_token_as_str token))])])"


section \<open>Request identifiers\<close>

text \<open>
  \<open>next_request_id\<close> takes the counter and the clock in milliseconds and gives the counter after
  \<open>fetch_add\<close> and the identifier.
\<close>

definition next_request_id :: "u64 \<Rightarrow> nat \<Rightarrow> u64 \<times> string" where
  "next_request_id counter millis =
     (let sequence = counter + 1
      in (counter + 1, ''zv-'' @ pad_zero 11 (format_hex millis) @ ''-''
                        @ pad_zero 16 (format_hex (unat sequence))))"

lemma next_request_id_inject:
  assumes same: "snd (next_request_id q' m') = snd (next_request_id q m)"
  shows "q' = q"
proof -
  have "pad_zero 16 (format_hex (unat (q' + 1))) = pad_zero 16 (format_hex (unat (q + 1)))"
    using same length_sequence_text [of "q' + 1"] length_sequence_text [of "q + 1"]
    by (simp add: next_request_id_def Let_def)
  then have "unat (q' + 1) = unat (q + 1)"
    by (metis hex_value_format hex_value_pad)
  then show ?thesis by (simp add: word_unat_eq_iff [symmetric])
qed

text \<open>
  For every counter and every clock a \<open>SystemTime\<close> can hold, the identifier the client
  puts on a command satisfies the grammar it demands of the server's answers, and two commands with
  different counter values never share an identifier, whatever the clock read.
\<close>

theorem request_ids_valid_and_unique:
  assumes "m < 2 ^ 128"
  shows "valid_request_id (snd (next_request_id q m))
     \<and> (\<forall>q' m'. snd (next_request_id q' m') = snd (next_request_id q m) \<longrightarrow> q' = q)"
proof -
  have len: "length (pad_zero 11 (format_hex m)) \<le> 32" "11 \<le> length (pad_zero 11 (format_hex m))"
    using assms length_format_hex [of m 31] by (simp_all add: length_pad_zero)
  have pad: "list_all is_request_char (pad_zero w (format_hex n))" for w n
    by (simp add: is_request_char_token pad_hex_valid)
  have seps: "list_all is_request_char ''zv-''" "list_all is_request_char ''-''" by code_simp+
  have "valid_request_id (snd (next_request_id q m))"
    using len pad seps
    by (simp add: next_request_id_def valid_request_id_def length_sequence_text Let_def list_all_append)
  moreover have "q' = q" if "snd (next_request_id q' m') = snd (next_request_id q m)" for q' m'
    using that next_request_id_inject by blast
  ultimately show ?thesis by blast
qed

text \<open>
  A parsed frame has the shape its type promises: a command answer carries a valid request
  identifier, every frame of a listed type decoded with that type's decoder, and whatever is not
  listed is retained as unknown with its own type, so that no unlisted frame becomes state.
\<close>

theorem parse_server_frame_sound:
  assumes "parse_server_frame J payload = Ok f"
  shows "\<exists>raw env. js_from_str J payload = Ok raw \<and> js_envelope J raw = Ok env
     \<and> (case f of
          FConnectionReady r \<Rightarrow> en_frame_type env = ''connection.ready''
            \<and> js_connection_ready J (en_data env) = Ok r
        | FSyncReplay r \<Rightarrow> en_frame_type env = ''sync.replay'' \<and> js_sync_replay J (en_data env) = Ok r
        | FSyncComplete r \<Rightarrow> en_frame_type env = ''sync.complete'' \<and> js_sync_complete J (en_data env) = Ok r
        | FSyncRequired r \<Rightarrow> en_frame_type env = ''sync.required'' \<and> js_sync_required J (en_data env) = Ok r
        | FStateEvent e \<Rightarrow> en_frame_type env = ''state.event'' \<and> js_state_event J raw = Ok e
        | FCommandOk a \<Rightarrow> en_frame_type env = ''command.ok'' \<and> valid_request_id (ca_request_id a)
            \<and> en_request_id env = Some (ca_request_id a)
        | FCommandError e \<Rightarrow> en_frame_type env = ''command.error'' \<and> valid_request_id (ce_request_id e)
            \<and> en_request_id env = Some (ce_request_id e)
        | FAuthRevoked r \<Rightarrow> en_frame_type env = ''auth.revoked'' \<and> js_auth_revoked J (en_data env) = Ok r
        | FUnknown u \<Rightarrow> uf_frame_type u = en_frame_type env \<and> uf_data u = en_data env
            \<and> en_frame_type env \<notin> set [''connection.ready'', ''sync.replay'', ''sync.complete'',
                 ''sync.required'', ''state.event'', ''command.ok'', ''command.error'', ''auth.revoked''])"
  using assms
  by (auto simp: parse_server_frame_def Let_def res_simps decode_def required_request_id_def
      split: if_splits)

text \<open>A reader of one-field texts: the value is the frame type itself.\<close>

definition type_only_json :: "string json" where
  "type_only_json = \<lparr>js_from_str = Ok, js_to_string = Ok, js_object = (\<lambda>_. []), js_string = id,
     js_presence_command = pq_status,
     js_envelope = (\<lambda>v. Ok \<lparr>en_frame_type = v, en_request_id = None, en_data = []\<rparr>),
     js_connection_ready = (\<lambda>_. Err []), js_sync_replay = (\<lambda>_. Err []),
     js_sync_complete = (\<lambda>_. Err []), js_sync_required = (\<lambda>v. Ok \<lparr>sq_reason = v\<rparr>),
     js_state_event = (\<lambda>_. Err []), js_command_ok = (\<lambda>_. Err []), js_command_error = (\<lambda>_. Err []),
     js_auth_revoked = (\<lambda>v. Ok \<lparr>ar_reason = v\<rparr>)\<rparr>"

end
