(* ===== verification/Connection.thy ===== *)
theory Connection
  imports Projection RealtimeConfig Frame
begin

text \<open>
  The control connection of \<open>crates/zephyrvox-realtime\<close>: \<open>connection.rs\<close> (the handle and its
  commands), \<open>engine.rs\<close> (the reconnecting owner task) and \<open>engine/socket.rs\<close> (one socket
  generation).

  \<open>connection\<close> is \<open>ConnectionInner\<close>. The fields \<open>cn_events\<close>, \<open>cn_sent\<close> and \<open>cn_answers\<close> record
  what the combined event channel carried, which texts were handed to the socket and how command
  waiters were completed. What the provider, the transport and the scheduler decide is an argument:
  \<open>snap\<close> is the answer of \<open>provider.snapshot()\<close>, \<open>sent\<close> that of \<open>session.send_text\<close>. A frame causes
  at most one of each. \<open>J\<close>, \<open>D\<close> and \<open>enc\<close> stand for \<open>serde_json\<close> as in the other theories.
\<close>

section \<open>The shared state\<close>

record 'v connection =
  cn_config :: realtime_config
  cn_state :: "'v state_store"
  cn_status :: connection_status
  cn_events :: "'v client_event list"
  cn_outbound :: "string list option"
  cn_pending :: "string list"
  cn_answers :: "(string \<times> (command_ack, realtime_error) result) list"
  cn_sequence :: u64
  cn_stopped :: bool
  cn_control_id :: "control_connection_id option"
  cn_access_expires_at :: int
  cn_sent :: "string list"

definition connection_start :: "realtime_config \<Rightarrow> state_snapshot \<Rightarrow> 'v connection" where
  "connection_start cfg snapshot =
     \<lparr>cn_config = cfg, cn_state = store_from_snapshot snapshot, cn_status = CDisconnected,
      cn_events = [], cn_outbound = None, cn_pending = [], cn_answers = [], cn_sequence = 0,
      cn_stopped = False, cn_control_id = None, cn_access_expires_at = 0, cn_sent = []\<rparr>"

definition emit :: "'v client_event \<Rightarrow> 'v connection \<Rightarrow> 'v connection" where
  "emit ev c = c\<lparr>cn_events := cn_events c @ [ev]\<rparr>"

definition set_status :: "connection_status \<Rightarrow> 'v connection \<Rightarrow> 'v connection" where
  "set_status status c = emit (StatusChanged status) (c\<lparr>cn_status := status\<rparr>)"

definition resolve_pending ::
  "string \<Rightarrow> (command_ack, realtime_error) result \<Rightarrow> 'v connection \<Rightarrow> 'v connection" where
  "resolve_pending rid r c =
     (if rid \<in> set (cn_pending c)
      then c\<lparr>cn_pending := removeAll rid (cn_pending c), cn_answers := cn_answers c @ [(rid, r)]\<rparr>
      else c)"

definition clear_socket_state :: "'v connection \<Rightarrow> 'v connection" where
  "clear_socket_state c =
     c\<lparr>cn_outbound := None, cn_control_id := None, cn_access_expires_at := 0,
       cn_answers := cn_answers c @ map (\<lambda>rid. (rid, Err RClosed)) (cn_pending c),
       cn_pending := []\<rparr>"

definition access_expires_at :: "'v connection \<Rightarrow> int option" where
  "access_expires_at c = (if cn_access_expires_at c = 0 then None else Some (cn_access_expires_at c))"


section \<open>Commands\<close>

text \<open>
  \<open>send_command\<close> in three steps of its caller: registering the waiter, handing the payload to the
  socket task, and the drop of the guard when the future ends.
\<close>

definition send_command_register ::
  "bool \<Rightarrow> (string \<Rightarrow> (string, realtime_error) result) \<Rightarrow> nat \<Rightarrow> 'v connection
   \<Rightarrow> 'v connection \<times> (string \<times> string, realtime_error) result" where
  "send_command_register allow_before_live encode millis c =
     (if cn_status c \<noteq> CLive
         \<and> \<not> (allow_before_live \<and> (cn_status c = CReady \<or> cn_status c = CSyncing))
      then (c, Err RNotLive)
      else case next_request_id (cn_sequence c) millis of
             (counter, rid) \<Rightarrow>
               let c1 = c\<lparr>cn_sequence := counter\<rparr>
               in case encode rid of
                    Err e \<Rightarrow> (c1, Err e)
                  | Ok text \<Rightarrow>
                      if length (cn_pending c1) \<ge> rc_maximum_pending_commands (cn_config c1)
                      then (c1, Err (RProtocol ''pending command capacity is full''))
                      else (c1\<lparr>cn_pending :=
                              (if rid \<in> set (cn_pending c1) then cn_pending c1
                               else cn_pending c1 @ [rid])\<rparr>, Ok (rid, text)))"

definition drop_pending :: "string \<Rightarrow> 'v connection \<Rightarrow> 'v connection" where
  "drop_pending rid c = c\<lparr>cn_pending := removeAll rid (cn_pending c)\<rparr>"

definition send_command_enqueue ::
  "string \<Rightarrow> string \<Rightarrow> 'v connection \<Rightarrow> 'v connection \<times> (unit, realtime_error) result" where
  "send_command_enqueue rid text c =
     (case cn_outbound c of
        None \<Rightarrow> (drop_pending rid c, Err RNotLive)
      | Some q \<Rightarrow> (c\<lparr>cn_outbound := Some (q @ [text])\<rparr>, Ok ()))"

definition set_presence_register ::
  "'v json \<Rightarrow> presence \<Rightarrow> nat \<Rightarrow> 'v connection \<Rightarrow> 'v connection \<times> (string \<times> string, realtime_error) result"
where
  "set_presence_register J p millis c =
     send_command_register False (\<lambda>rid. encode_presence_set J rid (presence_command_from p)) millis c"

definition update_access_register ::
  "'v json \<Rightarrow> access_token \<Rightarrow> nat \<Rightarrow> 'v connection \<Rightarrow> 'v connection \<times> (string \<times> string, realtime_error) result"
where
  "update_access_register J token millis c =
     send_command_register True (\<lambda>rid. encode_auth_update J rid token) millis c"

definition close_request :: "'v connection \<Rightarrow> 'v connection" where
  "close_request c = c\<lparr>cn_stopped := True\<rparr>"


section \<open>One socket generation\<close>

type_synonym 'v gen = "'v connection \<times> 'v sync_machine"

definition send_text :: "string \<Rightarrow> 'v connection \<Rightarrow> 'v connection" where
  "send_text text c = c\<lparr>cn_sent := cn_sent c @ [text]\<rparr>"

definition replace_snapshot_and_hello ::
  "'v json \<Rightarrow> (state_snapshot, realtime_error) result \<Rightarrow> (unit, realtime_error) result \<Rightarrow> string
   \<Rightarrow> 'v gen \<Rightarrow> 'v gen \<times> (unit, realtime_error) result" where
  "replace_snapshot_and_hello J snap sent reason g =
     (case g of (c, m) \<Rightarrow>
       case require_snapshot reason m of
         (m1, Err e) \<Rightarrow> ((c, m1), Err (RSync e))
       | (m1, Ok _) \<Rightarrow>
           let c1 = set_status CSyncing c
           in case snap of
                Err e \<Rightarrow> ((c1, m1), Err e)
              | Ok snapshot \<Rightarrow>
                  (case store_replace_snapshot snapshot (cn_state c1) of
                     (store, lost) \<Rightarrow>
                       let c2 = c1\<lparr>cn_state := store\<rparr>;
                           c3 = (case lost of Some a \<Rightarrow> emit (VoiceLost a) c2 | None \<Rightarrow> c2);
                           m2 = sync_replace_snapshot (store_state store) m1
                       in case begin_sync m2 of
                            (m3, Err e) \<Rightarrow> ((c3, m3), Err (RSync e))
                          | (m3, Ok cursor) \<Rightarrow>
                              (case encode_sync_hello J cursor of
                                 Err e \<Rightarrow> ((c3, m3), Err e)
                               | Ok text \<Rightarrow> ((send_text text c3, m3), sent))))"

definition apply_reason :: "state_apply_error \<Rightarrow> string" where
  "apply_reason x =
     (case x of
        UnknownEvent t \<Rightarrow> ''unknown state event '' @ t
      | ApplySnapshotRequired t \<Rightarrow> ''state event requires snapshot '' @ t
      | other \<Rightarrow> ''state projection rejected event: '' @ state_apply_error_display other)"

definition apply_or_resync ::
  "'v json \<Rightarrow> 'v payload_decoders \<Rightarrow> (state_snapshot, realtime_error) result
   \<Rightarrow> (unit, realtime_error) result \<Rightarrow> 'v state_event \<Rightarrow> 'v gen
   \<Rightarrow> 'v gen \<times> (bool, realtime_error) result" where
  "apply_or_resync J D snap sent e g =
     (case g of (c, m) \<Rightarrow>
       case store_apply_event D e (cn_state c) of
         (store, Ok _) \<Rightarrow> ((emit (EState e) (c\<lparr>cn_state := store\<rparr>), m), Ok True)
       | (store, Err x) \<Rightarrow>
           let reason = apply_reason x;
               c1 = emit (ESyncRequired reason) (c\<lparr>cn_state := store\<rparr>)
           in case replace_snapshot_and_hello J snap sent reason (c1, m) of
                (g', Ok _) \<Rightarrow> (g', Ok False)
              | (g', Err x') \<Rightarrow> (g', Err x'))"

text \<open>The loop over released or replayed events; \<open>False\<close> means that it was left early.\<close>

fun apply_events ::
  "'v json \<Rightarrow> 'v payload_decoders \<Rightarrow> (state_snapshot, realtime_error) result
   \<Rightarrow> (unit, realtime_error) result \<Rightarrow> 'v state_event list \<Rightarrow> 'v gen
   \<Rightarrow> 'v gen \<times> (bool, realtime_error) result" where
  "apply_events J D snap sent [] g = (g, Ok True)"
| "apply_events J D snap sent (e # es) g =
     (case apply_or_resync J D snap sent e g of
        (g', Ok True) \<Rightarrow> apply_events J D snap sent es g'
      | (g', Ok False) \<Rightarrow> (g', Ok False)
      | (g', Err x) \<Rightarrow> (g', Err x))"

fun is_recoverable :: "sync_error \<Rightarrow> bool" where
  "is_recoverable (InvalidPhase _) = False"
| "is_recoverable _ = True"

definition recover_sync_error ::
  "'v json \<Rightarrow> (state_snapshot, realtime_error) result \<Rightarrow> (unit, realtime_error) result \<Rightarrow> sync_error
   \<Rightarrow> 'v gen \<Rightarrow> 'v gen \<times> (unit, realtime_error) result" where
  "recover_sync_error J snap sent x g =
     (if \<not> is_recoverable x then (g, Err (RSync x))
      else let reason = ''state synchronization requires snapshot: '' @ sync_error_display x
           in replace_snapshot_and_hello J snap sent reason
                (emit (ESyncRequired reason) (fst g), snd g))"

definition process_frame ::
  "'v json \<Rightarrow> 'v payload_decoders \<Rightarrow> ('v state_event \<Rightarrow> nat option)
   \<Rightarrow> (state_snapshot, realtime_error) result \<Rightarrow> (unit, realtime_error) result
   \<Rightarrow> 'v server_frame \<Rightarrow> 'v gen \<Rightarrow> 'v gen \<times> (unit, realtime_error) result" where
  "process_frame J D enc snap sent frame g =
     (case g of (c, m) \<Rightarrow>
       case frame of
         FConnectionReady _ \<Rightarrow> (g, Err (RProtocol ''duplicate connection.ready''))
       | FSyncReplay replay \<Rightarrow>
           (case accept_replay replay m of
              (m', Err x) \<Rightarrow> recover_sync_error J snap sent x (c, m')
            | (m', Ok _) \<Rightarrow>
                (case apply_events J D snap sent (sr_events replay) (c, m') of
                   (g', r) \<Rightarrow> (g', map_ok (\<lambda>_. ()) r)))
       | FSyncComplete complete \<Rightarrow>
           (case accept_complete complete m of
              (m', Err x) \<Rightarrow> recover_sync_error J snap sent x (c, m')
            | (m', Ok queued) \<Rightarrow>
                let c1 = c\<lparr>cn_state := store_update_cursor (sy_cursor complete) (cn_state c)\<rparr>
                in case apply_events J D snap sent queued (c1, m') of
                     (g', Err x) \<Rightarrow> (g', Err x)
                   | (g', Ok False) \<Rightarrow> (g', Ok ())
                   | (g', Ok True) \<Rightarrow> ((set_status CLive (fst g'), snd g'), Ok ()))
       | FSyncRequired required \<Rightarrow>
           replace_snapshot_and_hello J snap sent (sq_reason required)
             (emit (ESyncRequired (sq_reason required)) c, m)
       | FStateEvent e \<Rightarrow>
           (case accept_live_event enc e m of
              (m', Err x) \<Rightarrow> recover_sync_error J snap sent x (c, m')
            | (m', Ok None) \<Rightarrow> ((c, m'), Ok ())
            | (m', Ok (Some e')) \<Rightarrow>
                (case apply_or_resync J D snap sent e' (c, m') of
                   (g', r) \<Rightarrow> (g', map_ok (\<lambda>_. ()) r)))
       | FCommandOk ack \<Rightarrow>
           let c1 = (case ca_expires_at ack of Some x \<Rightarrow> c\<lparr>cn_access_expires_at := x\<rparr> | None \<Rightarrow> c)
           in ((resolve_pending (ca_request_id ack) (Ok ack) c1, m), Ok ())
       | FCommandError e \<Rightarrow>
           ((resolve_pending (ce_request_id e) (Err (command_failure e)) c, m), Ok ())
       | FAuthRevoked r \<Rightarrow> (g, Err (RRevoked (ar_reason r)))
       | FUnknown u \<Rightarrow>
           if starts_with (uf_frame_type u) ''state.''
           then replace_snapshot_and_hello J snap sent (uf_frame_type u)
                  (emit (ESyncRequired (uf_frame_type u)) c, m)
           else ((emit (EUnknown u) c, m), Ok ()))"

section \<open>Messages and close codes\<close>

definition close_error :: "nat option \<Rightarrow> string option \<Rightarrow> realtime_error" where
  "close_error close_code reason =
     (let detail = (case reason of Some r \<Rightarrow> '': '' @ r | None \<Rightarrow> [])
      in if close_code = Some 4001 then RAuthenticationExpired
         else if close_code = Some 4002
         then RRevoked (case reason of Some r \<Rightarrow> r | None \<Rightarrow> ''server revoked the connection'')
         else if close_code = Some 4000 \<or> close_code = Some 4003 \<or> close_code = Some 4005
         then RProtocol (''WebSocket closed with terminal code Some('' @ format_dec (the close_code) @ '')'' @ detail)
         else if (case reason of Some r \<Rightarrow> to_ascii_lowercase r = ''unauthorized'' | None \<Rightarrow> False)
         then RAuthenticationExpired
         else RTransport (''WebSocket closed'' @ detail))"

definition text_frame ::
  "'v json \<Rightarrow> nat \<Rightarrow> web_socket_message option \<Rightarrow> ('v server_frame, realtime_error) result" where
  "text_frame J maximum_frame_bytes message =
     (case message of
        Some (WText text) \<Rightarrow>
          if length text > maximum_frame_bytes
          then Err (RProtocol ''inbound WebSocket frame exceeds configured limit'')
          else parse_server_frame J text
      | Some (WPing _) \<Rightarrow> Err (RProtocol ''connection.ready must be a text frame'')
      | Some (WPong _) \<Rightarrow> Err (RProtocol ''connection.ready must be a text frame'')
      | Some (WClose reason) \<Rightarrow> Err (close_error None reason)
      | Some (WCloseFrame close_code reason) \<Rightarrow> Err (close_error close_code reason)
      | None \<Rightarrow> Err (RTransport ''WebSocket peer closed before ready''))"

definition process_message ::
  "'v json \<Rightarrow> 'v payload_decoders \<Rightarrow> ('v state_event \<Rightarrow> nat option)
   \<Rightarrow> (state_snapshot, realtime_error) result \<Rightarrow> (unit, realtime_error) result
   \<Rightarrow> web_socket_message \<Rightarrow> 'v gen \<Rightarrow> 'v gen \<times> (unit, realtime_error) result" where
  "process_message J D enc snap sent message g =
     (case message of
        WPing _ \<Rightarrow> (g, sent)
      | WPong _ \<Rightarrow> (g, Ok ())
      | WClose reason \<Rightarrow> (g, Err (close_error None reason))
      | WCloseFrame close_code reason \<Rightarrow> (g, Err (close_error close_code reason))
      | WText text \<Rightarrow>
          if length text > rc_maximum_frame_bytes (cn_config (fst g))
          then (g, Err (RProtocol ''inbound WebSocket frame exceeds configured limit''))
          else (case parse_server_frame J text of
                  Err x \<Rightarrow> (g, Err x)
                | Ok frame \<Rightarrow> process_frame J D enc snap sent frame g))"

text \<open>
  The part of \<open>socket::run\<close> before its loop, when no stop request arrives. \<open>first\<close> is what the
  ten-second receive gave, \<open>None\<close> for the timeout.
\<close>

definition socket_handshake ::
  "'v json \<Rightarrow> (web_socket_message option, realtime_error) result option \<Rightarrow> (unit, realtime_error) result
   \<Rightarrow> 'v connection \<Rightarrow> 'v gen \<times> (unit, realtime_error) result" where
  "socket_handshake J first sent c =
     (case begin_connecting (sync_new (store_state (cn_state c))) of
        (m0, Err x) \<Rightarrow> ((c, m0), Err (RSync x))
      | (m0, Ok _) \<Rightarrow>
          (case first of
             None \<Rightarrow> ((c, m0), Err (RTransport ''connection.ready timeout''))
           | Some (Err x) \<Rightarrow> ((c, m0), Err x)
           | Some (Ok message) \<Rightarrow>
               (case text_frame J (rc_maximum_frame_bytes (cn_config c)) message of
                  Err x \<Rightarrow> ((c, m0), Err x)
                | Ok (FConnectionReady ready) \<Rightarrow>
                    (case accept_ready (cr_control_connection_id ready) m0 of
                       (m1, Err x) \<Rightarrow> ((c, m1), Err (RSync x))
                     | (m1, Ok _) \<Rightarrow>
                         let c1 = c\<lparr>cn_control_id := Some (cr_control_connection_id ready),
                                    cn_access_expires_at := cr_access_expires_at ready,
                                    cn_outbound := Some []\<rparr>;
                             c2 = emit (EReady (cr_control_connection_id ready) (cr_access_expires_at ready))
                                    (set_status CReady c1)
                         in case begin_sync m1 of
                              (m2, Err x) \<Rightarrow> ((c2, m2), Err (RSync x))
                            | (m2, Ok cursor) \<Rightarrow>
                                (case encode_sync_hello J cursor of
                                   Err x \<Rightarrow> ((c2, m2), Err x)
                                 | Ok text \<Rightarrow>
                                     let c3 = send_text text c2
                                     in case sent of
                                          Err x \<Rightarrow> ((c3, m2), Err x)
                                        | Ok _ \<Rightarrow> ((set_status CSyncing c3, m2), Ok ())))
                | Ok _ \<Rightarrow> ((c, m0),
                    Err (RProtocol ''connection.ready must be the first server frame'')))))"

text \<open>The branches of the socket loop. \<open>None\<close> means that the loop goes on.\<close>

datatype socket_input =
    SocketStop
  | SocketOutgoing "(unit, realtime_error) result"
  | SocketLivenessTimeout
  | SocketReceiveError realtime_error
  | SocketPeerClosed
  | SocketMessage web_socket_message "(state_snapshot, realtime_error) result"
      "(unit, realtime_error) result"

definition ended :: "(unit, realtime_error) result \<Rightarrow> (unit, realtime_error) result option" where
  "ended r = (case r of Ok _ \<Rightarrow> None | Err x \<Rightarrow> Some (Err x))"

definition socket_loop_step ::
  "'v json \<Rightarrow> 'v payload_decoders \<Rightarrow> ('v state_event \<Rightarrow> nat option) \<Rightarrow> socket_input \<Rightarrow> 'v gen
   \<Rightarrow> 'v gen \<times> (unit, realtime_error) result option" where
  "socket_loop_step J D enc input g =
     (case input of
        SocketStop \<Rightarrow> (g, Some (Ok ()))
      | SocketOutgoing sent \<Rightarrow>
          (case cn_outbound (fst g) of
             Some (text # rest) \<Rightarrow>
               ((send_text text ((fst g)\<lparr>cn_outbound := Some rest\<rparr>), snd g), ended sent)
           | _ \<Rightarrow> (g, None))
      | SocketLivenessTimeout \<Rightarrow> (g, Some (Err (RTransport ''WebSocket liveness timeout'')))
      | SocketReceiveError x \<Rightarrow> (g, Some (Err x))
      | SocketPeerClosed \<Rightarrow> (g, Some (Err (RTransport ''WebSocket peer closed'')))
      | SocketMessage message snap sent \<Rightarrow>
          (case process_message J D enc snap sent message g of (g', r) \<Rightarrow> (g', ended r)))"

fun socket_loop ::
  "'v json \<Rightarrow> 'v payload_decoders \<Rightarrow> ('v state_event \<Rightarrow> nat option) \<Rightarrow> socket_input list \<Rightarrow> 'v gen
   \<Rightarrow> 'v gen \<times> (unit, realtime_error) result option" where
  "socket_loop J D enc [] g = (g, None)"
| "socket_loop J D enc (i # is) g =
     (case socket_loop_step J D enc i g of
        (g', None) \<Rightarrow> socket_loop J D enc is g'
      | (g', Some r) \<Rightarrow> (g', Some r))"


section \<open>The reconnecting engine\<close>

fun terminal_error :: "realtime_error \<Rightarrow> bool" where
  "terminal_error RClosed = True"
| "terminal_error (RRevoked _) = True"
| "terminal_error (RProtocol _) = True"
| "terminal_error (RJson _) = True"
| "terminal_error (RSync _) = True"
| "terminal_error (RConfiguration _) = True"
| "terminal_error RAuthenticationRequired = True"
| "terminal_error RAuthenticationExpired = True"
| "terminal_error (RTlsPinMismatch _ _) = True"
| "terminal_error RTlsCertificateInvalid = True"
| "terminal_error _ = False"

text \<open>
  One pass of the loop of \<open>engine::run\<close>: the token the provider gave, what the socket generation did
  to the shared state and how it ended, and whether the backoff ran to its end without a stop.
\<close>

record 'v attempt =
  at_token :: "(access_token, realtime_error) result"
  at_socket :: "'v connection \<Rightarrow> 'v connection \<times> (unit, realtime_error) result"
  at_error_text :: "realtime_error \<Rightarrow> string"
  at_waited :: bool

definition retry_allowed :: "reconnect_policy \<Rightarrow> nat \<Rightarrow> bool" where
  "retry_allowed p n = (case rp_maximum_attempts p of Some maximum \<Rightarrow> n < maximum | None \<Rightarrow> True)"

definition wait_for_retry :: "reconnect_policy \<Rightarrow> nat \<Rightarrow> bool \<Rightarrow> 'v connection \<Rightarrow> 'v connection \<times> bool" where
  "wait_for_retry p n waited c =
     (if \<not> retry_allowed p n then (c, False) else (set_status CReconnecting c, waited))"

definition engine_finish :: "'v connection \<Rightarrow> 'v connection" where
  "engine_finish c = set_status CClosed (clear_socket_state c)"

text \<open>The second component counts the passes; the third tells whether the loop was left.\<close>

fun engine_run ::
  "reconnect_policy \<Rightarrow> nat \<Rightarrow> 'v attempt list \<Rightarrow> 'v connection \<Rightarrow> 'v connection \<times> nat \<times> bool" where
  "engine_run p n [] c = (c, 0, False)"
| "engine_run p n (a # as) c =
     (if cn_stopped c then (engine_finish c, 0, True)
      else
        let c1 = set_status (if n = 0 then CConnecting else CReconnecting) c
        in case at_token a of
             Err x \<Rightarrow>
               if terminal_error x \<or> \<not> rp_enabled p then (engine_finish c1, 1, True)
               else (case wait_for_retry p n (at_waited a) c1 of
                       (c2, False) \<Rightarrow> (engine_finish c2, 1, True)
                     | (c2, True) \<Rightarrow>
                         (case engine_run p (Suc n) as c2 of (c3, k, fin) \<Rightarrow> (c3, Suc k, fin)))
           | Ok token \<Rightarrow>
               (case at_socket a c1 of
                  (c2, result) \<Rightarrow>
                    let c3 = clear_socket_state c2;
                        c4 = (case result of
                                Err x \<Rightarrow> emit (EDisconnected (at_error_text a x)) c3
                              | Ok _ \<Rightarrow> c3)
                    in case result of
                         Ok _ \<Rightarrow> (engine_finish c4, 1, True)
                       | Err x \<Rightarrow>
                           if cn_stopped c4 \<or> terminal_error x \<or> \<not> rp_enabled p
                           then (engine_finish c4, 1, True)
                           else (case wait_for_retry p n (at_waited a) c4 of
                                   (c5, False) \<Rightarrow> (engine_finish c5, 1, True)
                                 | (c5, True) \<Rightarrow>
                                     (case engine_run p (Suc n) as c5 of
                                        (c6, k, fin) \<Rightarrow> (c6, Suc k, fin)))))"

section \<open>Agreement of machine and store\<close>

text \<open>
  Between two frames the machine and the store agree: live, at the same identifier with an empty
  queue; syncing, with the machine at the highest identifier the store has installed or the queue
  holds. The published status names the phase, and the epochs are equal.
\<close>

definition high_water :: "client_state \<Rightarrow> 'v state_event list \<Rightarrow> geid" where
  "high_water s q = Max (insert (cs_geid s) (ev_geid ` set q))"

definition agreed :: "'v gen \<Rightarrow> bool" where
  "agreed g \<longleftrightarrow>
     (case g of (c, m) \<Rightarrow>
       sm_stream_epoch m = cs_stream_epoch (store_state (cn_state c))
       \<and> (case cn_status c of
            CSyncing \<Rightarrow> sm_phase m = PSyncing
                        \<and> sm_geid m = high_water (store_state (cn_state c)) (sm_queued_live m)
          | CLive \<Rightarrow> sm_phase m = PLive \<and> sm_queued_live m = []
                     \<and> sm_geid m = cs_geid (store_state (cn_state c))
          | _ \<Rightarrow> False))"

lemma high_water_Nil [simp]: "high_water s [] = cs_geid s"
  by (simp add: high_water_def)

lemma high_water_snoc: "high_water s q < ev_geid e \<Longrightarrow> high_water s (q @ [e]) = ev_geid e"
  unfolding high_water_def
  by (rule Max_eqI) (auto simp: Max_less_iff dest: less_imp_le)

lemma high_water_raise:
  assumes "high_water s q < cs_geid s'" shows "high_water s' q = cs_geid s'"
  using assms unfolding high_water_def
  by (intro Max_eqI) (auto dest: less_imp_le)

lemma high_water_sorted:
  assumes "sorted_wrt (<) (cs_geid s # map ev_geid es)"
  shows "high_water s es = last (cs_geid s # map ev_geid es)"
proof -
  let ?gs = "cs_geid s # map ev_geid es"
  have "sorted ?gs" by (rule strict_sorted_imp_sorted) (use assms in simp)
  then have "x \<le> last ?gs" if "x \<in> set ?gs" for x
    using that by (metis in_set_conv_nth last_conv_nth length_pos_if_in_set less_Suc_eq_le
        list.discI sorted_nth_mono diff_less zero_less_one Suc_pred' list.size(3) not_less_zero)
  moreover have "last ?gs \<in> set ?gs" by (rule last_in_set) simp
  ultimately show ?thesis
    unfolding high_water_def by (intro Max_eqI) auto
qed

lemma emit_simps [simp]:
  "cn_state (emit ev c) = cn_state c" "cn_status (emit ev c) = cn_status c"
  "cn_config (emit ev c) = cn_config c" "cn_sent (emit ev c) = cn_sent c"
  "cn_outbound (emit ev c) = cn_outbound c" "cn_pending (emit ev c) = cn_pending c"
  "cn_stopped (emit ev c) = cn_stopped c" "cn_control_id (emit ev c) = cn_control_id c"
  "cn_answers (emit ev c) = cn_answers c"
  by (simp_all add: emit_def)

lemma set_status_simps [simp]:
  "cn_state (set_status st c) = cn_state c" "cn_status (set_status st c) = st"
  "cn_config (set_status st c) = cn_config c" "cn_sent (set_status st c) = cn_sent c"
  "cn_outbound (set_status st c) = cn_outbound c" "cn_pending (set_status st c) = cn_pending c"
  "cn_stopped (set_status st c) = cn_stopped c" "cn_control_id (set_status st c) = cn_control_id c"
  "cn_answers (set_status st c) = cn_answers c"
  by (simp_all add: set_status_def)

lemma send_text_simps [simp]:
  "cn_state (send_text t c) = cn_state c" "cn_status (send_text t c) = cn_status c"
  "cn_config (send_text t c) = cn_config c" "cn_sent (send_text t c) = cn_sent c @ [t]"
  by (simp_all add: send_text_def)

text \<open>A snapshot handoff that succeeds ends in agreement, with the hello of the new cursor sent.\<close>

lemma resync_Ok:
  assumes "replace_snapshot_and_hello J snap sent reason (c, m) = ((c', m'), Ok u)"
  shows "\<exists>n. snap = Ok n \<and> store_state (cn_state c') = from_snapshot n \<and> agreed (c', m')
     \<and> cn_status c' = CSyncing \<and> sm_queued_live m' = []
     \<and> (\<exists>text. encode_sync_hello J (sn_cursor n) = Ok text \<and> cn_sent c' = cn_sent c @ [text])"
  using assms
  by (auto simp: replace_snapshot_and_hello_def require_snapshot_def begin_sync_def
      sync_replace_snapshot_def store_replace_snapshot_def agreed_def Let_def
      split: if_splits result.splits prod.splits option.splits)

lemma resync_agreed:
  "replace_snapshot_and_hello J snap sent reason g = (g', Ok u) \<Longrightarrow> agreed g'"
  by (cases g; cases g') (auto dest!: resync_Ok)

lemma recover_agreed: "recover_sync_error J snap sent x g = (g', Ok u) \<Longrightarrow> agreed g'"
  by (auto simp: recover_sync_error_def Let_def split: if_splits dest: resync_agreed)

lemma apply_or_resync_True:
  assumes "apply_or_resync J D snap sent e (c, m) = ((c', m'), Ok True)"
  shows "m' = m \<and> cn_status c' = cn_status c
     \<and> cs_geid (store_state (cn_state c)) < ev_geid e
     \<and> cs_geid (store_state (cn_state c')) = ev_geid e
     \<and> cs_stream_epoch (store_state (cn_state c')) = cs_stream_epoch (store_state (cn_state c))
     \<and> store_events (cn_state c') = store_events (cn_state c) @ [e]"
  using assms store_apply_Ok [of D e "cn_state c"]
  by (auto simp: apply_or_resync_def Let_def split: prod.splits result.splits)

lemma apply_or_resync_False:
  "apply_or_resync J D snap sent e g = (g', Ok False) \<Longrightarrow> agreed g'"
  by (auto simp: apply_or_resync_def Let_def split: prod.splits result.splits dest: resync_agreed)

lemma apply_events_False:
  "apply_events J D snap sent es g = (g', Ok False) \<Longrightarrow> agreed g'"
  by (induction es arbitrary: g)
    (auto split: prod.splits result.splits bool.splits dest: apply_or_resync_False)

lemma apply_events_True:
  "apply_events J D snap sent es (c, m) = ((c', m'), Ok True) \<Longrightarrow>
   m' = m \<and> cn_status c' = cn_status c
   \<and> cs_geid (store_state (cn_state c')) = last (cs_geid (store_state (cn_state c)) # map ev_geid es)
   \<and> sorted_wrt (<) (cs_geid (store_state (cn_state c)) # map ev_geid es)
   \<and> cs_stream_epoch (store_state (cn_state c')) = cs_stream_epoch (store_state (cn_state c))
   \<and> store_events (cn_state c') = store_events (cn_state c) @ es"
proof (induction es arbitrary: c m)
  case Nil
  then show ?case by simp
next
  case (Cons e es)
  obtain c1 m1 where a: "apply_or_resync J D snap sent e (c, m) = ((c1, m1), Ok True)"
    and r: "apply_events J D snap sent es (c1, m1) = ((c', m'), Ok True)"
    using Cons.prems by (auto split: prod.splits result.splits bool.splits)
  from apply_or_resync_True [OF a] Cons.IH [OF r] show ?case by auto
qed

lemma agreed_cong:
  "cn_state c' = cn_state c \<Longrightarrow> cn_status c' = cn_status c \<Longrightarrow> agreed (c', m) = agreed (c, m)"
  by (cases "cn_status c") (simp_all add: agreed_def)

lemma agreed_frame [simp]:
  "agreed (emit ev c, m) = agreed (c, m)" "agreed (send_text t c, m) = agreed (c, m)"
  "agreed (c\<lparr>cn_access_expires_at := x\<rparr>, m) = agreed (c, m)"
  "agreed (c\<lparr>cn_outbound := q\<rparr>, m) = agreed (c, m)"
  "agreed (resolve_pending rid r c, m) = agreed (c, m)"
  by (rule agreed_cong; simp add: resolve_pending_def)+

lemma agreed_cases:
  assumes "agreed (c, m)"
  obtains (syncing) "cn_status c = CSyncing" "sm_phase m = PSyncing"
      "sm_geid m = high_water (store_state (cn_state c)) (sm_queued_live m)"
      "sm_stream_epoch m = cs_stream_epoch (store_state (cn_state c))"
    | (live) "cn_status c = CLive" "sm_phase m = PLive" "sm_queued_live m = []"
      "sm_geid m = cs_geid (store_state (cn_state c))"
      "sm_stream_epoch m = cs_stream_epoch (store_state (cn_state c))"
  using assms by (auto simp: agreed_def split: connection_status.splits)

lemma replay_agreed:
  assumes "agreed (c, m)"
    and "process_frame J D enc snap sent (FSyncReplay r) (c, m) = (g', Ok u)"
  shows "agreed g'"
proof (cases "snd (accept_replay r m)")
  case (Err x)
  then show ?thesis using assms(2)
    by (auto simp: process_frame_def split: prod.splits dest: recover_agreed)
next
  case (Ok v)
  obtain m1 where acc: "accept_replay r m = (m1, Ok ())" using Ok by (cases "accept_replay r m") auto
  obtain b where run: "apply_events J D snap sent (sr_events r) (c, m1) = (g', Ok b)"
    using assms(2) acc by (auto simp: process_frame_def res_simps split: prod.splits)
  show ?thesis
  proof (cases b)
    case False
    with run show ?thesis by (auto dest: apply_events_False)
  next
    case True
    obtain c' m' where g': "g' = (c', m')" by fastforce
    with run True have "apply_events J D snap sent (sr_events r) (c, m1) = ((c', m'), Ok True)" by simp
    note all = apply_events_True [OF this]
    have ph: "sm_phase m = PSyncing" using acc by (auto simp: accept_replay_def split: if_splits)
    with assms(1) have st: "cn_status c = CSyncing"
      and hw: "sm_geid m = high_water (store_state (cn_state c)) (sm_queued_live m)"
      and ep: "sm_stream_epoch m = cs_stream_epoch (store_state (cn_state c))"
      by (auto elim: agreed_cases)
    note frame = accept_replay_frame [OF acc]
    have "sm_geid m1 = high_water (store_state (cn_state c')) (sm_queued_live m)"
    proof (cases "sr_events r = []")
      case True
      then have "m1 = m" using acc by (auto simp: accept_replay_def split: if_splits)
      with hw all True show ?thesis by (simp add: high_water_def)
    next
      case False
      then have ord: "accept_ordered_all (sr_events r) m = (m1, Ok ())"
        using acc by (auto simp: accept_replay_def split: if_splits)
      have pos: "sm_geid m1 = ev_geid (last (sr_events r))"
        using accept_ordered_all_position [of "sr_events r" m] ord False by (simp add: last_map)
      have "sorted_wrt (<) (sm_geid m # map ev_geid (sr_events r))"
        using accept_ordered_all_Ok_iff [of "sr_events r" m] ord by simp
      then have "sm_geid m < ev_geid (last (sr_events r))" using False by simp
      moreover have "cs_geid (store_state (cn_state c')) = ev_geid (last (sr_events r))"
        using all False by (simp add: last_map)
      ultimately show ?thesis using hw pos high_water_raise by metis
    qed
    with st ph ep frame all show ?thesis by (simp add: g' agreed_def)
  qed
qed

lemma complete_agreed:
  assumes "agreed (c, m)"
    and "process_frame J D enc snap sent (FSyncComplete r) (c, m) = (g', Ok u)"
  shows "agreed g'"
proof (cases "sm_phase m = PSyncing")
  case False
  then show ?thesis using assms(2)
    by (auto simp: process_frame_def accept_complete_def dest: recover_agreed)
next
  case True
  let ?c1 = "c\<lparr>cn_state := store_update_cursor (sy_cursor r) (cn_state c)\<rparr>"
  let ?m1 = "(clear_queue m)\<lparr>sm_cursor := sy_cursor r, sm_phase := PLive\<rparr>"
  obtain g1 b where run: "apply_events J D snap sent (sm_queued_live m) (?c1, ?m1) = (g1, Ok b)"
    and g': "g' = (if b then (set_status CLive (fst g1), snd g1) else g1)"
    using assms(2) True
    by (auto simp: process_frame_def accept_complete_def Let_def
        split: prod.splits result.splits bool.splits)
  show ?thesis
  proof (cases b)
    case False
    with run g' show ?thesis by (auto dest: apply_events_False)
  next
    case b: True
    obtain c' m' where g1: "g1 = (c', m')" by fastforce
    with run b have "apply_events J D snap sent (sm_queued_live m) (?c1, ?m1) = ((c', m'), Ok True)"
      by simp
    note all = apply_events_True [OF this]
    from assms(1) True have hw: "sm_geid m = high_water (store_state (cn_state c)) (sm_queued_live m)"
      and ep: "sm_stream_epoch m = cs_stream_epoch (store_state (cn_state c))"
      by (auto elim: agreed_cases)
    have same: "cs_geid (store_state (cn_state ?c1)) = cs_geid (store_state (cn_state c))"
      "cs_stream_epoch (store_state (cn_state ?c1)) = cs_stream_epoch (store_state (cn_state c))"
      by (simp_all add: store_update_cursor_def)
    have "sm_geid m = cs_geid (store_state (cn_state c'))"
      using hw all same high_water_sorted [of "store_state (cn_state c)" "sm_queued_live m"] by simp
    with all same ep show ?thesis by (simp add: g' b g1 agreed_def)
  qed
qed

lemma live_event_agreed:
  assumes "agreed (c, m)"
    and "process_frame J D enc snap sent (FStateEvent e) (c, m) = (g', Ok u)"
  shows "agreed g'"
  using assms(1)
proof (cases rule: agreed_cases)
  case syncing
  obtain m1 r1 where acc: "accept_live_event enc e m = (m1, r1)" by fastforce
  show ?thesis
  proof (cases r1)
    case (Err x)
    with acc assms(2) show ?thesis by (auto simp: process_frame_def dest: recover_agreed)
  next
    case (Ok o1)
    have o1: "o1 = None" "sm_phase m1 = PSyncing" "sm_stream_epoch m1 = sm_stream_epoch m"
      "sm_queued_live m1 = sm_queued_live m @ [e]" "sm_geid m1 = ev_geid e" "sm_geid m < ev_geid e"
      using acc Ok syncing(2)
      by (auto simp: accept_live_event_def accept_ordered_event_def not_le
          split: option.splits if_splits)
    then have "g' = (c, m1)" using acc Ok assms(2) by (auto simp: process_frame_def)
    with o1 syncing show ?thesis by (simp add: agreed_def high_water_snoc)
  qed
next
  case live
  show ?thesis
  proof (cases "sm_geid m < ev_geid e")
    case False
    with live assms(2) show ?thesis
      by (auto simp: process_frame_def accept_live_event_def accept_ordered_event_def not_less
          dest: recover_agreed)
  next
    case True
    let ?m1 = "m\<lparr>sm_geid := ev_geid e, sm_cursor := ev_cursor e\<rparr>"
    have "\<not> ev_geid e \<le> sm_geid m" using True by simp
    with live(2) have "accept_live_event enc e m = (?m1, Ok (Some e))"
      by (simp add: accept_live_event_def accept_ordered_event_def)
    then obtain b where run: "apply_or_resync J D snap sent e (c, ?m1) = (g', Ok b)"
      using assms(2) by (auto simp: process_frame_def res_simps split: prod.splits)
    show ?thesis
    proof (cases b)
      case False
      with run show ?thesis by (auto dest: apply_or_resync_False)
    next
      case b: True
      obtain c' m' where g': "g' = (c', m')" by fastforce
      with run b have "apply_or_resync J D snap sent e (c, ?m1) = ((c', m'), Ok True)" by simp
      from apply_or_resync_True [OF this] live show ?thesis
        by (simp add: g' agreed_def)
    qed
  qed
qed

lemma process_frame_agreed:
  assumes "agreed g" and "process_frame J D enc snap sent frame g = (g', Ok u)"
  shows "agreed g'"
proof -
  obtain c m where g: "g = (c, m)" by fastforce
  show ?thesis
  proof (cases frame)
    case (FSyncReplay r)
    with assms g replay_agreed show ?thesis by blast
  next
    case (FSyncComplete r)
    with assms g complete_agreed show ?thesis by blast
  next
    case (FStateEvent e)
    with assms g live_event_agreed show ?thesis by blast
  next
    case (FCommandOk a)
    with assms g show ?thesis
      by (auto simp: process_frame_def Let_def split: option.splits)
  next
    case (FCommandError e)
    with assms g show ?thesis by (auto simp: process_frame_def)
  next
    case (FUnknown f)
    with assms g show ?thesis
      by (auto simp: process_frame_def split: if_splits dest: resync_agreed)
  qed (use assms g in \<open>auto simp: process_frame_def dest: resync_agreed\<close>)
qed

lemma process_message_agreed:
  assumes "agreed g" and "process_message J D enc snap sent msg g = (g', Ok u)"
  shows "agreed g'"
  using assms
  by (auto simp: process_message_def split: web_socket_message.splits if_splits result.splits
      dest: process_frame_agreed [rotated])

lemma socket_loop_step_agreed:
  assumes "agreed g" and "socket_loop_step J D enc input g = (g', None)"
  shows "agreed g'"
proof (cases input)
  case (SocketMessage msg snap sent)
  then obtain u where "process_message J D enc snap sent msg g = (g', Ok u)"
    using assms(2)
    by (auto simp: socket_loop_step_def ended_def split: prod.splits result.splits)
  with assms(1) show ?thesis by (rule process_message_agreed)
next
  case (SocketOutgoing sent)
  with assms show ?thesis
    by (cases g) (auto simp: socket_loop_step_def split: option.splits list.splits)
qed (use assms in \<open>auto simp: socket_loop_step_def\<close>)

lemma socket_loop_agreed:
  "agreed g \<Longrightarrow> socket_loop J D enc inputs g = (g', None) \<Longrightarrow> agreed g'"
  by (induction inputs arbitrary: g)
    (auto split: prod.splits option.splits dest: socket_loop_step_agreed)

lemma handshake_agreed:
  assumes "socket_handshake J first sent c = (g, Ok u)"
  shows "agreed g"
  using assms
  by (auto simp: socket_handshake_def begin_connecting_def sync_new_def accept_ready_def
      begin_sync_def agreed_def Let_def
      split: option.splits result.splits server_frame.splits prod.splits if_splits)


section \<open>Properties of the connection\<close>

text \<open>A reader for the frames of the examples: one letter per frame.\<close>

definition letter_json :: "string json" where
  "letter_json = type_only_json\<lparr>
     js_envelope := (\<lambda>v. Ok \<lparr>en_frame_type = (if v = ''R'' then ''connection.ready''
         else if v = ''C'' then ''sync.complete'' else if v = ''E'' then ''state.event'' else v),
       en_request_id = None, en_data = []\<rparr>),
     js_connection_ready := (\<lambda>_. Ok \<lparr>cr_control_connection_id = FixedId [3], cr_access_expires_at = 9\<rparr>),
     js_sync_complete := (\<lambda>_. Ok \<lparr>sy_cursor = Cursor ''z''\<rparr>),
     js_state_event := (\<lambda>_. Ok \<lparr>ev_frame_type = ''state.event'', ev_geid = Geid 8, ev_cursor = Cursor ''y'',
        ev_class = ''state'', ev_scope = \<lparr>sc_kind = ''server'', sc_id = None\<rparr>,
        ev_event_type = ''server.updated'', ev_causation_id = None, ev_server_time = 0, ev_data = []\<rparr>)\<rparr>"

definition no_payloads :: "string payload_decoders" where
  "no_payloads = \<lparr>de_group = Err, de_channel = Err, de_role = Err, de_entity_tombstone = Err,
     de_user_tombstone = Err, de_role_tombstone = Err, de_user_envelope = Err, de_self_envelope = Err,
     de_membership_envelope = Err, de_membership_tombstone = Err, de_authority_envelope = Err\<rparr>"

definition sample_snapshot :: state_snapshot where
  "sample_snapshot = \<lparr>sn_cursor = Cursor ''c'', sn_stream_epoch = FixedId [9], sn_geid = Geid 7,
     sn_state_version = ''1'', sn_state = \<lparr>ss_server = \<lparr>sv_name = ''s'', sv_version = ''1''\<rparr>,
       ss_self_state = sample_self, ss_users = [], ss_roles = [], ss_groups = [], ss_channels = [],
       ss_voice_memberships = []\<rparr>\<rparr>"

definition sample_handshake :: "string gen \<times> (unit, realtime_error) result" where
  "sample_handshake = socket_handshake letter_json (Some (Ok (Some (WText ''R'')))) (Ok ())
     (connection_start realtime_config_new sample_snapshot)"

definition sample_inputs :: "socket_input list" where
  "sample_inputs = [SocketMessage (WText ''E'') (Err RNotLive) (Ok ()),
     SocketMessage (WText ''C'') (Err RNotLive) (Ok ())]"



text \<open>
  Claim C13. In the live phase no state event is lost silently: a frame that is processed without
  error either installed exactly that event at the end of the event channel and moved the store to
  it, or left a complete snapshot from the provider in the store with a new hello for its cursor sent.
\<close>

theorem live_event_installed_or_resynced:
  assumes "sm_phase m = PLive"
    and "process_frame J D enc snap sent (FStateEvent e) (c, m) = ((c', m'), Ok u)"
  shows "(store_events (cn_state c') = store_events (cn_state c) @ [e]
          \<and> cs_geid (store_state (cn_state c')) = ev_geid e \<and> cn_status c' = cn_status c)
     \<or> (\<exists>n text. snap = Ok n \<and> store_state (cn_state c') = from_snapshot n
          \<and> cn_status c' = CSyncing \<and> encode_sync_hello J (sn_cursor n) = Ok text
          \<and> cn_sent c' = cn_sent c @ [text])"
proof -
  obtain m1 r1 where acc: "accept_live_event enc e m = (m1, r1)" by fastforce
  show ?thesis
  proof (cases r1)
    case (Err x)
    with acc assms(2) have "recover_sync_error J snap sent x (c, m1) = ((c', m'), Ok u)"
      by (simp add: process_frame_def)
    then show ?thesis
      by (auto simp: recover_sync_error_def Let_def split: if_splits dest!: resync_Ok)
  next
    case (Ok o1)
    with acc assms(1) have "o1 = Some e"
      by (auto simp: accept_live_event_def accept_ordered_event_def split: if_splits)
    with acc Ok assms(2) obtain b where run: "apply_or_resync J D snap sent e (c, m1) = ((c', m'), Ok b)"
      by (auto simp: process_frame_def res_simps split: prod.splits)
    show ?thesis
    proof (cases b)
      case True
      with run apply_or_resync_True [of J D snap sent e c m1 c' m'] show ?thesis by simp
    next
      case False
      with run show ?thesis
        by (auto simp: apply_or_resync_def Let_def split: prod.splits result.splits dest!: resync_Ok)
    qed
  qed
qed

theorem live_event_installed_or_resynced_witness:
  "\<exists>c m e c' m'. process_frame letter_json no_payloads (\<lambda>_. Some 1) (Err RNotLive) (Ok ())
        (FStateEvent e) (c, m) = ((c', m'), Ok ())
     \<and> store_events (cn_state c') = store_events (cn_state c) @ [e]"
proof -
  let ?c = "connection_start realtime_config_new sample_snapshot :: string connection"
  let ?m = "(sync_new (from_snapshot sample_snapshot) :: string sync_machine)\<lparr>sm_phase := PLive\<rparr>"
  obtain e where e: "js_state_event letter_json [] = Ok e" by (simp add: letter_json_def)
  have "snd (process_frame letter_json no_payloads (\<lambda>_. Some 1) (Err RNotLive) (Ok ())
      (FStateEvent (case js_state_event letter_json [] of Ok e \<Rightarrow> e)) (?c, ?m)) = Ok ()"
    by code_simp
  then obtain c' m' where run: "process_frame letter_json no_payloads (\<lambda>_. Some 1) (Err RNotLive) (Ok ())
      (FStateEvent e) (?c, ?m) = ((c', m'), Ok ())"
    using e by (simp split: result.splits) (metis prod.collapse)
  have "sm_phase ?m = PLive" by simp
  from live_event_installed_or_resynced [OF this run]
  have "store_events (cn_state c') = store_events (cn_state ?c) @ [e]" by auto
  with run show ?thesis by blast
qed


section \<open>Command waiters\<close>

datatype command_call =
    CallRegister bool "string \<Rightarrow> (string, realtime_error) result" nat
  | CallEnqueue string string
  | CallDrop string
  | CallAnswer string "(command_ack, realtime_error) result"
  | CallSocketLost

fun command_step :: "command_call \<Rightarrow> 'v connection \<Rightarrow> 'v connection" where
  "command_step (CallRegister b encode millis) c = fst (send_command_register b encode millis c)"
| "command_step (CallEnqueue rid text) c = fst (send_command_enqueue rid text c)"
| "command_step (CallDrop rid) c = drop_pending rid c"
| "command_step (CallAnswer rid r) c = resolve_pending rid r c"
| "command_step CallSocketLost c = clear_socket_state c"

text \<open>Waiters are pairwise distinct, bounded, never already answered, and stem from used counters.\<close>

definition waiters_inv :: "nat \<Rightarrow> 'v connection \<Rightarrow> bool" where
  "waiters_inv k c \<longleftrightarrow>
     unat (cn_sequence c) \<le> k
     \<and> length (cn_pending c) \<le> rc_maximum_pending_commands (cn_config c)
     \<and> distinct (cn_pending c @ map fst (cn_answers c))
     \<and> (\<forall>rid \<in> set (cn_pending c @ map fst (cn_answers c)).
          \<exists>q m. unat q < unat (cn_sequence c) \<and> rid = snd (next_request_id q m))"

lemma waiters_inv_shrink:
  assumes "waiters_inv k c" and "cn_sequence c' = cn_sequence c" and "cn_config c' = cn_config c"
    and "length (cn_pending c') \<le> length (cn_pending c)"
    and "distinct (cn_pending c' @ map fst (cn_answers c'))"
    and "set (cn_pending c' @ map fst (cn_answers c')) \<subseteq> set (cn_pending c @ map fst (cn_answers c))"
  shows "waiters_inv (Suc k) c'"
  unfolding waiters_inv_def
proof (intro conjI)
  show "unat (cn_sequence c') \<le> Suc k" using assms(1,2) by (simp add: waiters_inv_def)
  show "length (cn_pending c') \<le> rc_maximum_pending_commands (cn_config c')"
    using assms(1,3,4) by (simp add: waiters_inv_def)
  show "\<forall>rid \<in> set (cn_pending c' @ map fst (cn_answers c')).
      \<exists>q m. unat q < unat (cn_sequence c') \<and> rid = snd (next_request_id q m)"
    using assms(1,2,6) unfolding waiters_inv_def by (simp only:) blast
qed (rule assms(5))

lemma drop_pending_inv: "waiters_inv k c \<Longrightarrow> waiters_inv (Suc k) (drop_pending rid c)"
  by (rule waiters_inv_shrink)
    (auto simp: waiters_inv_def drop_pending_def distinct_removeAll)

lemma register_inv:
  assumes "waiters_inv k c" and "Suc k < 2 ^ 64"
  shows "waiters_inv (Suc k) (fst (send_command_register b encode millis c))"
proof -
  let ?q = "cn_sequence c"
  obtain rid where nxt: "next_request_id ?q millis = (?q + 1, rid)"
    by (simp add: next_request_id_def Let_def)
  have q: "unat ?q \<le> k" using assms(1) by (simp add: waiters_inv_def)
  have suc: "unat (?q + 1) = Suc (unat ?q)"
    using q assms(2) by (simp add: unat_word_ariths(1))
  have fresh: "rid \<notin> set (cn_pending c @ map fst (cn_answers c))"
  proof
    assume "rid \<in> set (cn_pending c @ map fst (cn_answers c))"
    then obtain q' m where "unat q' < unat ?q" "rid = snd (next_request_id q' m)"
      using assms(1) unfolding waiters_inv_def by blast
    then show False using next_request_id_inject [of q' m ?q millis] nxt by auto
  qed
  have old: "\<exists>q' m. unat q' < Suc (unat ?q) \<and> r = snd (next_request_id q' m)"
    if "r \<in> set (cn_pending c @ map fst (cn_answers c))" for r
    using that assms(1) unfolding waiters_inv_def by (meson less_SucI)
  have new: "\<exists>q' m. unat q' < Suc (unat ?q) \<and> rid = snd (next_request_id q' m)"
    using nxt by (metis lessI snd_conv)
  show ?thesis
    using assms(1) q fresh old new
    by (auto simp: send_command_register_def nxt waiters_inv_def suc Let_def split: result.splits)
qed

lemma command_step_inv:
  assumes "waiters_inv k c" and "Suc k < 2 ^ 64"
  shows "waiters_inv (Suc k) (command_step call c)"
proof (cases call)
  case (CallRegister b encode millis)
  with register_inv [OF assms] show ?thesis by simp
next
  case (CallEnqueue rid body)
  have "waiters_inv (Suc k) (c\<lparr>cn_outbound := q\<rparr>)" for q
    by (rule waiters_inv_shrink [OF assms(1)]) (use assms(1) in \<open>auto simp: waiters_inv_def\<close>)
  with CallEnqueue drop_pending_inv [OF assms(1)] show ?thesis
    by (simp add: send_command_enqueue_def split: option.splits)
next
  case (CallDrop rid)
  with drop_pending_inv [OF assms(1)] show ?thesis by simp
next
  case (CallAnswer rid r)
  have "waiters_inv (Suc k) (resolve_pending rid r c)"
    by (rule waiters_inv_shrink [OF assms(1)])
      (use assms(1) in \<open>auto simp: waiters_inv_def resolve_pending_def distinct_removeAll\<close>)
  with CallAnswer show ?thesis by simp
next
  case CallSocketLost
  have "waiters_inv (Suc k) (clear_socket_state c)"
    by (rule waiters_inv_shrink [OF assms(1)])
      (use assms(1) in \<open>auto simp: waiters_inv_def clear_socket_state_def comp_def\<close>)
  with CallSocketLost show ?thesis by simp
qed




section \<open>Properties of the engine\<close>

lemma engine_finish_closed:
  "cn_status (engine_finish c) = CClosed" "cn_pending (engine_finish c) = []"
  "cn_control_id (engine_finish c) = None" "cn_outbound (engine_finish c) = None"
  by (simp_all add: engine_finish_def clear_socket_state_def)

text \<open>A pass either leaves the loop or, when a retry is allowed, hands on to the next pass.\<close>

lemma after_wait:
  assumes "r = (case wait_for_retry p n w c of
      (c2, False) \<Rightarrow> (engine_finish c2, Suc 0, True)
    | (c2, True) \<Rightarrow> (case engine_run p (Suc n) as c2 of (c3, k, fin) \<Rightarrow> (c3, Suc k, fin)))"
  shows "(\<exists>d k. k \<le> 1 \<and> r = (engine_finish d, k, True))
     \<or> (\<exists>d c3 k fin. retry_allowed p n \<and> engine_run p (Suc n) as d = (c3, k, fin) \<and> r = (c3, Suc k, fin))"
proof (cases "retry_allowed p n \<and> w")
  case True
  obtain c3 k fin where "engine_run p (Suc n) as (set_status CReconnecting c) = (c3, k, fin)"
    by (metis prod.collapse)
  with assms True show ?thesis by (auto simp: wait_for_retry_def)
next
  case False
  then have "\<exists>d. r = (engine_finish d, Suc 0, True)"
    using assms by (auto simp: wait_for_retry_def)
  then show ?thesis by auto
qed

lemma engine_run_step:
  assumes "r = engine_run p n (a # as) c"
  shows "(\<exists>d k. k \<le> 1 \<and> r = (engine_finish d, k, True))
     \<or> (\<exists>d c3 k fin. retry_allowed p n \<and> engine_run p (Suc n) as d = (c3, k, fin) \<and> r = (c3, Suc k, fin))"
    (is "?goal")
proof (cases "cn_stopped c")
  case True
  with assms show ?thesis by auto
next
  case running: False
  let ?c1 = "set_status (if n = 0 then CConnecting else CReconnecting) c"
  show ?thesis
  proof (cases "at_token a")
    case (Err x)
    show ?thesis
    proof (cases "terminal_error x \<or> \<not> rp_enabled p")
      case True
      with Err running assms show ?thesis by auto
    next
      case False
      with Err running assms show ?thesis
        by (intro after_wait [where w = "at_waited a" and c = ?c1]) (simp split del: if_split)
    qed
  next
    case (Ok token)
    obtain c2 result where s: "at_socket a ?c1 = (c2, result)" by fastforce
    show ?thesis
    proof (cases result)
      case (Ok u)
      with \<open>at_token a = result.Ok token\<close> s running assms show ?thesis by auto
    next
      case (Err x)
      let ?c4 = "emit (EDisconnected (at_error_text a x)) (clear_socket_state c2)"
      show ?thesis
      proof (cases "cn_stopped ?c4 \<or> terminal_error x \<or> \<not> rp_enabled p")
        case True
        with Ok Err s running assms show ?thesis by auto
      next
        case False
        with Ok Err s running assms show ?thesis
          by (intro after_wait [where w = "at_waited a" and c = ?c4]) (simp split del: if_split)
      qed
    qed
  qed
qed

lemma engine_run_closed: "engine_run p n as c = (c', k, True) \<Longrightarrow> \<exists>d. c' = engine_finish d"
proof (induction as arbitrary: n c k)
  case (Cons a as)
  with engine_run_step [OF refl, of p n a as c] show ?case by fastforce
qed simp

lemma engine_run_attempts:
  "engine_run p n as c = (c', k, fin) \<Longrightarrow> rp_maximum_attempts p = Some M \<Longrightarrow> k \<le> Suc (M - n)"
proof (induction as arbitrary: n c k c')
  case (Cons a as)
  have "Suc k' \<le> Suc (M - n)" if "k' \<le> Suc (M - Suc n)" "retry_allowed p n" for k'
    using that Cons.prems(2) by (simp add: retry_allowed_def)
  with engine_run_step [OF refl, of p n a as c] Cons.prems Cons.IH show ?case by fastforce
qed simp

text \<open>
  Claim C20. When the engine's loop is left, the handle is \<open>Closed\<close>, has no control identifier and no
  outbound queue, and every waiting command has been completed. With a limit of \<open>M\<close> reconnects the
  engine makes at most \<open>M + 1\<close> passes however its sockets end.
\<close>

theorem engine_terminates_closed:
  assumes "engine_run p 0 as c = (c', k, True)"
  shows "cn_status c' = CClosed \<and> cn_pending c' = [] \<and> cn_control_id c' = None \<and> cn_outbound c' = None
     \<and> (\<forall>M. rp_maximum_attempts p = Some M \<longrightarrow> k \<le> Suc M)"
  using engine_run_closed [OF assms] engine_run_attempts [OF assms] engine_finish_closed by auto

definition failing_attempt :: "string attempt" where
  "failing_attempt = \<lparr>at_token = Ok (AccessToken ''t''), at_socket = (\<lambda>c. (c, Err (RTransport ''lost''))),
     at_error_text = (\<lambda>_. ''lost''), at_waited = True\<rparr>"

theorem engine_terminates_closed_witness:
  "\<exists>c' k. engine_run (with_maximum_attempts (Some 2) default_policy) 0 (replicate 5 failing_attempt)
       (connection_start realtime_config_new sample_snapshot) = (c', k, True) \<and> k \<le> 3"
proof -
  let ?r = "engine_run (with_maximum_attempts (Some 2) default_policy) 0 (replicate 5 failing_attempt)
       (connection_start realtime_config_new sample_snapshot)"
  have "snd (snd ?r) = True" by code_simp
  then obtain c' k where r: "?r = (c', k, True)" by (metis prod.collapse)
  from engine_terminates_closed [OF r] r show ?thesis
    by (auto simp: with_maximum_attempts_def)
qed

end
