(* ===== verification/IpText.thy ===== *)
theory IpText
  imports RustText HexText
begin

text \<open>
  The printed form of IP addresses, \<open>Display\<close> of \<open>std::net::IpAddr\<close>, and its agreement with the
  parser of \<open>RustText\<close>. Server cards keep a host as the text the standard library prints for it.
\<close>

section \<open>Printing\<close>

fun join_with :: "string \<Rightarrow> string list \<Rightarrow> string" where
  "join_with sep [] = []"
| "join_with sep [x] = x"
| "join_with sep (x # y # zs) = x @ sep @ join_with sep (y # zs)"

definition ipv4_display :: "nat list \<Rightarrow> string" where
  "ipv4_display os = join_with ''.'' (map format_dec os)"

text \<open>
  The loop that finds the first longest run of zero segments: \<open>cur\<close> is the length of the run that
  ends before index \<open>i\<close>, \<open>best\<close> the longest run so far as start and length.
\<close>

fun longest_zeroes :: "nat \<Rightarrow> nat \<Rightarrow> nat \<times> nat \<Rightarrow> nat list \<Rightarrow> nat \<times> nat" where
  "longest_zeroes i cur best [] = best"
| "longest_zeroes i cur best (g # gs) =
     (if g = 0
      then longest_zeroes (Suc i) (Suc cur)
             (if Suc cur > snd best then (i - cur, Suc cur) else best) gs
      else longest_zeroes (Suc i) 0 best gs)"

definition ipv6_display :: "nat list \<Rightarrow> string" where
  "ipv6_display gs =
     (if take 6 gs = [0, 0, 0, 0, 0, 65535]
      then ''::ffff:'' @ ipv4_display [gs ! 6 div 256, gs ! 6 mod 256, gs ! 7 div 256, gs ! 7 mod 256]
      else case longest_zeroes 0 0 (0, 0) gs of
             (start, len) \<Rightarrow>
               if len > 1
               then join_with '':'' (map format_hex (take start gs)) @ ''::''
                    @ join_with '':'' (map format_hex (drop (start + len) gs))
               else join_with '':'' (map format_hex gs))"

fun ip_display :: "ip_addr \<Rightarrow> string" where
  "ip_display (V4 os) = ipv4_display os"
| "ip_display (V6 gs) = ipv6_display gs"

fun ip_wf :: "ip_addr \<Rightarrow> bool" where
  "ip_wf (V4 os) \<longleftrightarrow> length os = 4 \<and> (\<forall>b \<in> set os. b < 256)"
| "ip_wf (V6 gs) \<longleftrightarrow> length gs = 8 \<and> (\<forall>g \<in> set gs. g < 65536)"


section \<open>Numbers\<close>

text \<open>\<open>stops radix rest\<close>: a number in the given radix ends before \<open>rest\<close>.\<close>

definition stops :: "nat \<Rightarrow> string \<Rightarrow> bool" where
  "stops radix rest \<longleftrightarrow> (case rest of [] \<Rightarrow> True | c # _ \<Rightarrow> digit_value radix c = None)"

lemma read_digits_append:
  assumes "list_all (\<lambda>c. digit_value radix c \<noteq> None) ds" "stops radix rest" "count + length ds \<le> maxd"
  shows "read_digits radix maxd count acc (ds @ rest)
    = Some (foldl (\<lambda>a c. a * radix + the (digit_value radix c)) acc ds, count + length ds, rest)"
  using assms
proof (induction ds arbitrary: count acc)
  case Nil
  then show ?case by (cases rest) (auto simp: stops_def)
next
  case (Cons c cs)
  then show ?case by auto
qed

lemma digit_value_dec: "d < 10 \<Longrightarrow> digit_value 10 (dec_digit d) = Some d"
  by (simp add: digit_value_def dec_digit_def is_ascii_digit_def of_char_of)

lemma digit_value_hex: "d < 16 \<Longrightarrow> digit_value 16 (hex_char d) = Some d"
proof -
  have "\<forall>d \<in> set [0..<16]. digit_value 16 (hex_char d) = Some d" by code_simp
  then show "d < 16 \<Longrightarrow> digit_value 16 (hex_char d) = Some d" by auto
qed

lemma format_dec_digits:
  "list_all (\<lambda>c. digit_value 10 c \<noteq> None) (format_dec n)
   \<and> foldl (\<lambda>a c. a * 10 + the (digit_value 10 c)) 0 (format_dec n) = n"
proof (induction n rule: format_dec.induct)
  case (1 n)
  then show ?case by (subst (1 2) format_dec.simps) (auto simp: digit_value_dec)
qed

lemma format_hex_digits:
  "list_all (\<lambda>c. digit_value 16 c \<noteq> None) (format_hex n)
   \<and> foldl (\<lambda>a c. a * 16 + the (digit_value 16 c)) 0 (format_hex n) = n"
proof (induction n rule: format_hex.induct)
  case (1 n)
  then show ?case by (subst (1 2) format_hex.simps) (auto simp: digit_value_hex)
qed

lemma format_hex_nonempty [simp]: "format_hex n \<noteq> []"
  by (subst format_hex.simps) simp

lemma length_format_dec: "n < 10 ^ Suc k \<Longrightarrow> length (format_dec n) \<le> Suc k"
proof (induction k arbitrary: n)
  case 0
  then show ?case by (subst format_dec.simps) simp
next
  case (Suc k)
  show ?case
  proof (cases "n < 10")
    case True
    then show ?thesis by (subst format_dec.simps) simp
  next
    case False
    have "n div 10 < 10 ^ Suc k" using Suc.prems by (simp add: less_mult_imp_div_less)
    with Suc.IH False show ?thesis by (subst format_dec.simps) simp
  qed
qed

text \<open>The printed form of a positive number has no leading zero.\<close>

lemma hd_format_dec_zero: "hd (format_dec n) = CHR ''0'' \<Longrightarrow> length (format_dec n) = 1"
proof (induction n rule: format_dec.induct)
  case (1 n)
  have zero: "dec_digit d = CHR ''0'' \<longleftrightarrow> d = 0" if "d < 10" for d
  proof -
    have "CHR ''0'' = dec_digit 0" by code_simp
    then show ?thesis using dec_value_digit [OF that] dec_value_digit [of 0] by auto
  qed
  show ?case
  proof (cases "n < 10")
    case True
    then show ?thesis by (subst format_dec.simps) simp
  next
    case False
    then have eq: "format_dec n = format_dec (n div 10) @ [dec_digit (n mod 10)]"
      by (subst format_dec.simps) simp
    with "1.prems" have "hd (format_dec (n div 10)) = CHR ''0''" by (simp add: hd_append)
    with "1.IH" False have "length (format_dec (n div 10)) = 1" by simp
    then have "n div 10 < 10" by (subst (asm) format_dec.simps) (auto split: if_splits)
    then have "format_dec (n div 10) = [dec_digit (n div 10)]" by (subst format_dec.simps) simp
    with \<open>hd (format_dec (n div 10)) = CHR ''0''\<close> \<open>n div 10 < 10\<close> have "n div 10 = 0"
      by (simp add: zero)
    with False show ?thesis by simp
  qed
qed

lemma read_number_dec:
  assumes "n < 256" "stops 10 rest"
  shows "read_number 10 3 False 256 (format_dec n @ rest) = Some (n, rest)"
proof -
  have len: "length (format_dec n) \<le> 3" using length_format_dec [of n 2] assms by simp
  have "length (format_dec n) \<noteq> 0" by simp
  with len assms format_dec_digits [of n] hd_format_dec_zero [of n] show ?thesis
    by (auto simp: read_number_def read_digits_append hd_append)
qed

lemma read_number_hex:
  assumes "n < 65536" "stops 16 rest"
  shows "read_number 16 4 True 65536 (format_hex n @ rest) = Some (n, rest)"
proof -
  have "length (format_hex n) \<le> 4" using length_format_hex [of n 3] assms by simp
  moreover have "length (format_hex n) \<noteq> 0" by simp
  ultimately show ?thesis
    using assms format_hex_digits [of n] by (auto simp: read_number_def read_digits_append)
qed



section \<open>IPv4 addresses\<close>

lemma stops_sep: "stops 10 (CHR ''.'' # s)" "stops 16 (CHR '':'' # s)" "stops radix []"
  by (simp_all add: stops_def digit_value_def is_ascii_digit_def is_ascii_lower_def is_ascii_upper_def)

lemma join_with_Cons: "xs \<noteq> [] \<Longrightarrow> join_with sep (x # xs) = x @ sep @ join_with sep xs"
  by (cases xs) auto

lemma read_octets_display:
  assumes "\<forall>b \<in> set os. b < 256" "os \<noteq> []"
  shows "read_octets (length os) i ((if i = 0 then [] else ''.'') @ ipv4_display os) = Some (os, [])"
  using assms
proof (induction os arbitrary: i)
  case (Cons b bs)
  have sep: "read_sep (CHR ''.'') i ((if i = 0 then [] else ''.'') @ s) = Some s" for s
    by (simp add: read_sep_def)
  show ?case
  proof (cases bs)
    case Nil
    with Cons.prems show ?thesis
      using sep read_number_dec [of b "[]"] by (simp add: ipv4_display_def stops_sep)
  next
    case (Cons c cs)
    then have shown: "ipv4_display (b # bs) = format_dec b @ ''.'' @ ipv4_display bs"
      by (simp add: ipv4_display_def join_with_Cons)
    have "read_octets (length bs) (Suc i) (''.'' @ ipv4_display bs) = Some (bs, [])"
      using Cons.IH [of "Suc i"] Cons.prems Cons by simp
    then show ?thesis
      using Cons.prems read_number_dec [of b "''.'' @ ipv4_display bs"]
      by (simp add: shown sep stops_sep)
  qed
qed simp

lemma parse_ipv4_display:
  assumes "length os = 4" "\<forall>b \<in> set os. b < 256"
  shows "read_ipv4 (ipv4_display os) = Some (os, [])"
proof -
  have "os \<noteq> []" using assms by auto
  with read_octets_display [of os 0] assms show ?thesis by (simp add: read_ipv4_def)
qed

text \<open>A text without a dot is no IPv4 address, and neither is one that starts with a colon.\<close>

lemma read_digits_suffix:
  "read_digits radix maxd count acc s = Some (n, k, rest) \<Longrightarrow> set rest \<subseteq> set s"
  by (induction radix maxd count acc s rule: read_digits.induct) (auto split: option.splits if_splits)

lemma read_number_suffix: "read_number radix maxd z bound s = Some (n, rest) \<Longrightarrow> set rest \<subseteq> set s"
  by (auto simp: read_number_def split: option.splits if_splits dest!: read_digits_suffix)

lemma no_dot_no_ipv4:
  assumes "CHR ''.'' \<notin> set s"
  shows "read_ipv4 s = None"
proof (rule ccontr)
  assume "read_ipv4 s \<noteq> None"
  then obtain n rest where r: "read_number 10 3 False 256 s = Some (n, rest)"
      and next_octet: "read_octets (Suc (Suc (Suc 0))) (Suc 0) rest \<noteq> None"
    by (auto simp: read_ipv4_def numeral_eq_Suc read_sep_def split: option.splits)
  from next_octet have "CHR ''.'' \<in> set rest"
    by (cases rest) (auto simp: read_sep_def split: if_splits)
  with read_number_suffix [OF r] assms show False by blast
qed

lemma no_digit_no_ipv4:
  assumes "digit_value 10 c = None"
  shows "read_ipv4 (c # s) = None"
proof -
  have "read_octets (Suc n) 0 (c # s) = None" for n
    by (simp add: read_sep_def read_number_def assms)
  from this [of 3] show ?thesis by (simp add: read_ipv4_def)
qed

lemma not_decimal: "digit_value 10 CHR '':'' = None" "digit_value 10 CHR ''f'' = None"
  by code_simp+

lemmas colon_no_ipv4 = no_digit_no_ipv4 [OF not_decimal(1)]


section \<open>IPv6 addresses\<close>

lemma format_hex_no_dot: "CHR ''.'' \<notin> set (format_hex n)"
proof -
  have "\<not> is_token_char CHR ''.''" by code_simp
  then show ?thesis using format_hex_valid [of n] by (auto simp: list_all_iff)
qed

lemma join_hex_no_dot: "CHR ''.'' \<notin> set (join_with '':'' (map format_hex gs))"
proof (induction gs)
  case (Cons g gs)
  then show ?case by (cases gs) (auto simp: format_hex_no_dot)
qed simp

lemma read_number_none: "read_number 16 4 True 65536 (CHR '':'' # s) = None" "read_number 16 4 True 65536 [] = None"
  by (simp_all add: read_number_def digit_value_def is_ascii_digit_def is_ascii_lower_def is_ascii_upper_def)

definition group_end :: "string \<Rightarrow> bool" where
  "group_end rest \<longleftrightarrow> CHR ''.'' \<notin> set rest \<and> (rest = [] \<or> (\<exists>r. rest = CHR '':'' # CHR '':'' # r))"

lemma read_groups_stop:
  assumes "group_end rest"
  shows "read_groups left i rest = ([], False, rest)"
proof (cases left)
  case (Suc l)
  have sep: "read_sep (CHR '':'') i rest = None
      \<or> (\<exists>s. read_sep (CHR '':'') i rest = Some s \<and> CHR ''.'' \<notin> set s \<and> (s = [] \<or> (\<exists>r. s = CHR '':'' # r)))"
    using assms by (auto simp: group_end_def read_sep_def)
  then show ?thesis
    by (elim disjE exE conjE) (auto simp: Suc read_number_none no_dot_no_ipv4)
qed simp

lemma read_groups_display:
  assumes "\<forall>g \<in> set gs. g < 65536" "group_end rest" "length gs \<le> left"
  shows "read_groups left i ((if i = 0 \<or> gs = [] then [] else '':'') @ join_with '':'' (map format_hex gs) @ rest)
    = (gs, False, rest)"
  using assms
proof (induction gs arbitrary: i left)
  case Nil
  then show ?case by (simp add: read_groups_stop)
next
  case (Cons g gs)
  then obtain l where l: "left = Suc l" by (cases left) auto
  define tail where "tail = (if gs = [] then [] else '':'') @ join_with '':'' (map format_hex gs) @ rest"
  have shown: "join_with '':'' (map format_hex (g # gs)) @ rest = format_hex g @ tail"
    by (cases gs) (simp_all add: tail_def)
  have stop: "stops 16 tail"
    using Cons.prems(2) by (cases gs) (auto simp: tail_def stops_sep group_end_def)
  have dots: "CHR ''.'' \<notin> set (format_hex g @ tail)"
    using Cons.prems(2) by (simp add: tail_def format_hex_no_dot join_hex_no_dot group_end_def)
  have rec: "read_groups l (Suc i) tail = (gs, False, rest)"
    using Cons.IH [of l "Suc i"] Cons.prems l by (simp add: tail_def)
  have sep: "read_sep (CHR '':'') i ((if i = 0 \<or> g # gs = [] then [] else '':'') @ s) = Some s" for s
    by (simp add: read_sep_def)
  show ?case
    using no_dot_no_ipv4 [OF dots] read_number_hex [OF _ stop, of g] Cons.prems(1) rec
    unfolding shown l read_groups.simps sep by (cases l) auto
qed

text \<open>The run that was found consists of zeros and lies inside the address.\<close>

lemma longest_zeroes_run:
  assumes "longest_zeroes i cur best gs = (start, len)" "cur \<le> i" "i = length pre"
    and "\<forall>j. i - cur \<le> j \<and> j < i \<longrightarrow> pre ! j = 0"
    and "fst best + snd best \<le> i" "\<forall>j. fst best \<le> j \<and> j < fst best + snd best \<longrightarrow> pre ! j = 0"
  shows "start + len \<le> length (pre @ gs) \<and> (\<forall>j. start \<le> j \<and> j < start + len \<longrightarrow> (pre @ gs) ! j = 0)"
  using assms
proof (induction gs arbitrary: i cur best pre)
  case Nil
  then show ?case by auto
next
  case (Cons g gs)
  show ?case
  proof (cases "g = 0")
    case True
    define best' where "best' = (if Suc cur > snd best then (i - cur, Suc cur) else best)"
    have eq: "longest_zeroes (Suc i) (Suc cur) best' gs = (start, len)"
      using Cons.prems(1) True by (simp add: best'_def)
    have "start + len \<le> length ((pre @ [g]) @ gs)
        \<and> (\<forall>j. start \<le> j \<and> j < start + len \<longrightarrow> ((pre @ [g]) @ gs) ! j = 0)"
    proof (rule Cons.IH [OF eq])
      show "\<forall>j. Suc i - Suc cur \<le> j \<and> j < Suc i \<longrightarrow> (pre @ [g]) ! j = 0"
        using Cons.prems(3,4) True by (auto simp: nth_append less_Suc_eq)
      show "fst best' + snd best' \<le> Suc i" using Cons.prems(2,5) by (auto simp: best'_def)
      show "\<forall>j. fst best' \<le> j \<and> j < fst best' + snd best' \<longrightarrow> (pre @ [g]) ! j = 0"
        using Cons.prems(2-6) True by (auto simp: best'_def nth_append less_Suc_eq)
    qed (use Cons.prems in auto)
    then show ?thesis by simp
  next
    case False
    then have eq: "longest_zeroes (Suc i) 0 best gs = (start, len)" using Cons.prems(1) by simp
    have "start + len \<le> length ((pre @ [g]) @ gs)
        \<and> (\<forall>j. start \<le> j \<and> j < start + len \<longrightarrow> ((pre @ [g]) @ gs) ! j = 0)"
      by (rule Cons.IH [OF eq]) (use Cons.prems in \<open>auto simp: nth_append\<close>)
    then show ?thesis by simp
  qed
qed


lemma split_run:
  assumes "start + len \<le> length xs" "\<forall>j. start \<le> j \<and> j < start + len \<longrightarrow> xs ! j = (0 :: nat)"
  shows "take start xs @ replicate len 0 @ drop (start + len) xs = xs"
proof -
  have "take len (drop start xs) = replicate len 0"
    using assms by (intro nth_equalityI) auto
  then show ?thesis by (metis append_take_drop_id drop_drop add.commute)
qed

lemma read_ipv6_plain:
  assumes "length gs = 8" "\<forall>g \<in> set gs. g < 65536"
  shows "read_ipv6 (join_with '':'' (map format_hex gs)) = Some (gs, [])"
  using read_groups_display [of gs "[]" 8 0] assms by (simp add: read_ipv6_def group_end_def)

lemma read_ipv6_compressed:
  assumes "length hs + length ts \<le> 6" "\<forall>g \<in> set hs \<union> set ts. g < 65536"
  shows "read_ipv6 (join_with '':'' (map format_hex hs) @ ''::'' @ join_with '':'' (map format_hex ts))
    = Some (hs @ replicate (8 - length hs - length ts) 0 @ ts, [])"
proof -
  let ?rest = "''::'' @ join_with '':'' (map format_hex ts)"
  have "group_end ?rest" by (simp add: group_end_def join_hex_no_dot)
  then have hd: "read_groups 8 0 (join_with '':'' (map format_hex hs) @ ?rest) = (hs, False, ?rest)"
    using read_groups_display [of hs ?rest 8 0] assms by simp
  have tl: "read_groups (7 - length hs) 0 (join_with '':'' (map format_hex ts)) = (ts, False, [])"
    using read_groups_display [of ts "[]" "7 - length hs" 0] assms by (simp add: group_end_def)
  show ?thesis
    using assms(1) by (simp add: read_ipv6_def hd [simplified] tl starts_with_def)
qed

lemma read_ipv6_mapped:
  assumes "a < 65536" "b < 65536"
  shows "read_ipv6 (''::ffff:'' @ ipv4_display [a div 256, a mod 256, b div 256, b mod 256])
    = Some ([0, 0, 0, 0, 0, 65535, a, b], [])"
proof -
  let ?v4 = "ipv4_display [a div 256, a mod 256, b div 256, b mod 256]"
  have v4: "read_ipv4 ?v4 = Some ([a div 256, a mod 256, b div 256, b mod 256], [])"
    using assms by (intro parse_ipv4_display) auto
  have hex: "format_hex 65535 = ''ffff''" by code_simp
  have ffff: "read_number 16 4 True 65536 (''ffff:'' @ s) = Some (65535, CHR '':'' # s)" for s
    using read_number_hex [of 65535 "CHR '':'' # s"] by (simp add: hex stops_sep)
  have hd: "read_groups (Suc left) 0 (''::ffff:'' @ ?v4) = ([], False, ''::ffff:'' @ ?v4)" for left
    by (simp add: read_sep_def colon_no_ipv4 read_number_none)
  have two: "read_groups (Suc (Suc left)) (Suc 0) (CHR '':'' # ?v4) = ([a, b], True, [])" for left
    using v4 assms by (simp add: read_sep_def)
  have tl: "read_groups (Suc (Suc (Suc left))) 0 (''ffff:'' @ ?v4) = ([65535, a, b], True, [])" for left
    using ffff [of ?v4] two [of left] by (simp add: read_sep_def no_digit_no_ipv4 not_decimal)
  have zeros: "replicate 5 (0 :: nat) = [0, 0, 0, 0, 0]" by code_simp
  show ?thesis
    using hd [of 7] tl [of 4] by (simp add: read_ipv6_def starts_with_def zeros)
qed


lemma ipv6_display_roundtrip:
  assumes "length gs = 8" "\<forall>g \<in> set gs. g < 65536"
  shows "read_ipv6 (ipv6_display gs) = Some (gs, []) \<and> read_ipv4 (ipv6_display gs) = None"
proof (cases "take 6 gs = [0, 0, 0, 0, 0, 65535]")
  case True
  have "gs = take 6 gs @ [gs ! 6, gs ! 7]"
    using assms(1) by (intro nth_equalityI) (auto simp: nth_append less_Suc_eq numeral_eq_Suc)
  then have gs: "gs = [0, 0, 0, 0, 0, 65535, gs ! 6, gs ! 7]" using True by simp
  have "gs ! 6 < 65536" "gs ! 7 < 65536" using assms by auto
  then show ?thesis
    using read_ipv6_mapped [of "gs ! 6" "gs ! 7"] True gs by (simp add: ipv6_display_def colon_no_ipv4)
next
  case False
  obtain start len where run: "longest_zeroes 0 0 (0, 0) gs = (start, len)" by fastforce
  note inside = longest_zeroes_run [OF run, of "[]", simplified]
  show ?thesis
  proof (cases "len > 1")
    case True
    let ?hs = "take start gs" and ?ts = "drop (start + len) gs"
    have len: "length ?hs + length ?ts \<le> 6" "8 - length ?hs - length ?ts = len"
      using inside True assms(1) by auto
    have "read_ipv6 (ipv6_display gs) = Some (?hs @ replicate len 0 @ ?ts, [])"
      using read_ipv6_compressed [of ?hs ?ts] len assms(2) False run True
      by (auto simp: ipv6_display_def dest: in_set_takeD in_set_dropD)
    moreover have "CHR ''.'' \<notin> set (ipv6_display gs)"
      using False run True by (simp add: ipv6_display_def join_hex_no_dot)
    ultimately show ?thesis using split_run [of start len gs] inside no_dot_no_ipv4 by metis
  next
    case no_run: False
    then show ?thesis
      using read_ipv6_plain [OF assms] False run join_hex_no_dot no_dot_no_ipv4
      by (simp add: ipv6_display_def)
  qed
qed

text \<open>Reading back what was printed, and the ranges of what the parser returns.\<close>

lemma parse_ip_display: "ip_wf a \<Longrightarrow> parse_ip_addr (ip_display a) = Some a"
proof (cases a)
  case (V4 os)
  then show "ip_wf a \<Longrightarrow> ?thesis" by (simp add: parse_ip_addr_def parse_ipv4_display)
next
  case (V6 gs)
  then show "ip_wf a \<Longrightarrow> ?thesis"
    using ipv6_display_roundtrip [of gs] by (simp add: parse_ip_addr_def)
qed

lemma read_number_bound: "read_number radix maxd z bound s = Some (n, rest) \<Longrightarrow> n < bound"
  by (auto simp: read_number_def split: option.splits if_splits)

lemma read_octets_wf:
  "read_octets n i s = Some (os, rest) \<Longrightarrow> length os = n \<and> (\<forall>b \<in> set os. b < 256)"
  by (induction n i s arbitrary: os rest rule: read_octets.induct)
     (auto split: option.splits prod.splits simp: bind_eq_Some_conv intro: read_number_bound)

lemma read_ipv4_wf: "read_ipv4 s = Some (os, rest) \<Longrightarrow> length os = 4 \<and> (\<forall>b \<in> set os. b < 256)"
  unfolding read_ipv4_def by (rule read_octets_wf)

lemma read_groups_wf:
  "read_groups left i s = (gs, v4, rest) \<Longrightarrow> length gs \<le> left \<and> (\<forall>g \<in> set gs. g < 65536)"
proof (induction left i s arbitrary: gs v4 rest rule: read_groups.induct)
  case (2 left i s)
  show ?case
  proof (cases "if left > 0 then Option.bind (read_sep (CHR '':'') i s) read_ipv4 else None")
    case (Some x)
    obtain os r where x: "x = (os, r)" by fastforce
    with Some obtain s' where "0 < left" "read_ipv4 s' = Some (os, r)"
      by (auto split: if_splits simp: bind_eq_Some_conv)
    then have os: "os ! j < 256" if "j < 4" for j using read_ipv4_wf that by (metis nth_mem)
    have "gs = [os ! 0 * 256 + os ! 1, os ! 2 * 256 + os ! 3]"
      using 2(2) Some x by simp
    then show ?thesis using os [of 0] os [of 1] os [of 2] os [of 3] \<open>0 < left\<close> by auto
  next
    case None
    show ?thesis
    proof (cases "Option.bind (read_sep (CHR '':'') i s) (read_number 16 4 True 65536)")
      case no_group: None
      then show ?thesis using 2(2) None by simp
    next
      case (Some y)
      obtain g r where y: "y = (g, r)" by fastforce
      obtain gs' v r' where rec: "read_groups left (Suc i) r = (gs', v, r')" by (metis prod_cases3)
      have "g < 65536" using Some y by (auto simp: bind_eq_Some_conv dest: read_number_bound)
      moreover have "length gs' \<le> left \<and> (\<forall>g \<in> set gs'. g < 65536)"
        using 2(1) [OF None Some y [symmetric] rec] y by auto
      ultimately show ?thesis using 2(2) None Some y rec by auto
    qed
  qed
qed simp

lemma parse_ip_wf: "parse_ip_addr s = Some a \<Longrightarrow> ip_wf a"
proof -
  assume p: "parse_ip_addr s = Some a"
  show ?thesis
  proof (cases "read_ipv4 s")
    case (Some x)
    then show ?thesis using p read_ipv4_wf by (cases x) (auto simp: parse_ip_addr_def split: if_splits)
  next
    case None
    with p obtain gs where a: "a = V6 gs" and r: "read_ipv6 s = Some (gs, [])"
      by (auto simp: parse_ip_addr_def split: option.splits if_splits)
    obtain hs v rest where hd: "read_groups 8 0 s = (hs, v, rest)" by (metis prod_cases3)
    obtain ts v' rest' where tl: "read_groups (8 - (length hs + 1)) 0 (drop 2 rest) = (ts, v', rest')"
      by (metis prod_cases3)
    show ?thesis
      using r hd tl read_groups_wf [OF hd] read_groups_wf [OF tl]
      by (auto simp: a read_ipv6_def split: if_splits)
  qed
qed


section \<open>Upper and lower case\<close>

text \<open>Lowering the letters of a text does not change the address it denotes.\<close>

lemma to_ascii_lower_cases:
  obtains "to_ascii_lower c = c" "\<not> is_ascii_upper c"
  | "is_ascii_upper c" "is_ascii_lower (to_ascii_lower c)" "code (to_ascii_lower c) = code c + 32"
proof (cases "is_ascii_upper c")
  case True
  then have "code (to_ascii_lower c) = code c + 32"
    by (simp add: to_ascii_lower_def is_ascii_upper_def of_char_of)
  with True that(2) show ?thesis by (simp add: is_ascii_upper_def is_ascii_lower_def)
qed (simp add: to_ascii_lower_def that(1))

lemma digit_value_lower [simp]: "digit_value radix (to_ascii_lower c) = digit_value radix c"
  by (rule to_ascii_lower_cases [of c])
     (simp_all add: digit_value_def is_ascii_digit_def is_ascii_lower_def is_ascii_upper_def)

lemma to_ascii_lower_eq_iff:
  assumes "\<not> is_ascii_lower d" "\<not> is_ascii_upper d"
  shows "to_ascii_lower c = d \<longleftrightarrow> c = d"
  by (rule to_ascii_lower_cases [of c]) (use assms in auto)

lemma lower_punctuation [simp]:
  "to_ascii_lower c = CHR ''.'' \<longleftrightarrow> c = CHR ''.''" "to_ascii_lower c = CHR '':'' \<longleftrightarrow> c = CHR '':''"
  "to_ascii_lower c = CHR ''0'' \<longleftrightarrow> c = CHR ''0''" "to_ascii_lower c = CHR ''-'' \<longleftrightarrow> c = CHR ''-''"
  by (rule to_ascii_lower_eq_iff; simp add: is_ascii_lower_def is_ascii_upper_def)+

abbreviation lower_all :: "string \<Rightarrow> string" where
  "lower_all \<equiv> map to_ascii_lower"

lemma read_digits_lower:
  "read_digits radix maxd k acc (lower_all s)
   = map_option (\<lambda>(n, k, rest). (n, k, lower_all rest)) (read_digits radix maxd k acc s)"
  by (induction radix maxd k acc s rule: read_digits.induct) (auto split: option.splits)

lemma read_number_lower:
  "read_number radix maxd z bound (lower_all s)
   = map_option (\<lambda>(n, rest). (n, lower_all rest)) (read_number radix maxd z bound s)"
  by (cases s) (auto simp: read_number_def read_digits_lower split: option.splits)

lemma read_sep_lower:
  "sep = CHR ''.'' \<or> sep = CHR '':'' \<Longrightarrow> read_sep sep i (lower_all s) = map_option lower_all (read_sep sep i s)"
  by (auto simp: read_sep_def split: list.splits)

lemma read_octets_lower:
  "read_octets n i (lower_all s) = map_option (\<lambda>(os, rest). (os, lower_all rest)) (read_octets n i s)"
  by (induction n i s rule: read_octets.induct)
     (auto simp: read_sep_lower read_number_lower split: option.splits)

lemma read_ipv4_lower:
  "read_ipv4 (lower_all s) = map_option (\<lambda>(os, rest). (os, lower_all rest)) (read_ipv4 s)"
  unfolding read_ipv4_def by (rule read_octets_lower)

lemma read_groups_lower:
  "read_groups left i (lower_all s)
   = (case read_groups left i s of (gs, v4, rest) \<Rightarrow> (gs, v4, lower_all rest))"
proof (induction left i s rule: read_groups.induct)
  case (2 left i s)
  show ?case
    using 2
    by (auto simp: read_sep_lower read_ipv4_lower read_number_lower split: option.splits prod.splits
             split: if_splits Option.bind_splits)
qed simp

lemma starts_with_colon_lower: "starts_with (lower_all s) '':'' \<longleftrightarrow> starts_with s '':''"
  by (cases s) (auto simp: starts_with_def)

lemma parse_ip_lower: "parse_ip_addr (to_ascii_lowercase s) = parse_ip_addr s"
proof -
  obtain gs v r where g: "read_groups 8 0 s = (gs, v, r)" by (metis prod_cases3)
  obtain ts v' r' where t: "read_groups (8 - (length gs + 1)) 0 (drop 2 r) = (ts, v', r')"
    by (metis prod_cases3)
  have "read_ipv6 (lower_all s) = map_option (\<lambda>(gs, rest). (gs, lower_all rest)) (read_ipv6 s)"
    using t by (auto simp: read_ipv6_def read_groups_lower g drop_map starts_with_colon_lower)
  then show ?thesis
    by (auto simp: parse_ip_addr_def to_ascii_lowercase_def read_ipv4_lower split: option.splits prod.splits)
qed


section \<open>Trimmed text\<close>

lemma starts_with_prefix: "starts_with (take n s) p \<Longrightarrow> starts_with s p"
  unfolding starts_with_def by (metis append_take_drop_id length_take min.absorb_iff2 min.cobounded1 min.commute take_take)

lemma trim_with_suffix: "\<exists>n. trim_with k ws s = drop n s"
proof (induction k arbitrary: s)
  case (Suc k)
  show ?case
  proof (cases "find (starts_with s) ws")
    case (Some w)
    then show ?thesis using Suc.IH [of "drop (length w) s"] by (auto simp: add.commute)
  qed (simp add: exI [of _ 0])
qed (simp add: exI [of _ 0])

lemma trim_with_stop: "find (starts_with s) ws = None \<Longrightarrow> trim_with k ws s = s"
  by (cases k) simp_all

lemma trim_end_prefix: "\<exists>n. trim_end s = take n s"
proof -
  obtain n where "trim_with (length s) (map rev white_space) (rev s) = drop n (rev s)"
    using trim_with_suffix by blast
  then have "trim_end s = take (length s - n) s" by (simp add: trim_end_def rev_drop)
  then show ?thesis by blast
qed

lemma trim_end_clean: "find (starts_with (rev (trim_end s))) (map rev white_space) = None"
  unfolding trim_end_def by (simp, rule trim_with_fuel) (auto dest: white_space_nonempty)

lemma trim_idem [simp]: "trim (trim s) = trim s"
proof -
  obtain n where n: "trim s = take n (trim_start s)" using trim_end_prefix unfolding trim_def by blast
  have "find (starts_with (trim s)) white_space = None"
    using trim_start_clean [of s] starts_with_prefix unfolding n by (force simp: find_None_iff)
  then have "trim_start (trim s) = trim s" by (simp add: trim_start_def trim_with_stop)
  moreover have "trim_end (trim s) = trim s"
    using trim_end_clean [of "trim_start s"]
    unfolding trim_end_def [of "trim s"] by (simp add: trim_def trim_with_stop)
  ultimately show ?thesis by (simp add: trim_def [of "trim s"])
qed

text \<open>Visible ASCII text has no white space, so trimming keeps it.\<close>

definition visible :: "char \<Rightarrow> bool" where
  "visible c \<longleftrightarrow> 33 \<le> code c \<and> code c < 127"

lemma white_space_hd: "w \<in> set white_space \<Longrightarrow> \<not> visible (hd w)"
proof -
  assume "w \<in> set white_space"
  moreover have "list_all (\<lambda>w. \<not> visible (hd w)) white_space" by code_simp
  ultimately show ?thesis by (simp add: list_all_iff)
qed

lemma white_space_last: "w \<in> set white_space \<Longrightarrow> \<not> visible (last w)"
proof -
  assume "w \<in> set white_space"
  moreover have "list_all (\<lambda>w. \<not> visible (last w)) white_space" by code_simp
  ultimately show ?thesis by (simp add: list_all_iff)
qed

lemma starts_with_hd: "starts_with s w \<Longrightarrow> w \<noteq> [] \<Longrightarrow> s \<noteq> [] \<and> hd s = hd w"
  by (cases w; cases s) (auto simp: starts_with_def)

lemma visible_edges_trim:
  assumes "s \<noteq> [] \<Longrightarrow> visible (hd s) \<and> visible (last s)"
  shows "trim s = s"
proof -
  have "find (starts_with s) white_space = None"
    unfolding find_None_iff using assms white_space_hd white_space_nonempty starts_with_hd by metis
  then have start: "trim_start s = s" by (simp add: trim_start_def trim_with_stop)
  have "find (starts_with (rev s)) (map rev white_space) = None"
    unfolding find_None_iff
  proof
    assume "\<exists>x. x \<in> set (map rev white_space) \<and> starts_with (rev s) x"
    then obtain w where w: "w \<in> set white_space" "starts_with (rev s) (rev w)" by auto
    then have "rev s \<noteq> [] \<and> hd (rev s) = hd (rev w)"
      using starts_with_hd white_space_nonempty by (metis rev_is_Nil_conv)
    then have "s \<noteq> []" "last s = last w" using white_space_nonempty [OF w(1)] by (simp_all add: hd_rev)
    then show False using assms white_space_last [OF w(1)] by simp
  qed
  then have "trim_end s = s" by (simp add: trim_end_def trim_with_stop)
  with start show ?thesis by (simp add: trim_def)
qed

lemma visible_no_white_space:
  assumes "list_all visible s"
  shows "\<not> has_white_space s"
proof
  assume "has_white_space s"
  then obtain i w where "i < length s" "w \<in> set white_space" "starts_with (drop i s) w"
    by (auto simp: has_white_space_def list_ex_iff)
  moreover from this have "hd (drop i s) = hd w"
    using starts_with_hd white_space_nonempty by blast
  ultimately show False
    using assms white_space_hd by (metis hd_drop_conv_nth list_all_length)
qed

lemma visible_trim: "list_all visible s \<Longrightarrow> trim s = s"
  by (rule visible_edges_trim) (auto simp: list_all_iff)

text \<open>The characters and the length of a printed address.\<close>

definition address_char :: "char \<Rightarrow> bool" where
  "address_char c \<longleftrightarrow> digit_value 16 c \<noteq> None \<or> c = CHR ''.'' \<or> c = CHR '':''"

lemma address_char_visible: "address_char c \<Longrightarrow> visible c"
  by (auto simp: address_char_def visible_def digit_value_def Let_def is_ascii_digit_def is_ascii_lower_def
      is_ascii_upper_def split: if_splits option.splits)

lemma set_join_with: "set (join_with sep xs) \<subseteq> set sep \<union> \<Union> (set ` set xs)"
  by (induction sep xs rule: join_with.induct) auto

lemma length_join_with:
  "\<forall>x \<in> set xs. length x \<le> k \<Longrightarrow> length (join_with [c] xs) \<le> length xs * Suc k"
  by (induction "[c]" xs rule: join_with.induct) auto

lemma digit_value_mono: "digit_value 10 c \<noteq> None \<Longrightarrow> digit_value 16 c \<noteq> None"
  by (auto simp: digit_value_def Let_def split: option.splits if_splits)

lemma number_chars:
  "list_all address_char (format_dec n)" "list_all address_char (format_hex n)"
  using format_dec_digits [of n] format_hex_digits [of n] digit_value_mono
  unfolding list_all_iff address_char_def by blast+

lemma join_chars:
  assumes "list_all address_char sep" "\<forall>x \<in> set xs. list_all address_char x"
  shows "list_all address_char (join_with sep xs)"
  using assms set_join_with [of sep xs] unfolding list_all_iff by blast

lemma address_literals [simp]:
  "address_char CHR '':''" "address_char CHR ''.''" "address_char CHR ''f''"
  by code_simp+

lemma ip_display_chars: "list_all address_char (ip_display a)"
  by (cases a)
     (auto simp: ipv4_display_def ipv6_display_def join_chars number_chars split: prod.splits)

lemma ipv4_display_length:
  assumes "length os = 4" "\<forall>b \<in> set os. b < 256"
  shows "length (ipv4_display os) \<le> 16"
proof -
  have "length x \<le> 3" if "x \<in> set (map format_dec os)" for x
    using that assms(2) length_format_dec [of _ 2] by fastforce
  then show ?thesis
    using length_join_with [of "map format_dec os" 3 "CHR ''.''"] assms(1) by (simp add: ipv4_display_def)
qed

lemma hex_join_length:
  assumes "\<forall>g \<in> set gs. g < 65536"
  shows "length (join_with '':'' (map format_hex gs)) \<le> 5 * length gs"
proof -
  have "length x \<le> 4" if "x \<in> set (map format_hex gs)" for x
    using that assms length_format_hex [of _ 3] by fastforce
  then show ?thesis
    using length_join_with [of "map format_hex gs" 4 "CHR '':''"] by (simp add: mult.commute)
qed

lemma ip_display_length: "ip_wf a \<Longrightarrow> length (ip_display a) \<le> 42"
proof (cases a)
  case (V4 os)
  then show "ip_wf a \<Longrightarrow> ?thesis" using ipv4_display_length [of os] by simp
next
  case (V6 gs)
  assume "ip_wf a"
  with V6 have gs: "length gs = 8" "\<forall>g \<in> set gs. g < 65536" by auto
  obtain st len where run: "longest_zeroes 0 0 (0, 0) gs = (st, len)" by fastforce
  have "length (join_with '':'' (map format_hex (take st gs))) \<le> 5 * length (take st gs)"
    "length (join_with '':'' (map format_hex (drop (st + len) gs))) \<le> 5 * length (drop (st + len) gs)"
    "length (join_with '':'' (map format_hex gs)) \<le> 5 * length gs"
    using gs(2) by (rule_tac [!] hex_join_length) (auto dest: in_set_takeD in_set_dropD)
  moreover have "length (take st gs) + length (drop (st + len) gs) \<le> 8" using gs(1) by simp
  moreover have "length (ipv4_display [gs ! 6 div 256, gs ! 6 mod 256, gs ! 7 div 256, gs ! 7 mod 256]) \<le> 16"
    using gs by (intro ipv4_display_length) (auto simp: less_mult_imp_div_less)
  ultimately show ?thesis using V6 run gs(1) by (auto simp: ipv6_display_def)
qed

lemma ip_display_nonempty: "ip_wf a \<Longrightarrow> ip_display a \<noteq> []"
proof
  assume a: "ip_wf a" "ip_display a = []"
  have "parse_ip_addr [] = None" by code_simp
  with a parse_ip_display show False by fastforce
qed

end
