(* ===== verification/ServerCard.thy ===== *)
theory ServerCard
  imports Ids WireConstants IpText
begin

text \<open>
  \<open>crates/zephyrvox-wire/src/server_card.rs\<close>: transport schemes, SPKI fingerprints, the normal form of
  host names and the server card with its URL form. The \<open>url\<close> crate is an argument: \<open>up\<close> is
  \<open>Url::parse\<close>, its result the record \<open>url\<close> of what the accessors of a parsed URL return, and
  \<open>form\<close> is \<open>form_urlencoded::Serializer\<close> on a list of pairs.
\<close>

section \<open>Schemes, fingerprints, errors\<close>

datatype transport_scheme = Plain | Tls

fun scheme_as_str :: "transport_scheme \<Rightarrow> string" where
  "scheme_as_str Plain = ''zephyrvox''"
| "scheme_as_str Tls = ''zephyrvoxs''"

definition is_tls :: "transport_scheme \<Rightarrow> bool" where
  "is_tls s = (case s of Tls \<Rightarrow> True | Plain \<Rightarrow> False)"

text \<open>The array length 32 is part of \<open>fingerprint_wf\<close>.\<close>

datatype fingerprint = Fingerprint bytes

fun fingerprint_as_bytes :: "fingerprint \<Rightarrow> bytes" where
  "fingerprint_as_bytes (Fingerprint b) = b"

definition fingerprint_wf :: "fingerprint \<Rightarrow> bool" where
  "fingerprint_wf f \<longleftrightarrow> length (fingerprint_as_bytes f) = 32"

datatype server_card_error =
    InvalidUrl string
  | UnsupportedScheme string
  | MissingPort
  | InvalidHost string
  | MissingVersion
  | InvalidVersion string
  | UnsupportedVersion u8
  | DuplicateQuery string
  | UnknownQuery string
  | MissingFingerprint
  | UnexpectedFingerprint
  | InvalidFingerprint string
  | InvalidPort

definition hex_value :: "char \<Rightarrow> u8 option" where
  "hex_value c =
     (if 48 \<le> code c \<and> code c \<le> 57 then Some (of_nat (code c - 48))
      else if 97 \<le> code c \<and> code c \<le> 102 then Some (of_nat (code c - 97 + 10))
      else None)"

definition hex_digit :: "u8 \<Rightarrow> char" where
  "hex_digit v = ''0123456789abcdef'' ! unat v"

text \<open>The loop over the pairs of characters; \<open>v\<close> is the whole text, reported on failure.\<close>

fun hex_pairs :: "string \<Rightarrow> string \<Rightarrow> (bytes, server_card_error) result" where
  "hex_pairs v (a # b # rest) =
     and_then (ok_or (hex_value a) (InvalidFingerprint v)) (\<lambda>high.
     and_then (ok_or (hex_value b) (InvalidFingerprint v)) (\<lambda>low.
     map_ok (\<lambda>out. (push_bit 4 high OR low) # out) (hex_pairs v rest)))"
| "hex_pairs v rest = Ok []"

definition fingerprint_parse_hex :: "string \<Rightarrow> (fingerprint, server_card_error) result" where
  "fingerprint_parse_hex v =
     (if length v \<noteq> 64 then Err (InvalidFingerprint v) else map_ok Fingerprint (hex_pairs v v))"

definition fingerprint_to_hex :: "fingerprint \<Rightarrow> string" where
  "fingerprint_to_hex f =
     concat (map (\<lambda>b. [hex_digit (drop_bit 4 b), hex_digit (b AND 15)]) (fingerprint_as_bytes f))"

definition ct_eq :: "fingerprint \<Rightarrow> fingerprint \<Rightarrow> bool" where
  "ct_eq f g \<longleftrightarrow>
     foldl (\<lambda>difference (l, r). difference OR (l XOR r)) 0
       (zip (fingerprint_as_bytes f) (fingerprint_as_bytes g)) = 0"


section \<open>Host names\<close>

definition strip_brackets :: "string \<Rightarrow> string" where
  "strip_brackets h =
     (if starts_with h ''['' \<and> ends_with (drop 1 h) '']'' then butlast (drop 1 h) else h)"

definition bad_label :: "string \<Rightarrow> bool" where
  "bad_label l \<longleftrightarrow>
     l = [] \<or> length l > 63 \<or> starts_with l ''-'' \<or> ends_with l ''-''
     \<or> list_ex (\<lambda>c. \<not> (is_ascii_alphanumeric c \<or> c = CHR ''-'')) l"

definition normalize_host :: "string \<Rightarrow> (string, server_card_error) result" where
  "normalize_host h0 =
     (let host = strip_brackets (trim h0)
      in if host = [] \<or> length host > 253 \<or> has_white_space host then Err (InvalidHost host)
         else case parse_ip_addr host of
                Some address \<Rightarrow> Ok (ip_display address)
              | None \<Rightarrow>
                  if CHR '':'' \<in> set host \<or> CHR ''/'' \<in> set host \<or> char_of (92 :: nat) \<in> set host
                  then Err (InvalidHost host)
                  else if list_ex bad_label (split_on CHR ''.'' host) then Err (InvalidHost host)
                  else Ok (to_ascii_lowercase host))"


section \<open>Cards\<close>

record server_card =
  sc_scheme :: transport_scheme
  sc_host :: string
  sc_port :: u16
  sc_fingerprint :: "fingerprint option"
  sc_invite :: "string option"
  sc_protocol_version :: u8

definition clean_invite :: "string option \<Rightarrow> string option" where
  "clean_invite i = Option.bind i (\<lambda>i. let t = trim i in if t = [] then None else Some t)"

definition server_card_new ::
  "string \<Rightarrow> u16 \<Rightarrow> transport_scheme \<Rightarrow> fingerprint option \<Rightarrow> string option
   \<Rightarrow> (server_card, server_card_error) result" where
  "server_card_new host0 port scheme fingerprint invite =
     and_then (normalize_host host0) (\<lambda>host.
       if port = 0 then Err InvalidPort
       else if is_tls scheme \<and> fingerprint = None then Err MissingFingerprint
       else if \<not> is_tls scheme \<and> fingerprint \<noteq> None then Err UnexpectedFingerprint
       else Ok \<lparr>sc_scheme = scheme, sc_host = host, sc_port = port, sc_fingerprint = fingerprint,
                sc_invite = clean_invite invite, sc_protocol_version = PROTOCOL_VERSION\<rparr>)"

text \<open>What the accessors of a parsed \<open>Url\<close> return.\<close>

record url =
  url_scheme :: string
  url_username :: string
  url_password :: "string option"
  url_host_str :: "string option"
  url_port :: "u16 option"
  url_port_or_known_default :: "u16 option"
  url_path :: string
  url_query :: "string option"
  url_query_pairs :: "(string \<times> string) list"
  url_fragment :: "string option"

record card_query =
  cq_version :: "u8 option"
  cq_fingerprint :: "fingerprint option"
  cq_invite :: "string option"

definition query_step :: "string \<times> string \<Rightarrow> card_query \<Rightarrow> (card_query, server_card_error) result" where
  "query_step kv q =
     (case kv of (key, value) \<Rightarrow>
        if key = ''v'' then
          (if cq_version q \<noteq> None then Err (DuplicateQuery ''v'')
           else map_ok (\<lambda>n. q\<lparr>cq_version := Some (of_nat n)\<rparr>)
                  (ok_or (parse_unsigned 256 value) (InvalidVersion value)))
        else if key = ''fp'' then
          (if cq_fingerprint q \<noteq> None then Err (DuplicateQuery ''fp'')
           else map_ok (\<lambda>f. q\<lparr>cq_fingerprint := Some f\<rparr>) (fingerprint_parse_hex value))
        else if key = ''invite'' then
          (if cq_invite q \<noteq> None then Err (DuplicateQuery ''invite'')
           else Ok (q\<lparr>cq_invite := Some value\<rparr>))
        else Err (UnknownQuery key))"

fun read_query :: "card_query \<Rightarrow> (string \<times> string) list \<Rightarrow> (card_query, server_card_error) result" where
  "read_query q [] = Ok q"
| "read_query q (kv # kvs) = and_then (query_step kv q) (\<lambda>q'. read_query q' kvs)"

definition read_scheme :: "string \<Rightarrow> (transport_scheme, server_card_error) result" where
  "read_scheme s =
     (if s = ''zephyrvox'' then Ok Plain
      else if s = ''zephyrvoxs'' then Ok Tls
      else Err (UnsupportedScheme s))"

definition server_card_parse ::
  "(string \<Rightarrow> (url, string) result) \<Rightarrow> string \<Rightarrow> (server_card, server_card_error) result" where
  "server_card_parse up value =
     and_then (map_err InvalidUrl (up value)) (\<lambda>url.
     and_then (read_scheme (url_scheme url)) (\<lambda>scheme.
       if url_username url \<noteq> [] \<or> url_password url \<noteq> None
       then Err (InvalidUrl ''server cards must not contain user information'')
       else if url_fragment url \<noteq> None
       then Err (InvalidUrl ''server cards must not contain a fragment'')
       else if url_path url \<noteq> [] \<and> url_path url \<noteq> ''/''
       then Err (InvalidUrl ''server cards must not contain a path'')
       else
         and_then (ok_or (url_port url) MissingPort) (\<lambda>port.
         and_then (ok_or (url_host_str url) (InvalidHost [])) (\<lambda>host.
         and_then (read_query \<lparr>cq_version = None, cq_fingerprint = None, cq_invite = None\<rparr>
                     (url_query_pairs url)) (\<lambda>q.
         and_then (ok_or (cq_version q) MissingVersion) (\<lambda>version.
           if version \<noteq> PROTOCOL_VERSION then Err (UnsupportedVersion version)
           else server_card_new host port scheme (cq_fingerprint q) (cq_invite q)))))))"

text \<open>The host as it is written in a URL: an IPv6 address in brackets.\<close>

definition url_host :: "server_card \<Rightarrow> string" where
  "url_host c = (if CHR '':'' \<in> set (sc_host c) then ''['' @ sc_host c @ '']'' else sc_host c)"

definition card_pairs :: "server_card \<Rightarrow> (string \<times> string) list" where
  "card_pairs c =
     [(''v'', format_dec (unat (sc_protocol_version c)))]
     @ (case sc_fingerprint c of None \<Rightarrow> [] | Some f \<Rightarrow> [(''fp'', fingerprint_to_hex f)])
     @ (case sc_invite c of None \<Rightarrow> [] | Some i \<Rightarrow> [(''invite'', i)])"

definition server_card_render :: "((string \<times> string) list \<Rightarrow> string) \<Rightarrow> server_card \<Rightarrow> string" where
  "server_card_render form c =
     scheme_as_str (sc_scheme c) @ ''://'' @ url_host c @ '':'' @ format_dec (unat (sc_port c)) @ ''?''
     @ form (card_pairs c)"

definition server_card_to_url ::
  "(string \<Rightarrow> (url, string) result) \<Rightarrow> ((string \<times> string) list \<Rightarrow> string) \<Rightarrow> server_card
   \<Rightarrow> (url, server_card_error) result" where
  "server_card_to_url up form c = map_err InvalidUrl (up (server_card_render form c))"


section \<open>Fingerprint laws\<close>

lemma hex_value_lower: "hex_value = lower_hex_value"
  by (rule ext) (simp add: hex_value_def lower_hex_value_def)

lemma fingerprint_hex_bytes: "fingerprint_to_hex f = concat (map encode_byte (fingerprint_as_bytes f))"
  by (simp add: fingerprint_to_hex_def encode_byte_def hex_digit_def HEX_def cong: map_cong)

lemma map_ok_map_err: "map_ok f (map_err g r) = map_err g (map_ok f r)"
  by (cases r) simp_all

text \<open>The two pair loops of the workspace agree on every text.\<close>

lemma hex_pairs_decode:
  "hex_pairs v s = map_err (\<lambda>_. InvalidFingerprint v) (decode_pairs i s)"
  by (induction i s rule: decode_pairs.induct)
     (auto simp: hex_value_lower map_ok_map_err split: option.splits)

lemma fingerprint_parse_print: "fingerprint_wf f \<Longrightarrow> fingerprint_parse_hex (fingerprint_to_hex f) = Ok f"
  by (cases f) (simp add: fingerprint_wf_def fingerprint_parse_hex_def fingerprint_hex_bytes
      length_encode_bytes hex_pairs_decode [of _ _ 0] decode_encode_pairs)

lemma fingerprint_print_parse:
  "fingerprint_parse_hex v = Ok f \<Longrightarrow> fingerprint_wf f \<and> fingerprint_to_hex f = v"
  using encode_decode_pairs [of 0 v] length_decode_pairs [of 0 v]
  by (auto simp: fingerprint_parse_hex_def fingerprint_wf_def fingerprint_hex_bytes res_simps
      hex_pairs_decode [of _ _ 0] split: if_splits)

lemma xor_zero_iff: "(l :: u8) XOR r = 0 \<longleftrightarrow> l = r"
  by (auto simp: bit_eq_iff bit_simps)

lemma foldl_or_zero:
  "foldl (\<lambda>d (l, r). d OR (l XOR r)) (d0 :: u8) ps = 0 \<longleftrightarrow> d0 = 0 \<and> (\<forall>(l, r) \<in> set ps. l = r)"
  by (induction ps arbitrary: d0) (auto simp: or_eq_0_iff xor_zero_iff)

lemma zip_all_eq: "length xs = length ys \<Longrightarrow> (\<forall>(l, r) \<in> set (zip xs ys). l = r) \<longleftrightarrow> xs = ys"
  by (induction xs ys rule: list_induct2) auto

lemma ct_eq_iff: "fingerprint_wf f \<Longrightarrow> fingerprint_wf g \<Longrightarrow> ct_eq f g \<longleftrightarrow> f = g"
  by (cases f; cases g) (simp add: ct_eq_def foldl_or_zero fingerprint_wf_def zip_all_eq)


section \<open>Host name laws\<close>

lemma colon_lower [simp]: "CHR '':'' \<in> to_ascii_lower ` set m \<longleftrightarrow> CHR '':'' \<in> set m"
  by (metis imageE imageI lower_punctuation(2))

lemma set_split_on: "set h \<subseteq> {d} \<union> \<Union> (set ` set (split_on d h))"
proof (induction d h rule: split_on.induct)
  case (2 d c cs)
  then show ?case by (cases "split_on d cs") (simp_all, blast+)
qed simp

lemma label_chars:
  assumes "\<not> list_ex bad_label (split_on d h)" "c \<in> set h"
  shows "c = d \<or> is_ascii_alphanumeric c \<or> c = CHR ''-''"
  using assms set_split_on [of h d] by (fastforce simp: list_ex_iff bad_label_def)

lemma split_on_lower: "split_on CHR ''.'' (lower_all h) = map lower_all (split_on CHR ''.'' h)"
  by (induction "CHR ''.''" h rule: split_on.induct) (auto split: list.splits)

lemma alphanumeric_lower: "is_ascii_alphanumeric (to_ascii_lower c) \<longleftrightarrow> is_ascii_alphanumeric c"
  by (rule to_ascii_lower_cases [of c])
     (auto simp: is_ascii_alphanumeric_def is_ascii_upper_def is_ascii_lower_def is_ascii_digit_def)

lemma starts_with_dash_lower: "starts_with (lower_all l) ''-'' \<longleftrightarrow> starts_with l ''-''"
  by (cases l) (auto simp: starts_with_def)

lemma bad_label_lower: "bad_label (lower_all l) \<longleftrightarrow> bad_label l"
  using starts_with_dash_lower [of l] starts_with_dash_lower [of "rev l"]
  by (simp add: bad_label_def ends_with_def rev_map list_ex_iff alphanumeric_lower)

definition host_char :: "char \<Rightarrow> bool" where
  "host_char c \<longleftrightarrow> is_ascii_alphanumeric c \<or> c = CHR ''-'' \<or> c = CHR ''.'' \<or> c = CHR '':''"

lemma host_char_visible: "host_char c \<Longrightarrow> visible c"
  by (auto simp: host_char_def visible_def is_ascii_alphanumeric_def is_ascii_upper_def
      is_ascii_lower_def is_ascii_digit_def)

lemma address_host_char: "address_char c \<Longrightarrow> host_char c"
  by (auto simp: address_char_def host_char_def digit_value_def Let_def is_ascii_alphanumeric_def
      split: if_splits option.splits)

lemma host_chars_plain:
  assumes "list_all host_char h"
  shows "trim h = h" "\<not> has_white_space h" "strip_brackets h = h"
    "CHR ''/'' \<notin> set h" "char_of (92 :: nat) \<notin> set h"
proof -
  have vis: "list_all visible h" using assms host_char_visible by (auto simp: list_all_iff)
  then show "trim h = h" "\<not> has_white_space h" using visible_trim visible_no_white_space by blast+
  have "\<not> host_char CHR ''[''" "\<not> host_char CHR ''/''" "\<not> host_char (char_of (92 :: nat))"
    by code_simp+
  with assms show "strip_brackets h = h" "CHR ''/'' \<notin> set h" "char_of (92 :: nat) \<notin> set h"
    by (cases h; auto simp: strip_brackets_def starts_with_def list_all_iff)+
qed

text \<open>What is accepted, by cases: an address in its printed form, or lower-case labels.\<close>

lemma normalize_host_cases:
  assumes "normalize_host h = Ok n"
  obtains (address) a where "n = ip_display a" "ip_wf a"
  | (name) m where "n = lower_all m" "m \<noteq> []" "length m \<le> 253" "parse_ip_addr m = None"
      "CHR '':'' \<notin> set m" "\<not> list_ex bad_label (split_on CHR ''.'' m)"
proof (cases "parse_ip_addr (strip_brackets (trim h))")
  case (Some a)
  then show ?thesis
    using assms address [of a] parse_ip_wf by (auto simp: normalize_host_def Let_def split: if_splits)
next
  case None
  then show ?thesis
    using assms by (auto simp: normalize_host_def Let_def to_ascii_lowercase_def split: if_splits intro: name)
qed

lemma normalized_chars:
  assumes "normalize_host h = Ok n"
  shows "list_all host_char n"
  using assms
proof (cases rule: normalize_host_cases)
  case (address a)
  then show ?thesis using ip_display_chars [of a] address_host_char by (simp add: list_all_iff)
next
  case (name m)
  have "host_char (to_ascii_lower c)" if "c \<in> set m" for c
    using label_chars [OF name(6) that] by (auto simp: host_char_def alphanumeric_lower)
  then show ?thesis by (simp add: name(1) list_all_iff)
qed

lemma normalize_host_idem:
  assumes "normalize_host h = Ok n"
  shows "normalize_host n = Ok n"
  using assms
proof (cases rule: normalize_host_cases)
  case (address a)
  then show ?thesis
    using host_chars_plain [OF normalized_chars [OF assms]] ip_display_length [of a]
      ip_display_nonempty [of a] parse_ip_display [of a]
    by (simp add: normalize_host_def)
next
  case (name m)
  have "list_ex bad_label (split_on CHR ''.'' n) \<longleftrightarrow> list_ex bad_label (split_on CHR ''.'' m)"
    by (simp add: name(1) split_on_lower list_ex_iff bad_label_lower)
  then show ?thesis
    using name host_chars_plain [OF normalized_chars [OF assms]] parse_ip_lower [of m]
    by (simp add: normalize_host_def to_ascii_lowercase_def to_ascii_lower_idem Let_def)
qed


section \<open>Card laws\<close>

definition card_wf :: "server_card \<Rightarrow> bool" where
  "card_wf c \<longleftrightarrow>
     normalize_host (sc_host c) = Ok (sc_host c) \<and> sc_port c \<noteq> 0
     \<and> (is_tls (sc_scheme c) \<longleftrightarrow> sc_fingerprint c \<noteq> None)
     \<and> (case sc_fingerprint c of None \<Rightarrow> True | Some f \<Rightarrow> fingerprint_wf f)
     \<and> clean_invite (sc_invite c) = sc_invite c
     \<and> sc_protocol_version c = PROTOCOL_VERSION"

lemma clean_invite_idem [simp]: "clean_invite (clean_invite i) = clean_invite i"
  by (cases i) (simp_all add: clean_invite_def Let_def)

lemma card_new_wf:
  assumes "server_card_new h p s fp i = Ok c" "\<And>f. fp = Some f \<Longrightarrow> fingerprint_wf f"
  shows "card_wf c \<and> sc_scheme c = s \<and> sc_port c = p \<and> sc_fingerprint c = fp"
  using assms normalize_host_idem [of h]
  by (auto simp: server_card_new_def card_wf_def res_simps split: if_splits option.splits)

text \<open>Building a card again from the parts of a card gives the card, whatever form its host is in.\<close>

lemma card_new_again:
  assumes "card_wf c" "normalize_host h = Ok (sc_host c)"
  shows "server_card_new h (sc_port c) (sc_scheme c) (sc_fingerprint c) (sc_invite c) = Ok c"
  using assms by (auto simp: card_wf_def server_card_new_def)

text \<open>
  What \<open>Url::parse\<close> is documented to return for the text of a card: the parts of the text, an IPv6
  host in brackets and in the URL standard's own spelling of the address.
\<close>

definition shows_host :: "string \<Rightarrow> string \<Rightarrow> bool" where
  "shows_host h shown =
     (if CHR '':'' \<in> set h
      then starts_with shown ''['' \<and> ends_with (drop 1 shown) '']''
           \<and> (let x = butlast (drop 1 shown)
              in list_all address_char x \<and> x \<noteq> [] \<and> length x \<le> 39 \<and> parse_ip_addr x = parse_ip_addr h)
      else shown = h)"

definition shows_card :: "url \<Rightarrow> server_card \<Rightarrow> bool" where
  "shows_card u c \<longleftrightarrow>
     url_scheme u = scheme_as_str (sc_scheme c) \<and> url_username u = [] \<and> url_password u = None
     \<and> (case url_host_str u of None \<Rightarrow> False | Some h \<Rightarrow> shows_host (sc_host c) h)
     \<and> url_port u = Some (sc_port c) \<and> (url_path u = [] \<or> url_path u = ''/'')
     \<and> url_query_pairs u = card_pairs c \<and> url_fragment u = None"

lemma bracketed:
  assumes "starts_with s ''[''" "ends_with (drop 1 s) '']''"
  shows "s = ''['' @ butlast (drop 1 s) @ '']''"
proof (cases s)
  case (Cons c t)
  then show ?thesis using assms by (cases t rule: rev_cases) (auto simp: starts_with_def ends_with_def)
qed (use assms in \<open>simp add: starts_with_def\<close>)

lemma normalize_shown:
  assumes "normalize_host h = Ok h" "shows_host h shown"
  shows "normalize_host shown = Ok h"
proof (cases "CHR '':'' \<in> set h")
  case True
  obtain x where x: "shown = ''['' @ x @ '']''" "list_all address_char x" "x \<noteq> []" "length x \<le> 39"
      "parse_ip_addr x = parse_ip_addr h"
    using assms(2) True bracketed [of shown] unfolding shows_host_def Let_def by metis
  from assms(1) obtain a where a: "h = ip_display a" "ip_wf a"
    using True by (cases rule: normalize_host_cases) auto
  have "list_all host_char x" using x(2) address_host_char by (auto simp: list_all_iff)
  moreover have "trim shown = shown"
    by (rule visible_edges_trim) (simp add: x(1) visible_def)
  moreover have "strip_brackets shown = x"
    by (simp add: x(1) strip_brackets_def starts_with_def ends_with_def butlast_append)
  moreover have "parse_ip_addr x = Some a" using x(5) a parse_ip_display by simp
  ultimately show ?thesis using x(3,4) host_chars_plain(2) a(1) by (simp add: normalize_host_def)
next
  case False
  then show ?thesis using assms by (simp add: shows_host_def)
qed

lemma read_card_pairs:
  assumes "card_wf c"
  shows "read_query \<lparr>cq_version = None, cq_fingerprint = None, cq_invite = None\<rparr> (card_pairs c)
    = Ok \<lparr>cq_version = Some (sc_protocol_version c), cq_fingerprint = sc_fingerprint c,
          cq_invite = sc_invite c\<rparr>"
proof -
  have "parse_unsigned 256 (format_dec (unat (sc_protocol_version c))) = Some (unat (sc_protocol_version c))"
    by (rule parse_format_dec) simp
  then show ?thesis
    using assms
    by (auto simp: card_pairs_def query_step_def card_wf_def fingerprint_parse_print split: option.splits)
qed

lemma read_scheme_card [simp]: "read_scheme (scheme_as_str s) = Ok s"
  by (cases s) (simp_all add: read_scheme_def)

lemma parse_shown_card:
  assumes "card_wf c" "up value = Ok u" "shows_card u c"
  shows "server_card_parse up value = Ok c"
proof -
  from assms(3) obtain h where h: "url_host_str u = Some h" "shows_host (sc_host c) h"
    by (auto simp: shows_card_def split: option.splits)
  then have "normalize_host h = Ok (sc_host c)"
    using assms(1) normalize_shown [OF _ h(2)] by (simp add: card_wf_def)
  then have "server_card_new h (sc_port c) (sc_scheme c) (sc_fingerprint c) (sc_invite c) = Ok c"
    by (rule card_new_again [OF assms(1)])
  moreover have "sc_protocol_version c = PROTOCOL_VERSION" using assms(1) by (simp add: card_wf_def)
  moreover have "url_path u \<noteq> [] \<and> url_path u \<noteq> ''/'' \<longleftrightarrow> False"
    using assms(3) by (simp add: shows_card_def)
  moreover have "read_scheme (url_scheme u) = Ok (sc_scheme c)" "url_username u = []" "url_password u = None"
    "url_fragment u = None" "url_port u = Some (sc_port c)" "url_query_pairs u = card_pairs c"
    using assms(3) by (simp_all add: shows_card_def)
  ultimately show ?thesis
    by (simp only: server_card_parse_def assms(2) h(1) read_card_pairs [OF assms(1)] map_err.simps
        and_then.simps ok_or.simps card_query.simps refl simp_thms if_False)
qed


lemma query_step_Ok:
  assumes "query_step (k, v) q = Ok q'"
  shows "(k = ''v'' \<and> cq_version q = None \<and> (\<exists>n. q' = q\<lparr>cq_version := Some n\<rparr>))
    \<or> (k = ''fp'' \<and> cq_fingerprint q = None
        \<and> (\<exists>f. q' = q\<lparr>cq_fingerprint := Some f\<rparr> \<and> fingerprint_wf f \<and> v = fingerprint_to_hex f))
    \<or> (k = ''invite'' \<and> cq_invite q = None \<and> q' = q\<lparr>cq_invite := Some v\<rparr>)"
  using assms by (auto simp: query_step_def res_simps dest!: fingerprint_print_parse split: if_splits)

text \<open>\<open>read_keys\<close>: the keys a query state has seen.\<close>

definition read_keys :: "card_query \<Rightarrow> string set" where
  "read_keys q = (if cq_version q = None then {} else {''v''})
     \<union> (if cq_fingerprint q = None then {} else {''fp''})
     \<union> (if cq_invite q = None then {} else {''invite''})"

lemma read_query_strict:
  assumes "read_query q kvs = Ok q'"
  shows "distinct (map fst kvs) \<and> set (map fst kvs) \<inter> read_keys q = {}
    \<and> read_keys q' = read_keys q \<union> set (map fst kvs)
    \<and> (\<forall>f. cq_fingerprint q' = Some f \<longrightarrow> cq_fingerprint q = Some f
          \<or> fingerprint_wf f \<and> (''fp'', fingerprint_to_hex f) \<in> set kvs)"
  using assms
proof (induction kvs arbitrary: q)
  case (Cons kv kvs)
  obtain k v where kv: "kv = (k, v)" by fastforce
  from Cons.prems kv obtain q1 where step: "query_step (k, v) q = Ok q1" and rest: "read_query q1 kvs = Ok q'"
    by (auto simp: res_simps)
  have keys: "k \<notin> read_keys q" "read_keys q1 = insert k (read_keys q)"
    using query_step_Ok [OF step]
    by - (elim disjE conjE exE; simp add: read_keys_def insert_commute)+
  have fp: "cq_fingerprint q1 = Some f \<Longrightarrow> cq_fingerprint q = Some f
      \<or> fingerprint_wf f \<and> (''fp'', fingerprint_to_hex f) = kv" for f
    using query_step_Ok [OF step] kv by auto
  from Cons.IH [OF rest] keys fp kv show ?case
    by (simp add: kv) (metis (no_types, lifting) insert_iff)
qed simp

lemma read_keys_sub: "read_keys q \<subseteq> {''v'', ''fp'', ''invite''}"
  by (auto simp: read_keys_def)

text \<open>
  Claim C26. Reading a card is strict: an accepted URL has no user information, no fragment and no path,
  its query has no repeated and no unknown key, and the card read from it is well formed. A TLS card is
  accepted exactly with the pinned fingerprint that the query spells, so a TLS card without a pin and a
  plain card with one are refused.
\<close>

theorem server_card_parse_strict:
  assumes "server_card_parse up value = Ok c"
  shows "\<exists>u. up value = Ok u \<and> url_username u = [] \<and> url_password u = None \<and> url_fragment u = None
    \<and> (url_path u = [] \<or> url_path u = ''/'')
    \<and> distinct (map fst (url_query_pairs u))
    \<and> set (map fst (url_query_pairs u)) \<subseteq> {''v'', ''fp'', ''invite''}
    \<and> url_scheme u = scheme_as_str (sc_scheme c) \<and> url_port u = Some (sc_port c)
    \<and> card_wf c
    \<and> (case sc_fingerprint c of
         None \<Rightarrow> sc_scheme c = Plain
       | Some f \<Rightarrow> sc_scheme c = Tls \<and> (''fp'', fingerprint_to_hex f) \<in> set (url_query_pairs u))"
proof -
  let ?q0 = "\<lparr>cq_version = None, cq_fingerprint = None, cq_invite = None\<rparr>"
  from assms obtain u p h q where u: "up value = Ok u" "read_scheme (url_scheme u) = Ok (sc_scheme c)"
      "url_username u = [] \<and> url_password u = None" "url_fragment u = None"
      "url_path u = [] \<or> url_path u = ''/''" "url_port u = Some p"
      "read_query ?q0 (url_query_pairs u) = Ok q"
    and new: "server_card_new h p (sc_scheme c) (cq_fingerprint q) (cq_invite q) = Ok c"
    by (auto simp: server_card_parse_def res_simps server_card_new_def split: if_splits)
  have q: "distinct (map fst (url_query_pairs u))" "read_keys q = set (map fst (url_query_pairs u))"
      "\<And>f. cq_fingerprint q = Some f \<Longrightarrow> fingerprint_wf f \<and> (''fp'', fingerprint_to_hex f) \<in> set (url_query_pairs u)"
    using read_query_strict [OF u(7)] by (auto simp: read_keys_def)
  have wf: "card_wf c" "sc_port c = p" "sc_fingerprint c = cq_fingerprint q"
    using card_new_wf [OF new] q(3) by auto
  have "url_scheme u = scheme_as_str (sc_scheme c)"
    using u(2) by (auto simp: read_scheme_def split: if_splits)
  moreover have "case sc_fingerprint c of
         None \<Rightarrow> sc_scheme c = Plain
       | Some f \<Rightarrow> sc_scheme c = Tls \<and> (''fp'', fingerprint_to_hex f) \<in> set (url_query_pairs u)"
    using wf q(3) by (auto simp: card_wf_def is_tls_def split: option.splits transport_scheme.splits)
  ultimately show ?thesis using u q read_keys_sub [of q] wf by auto
qed


text \<open>A TLS card for the host \<open>2001:db8::1\<close>, the URL it is written as and what it is read from.\<close>

definition sample_card :: server_card where
  "sample_card = \<lparr>sc_scheme = Tls, sc_host = ''2001:db8::1'', sc_port = 8443,
     sc_fingerprint = Some (Fingerprint (replicate 32 171)), sc_invite = Some ''join'',
     sc_protocol_version = 1\<rparr>"

definition sample_url :: url where
  "sample_url = \<lparr>url_scheme = ''zephyrvoxs'', url_username = [], url_password = None,
     url_host_str = Some ''[2001:db8:0::1]'', url_port = Some 8443,
     url_port_or_known_default = Some 8443, url_path = [], url_query = Some ''v=1'',
     url_query_pairs = card_pairs sample_card, url_fragment = None\<rparr>"

lemma sample_card_wf: "card_wf sample_card" by code_simp

lemma sample_host_shown: "shows_host ''2001:db8::1'' ''[2001:db8:0::1]''" by code_simp

lemma sample_url_shows: "shows_card sample_url sample_card"
  using sample_host_shown by (simp add: shows_card_def sample_url_def sample_card_def)

theorem server_card_parse_strict_witness:
  "server_card_parse (\<lambda>_. Ok sample_url) [] = Ok sample_card \<and> distinct (map fst (url_query_pairs sample_url))"
proof
  show p: "server_card_parse (\<lambda>_. Ok sample_url) [] = Ok sample_card"
    by (rule parse_shown_card [OF sample_card_wf _ sample_url_shows]) simp
  show "distinct (map fst (url_query_pairs sample_url))"
    using server_card_parse_strict [OF p] by auto
qed



text \<open>
  Claim C34. Fingerprints: the hexadecimal form and the 32 bytes determine each other, and the
  comparison that never exits early is equality.
\<close>

theorem fingerprint_faithful:
  assumes "fingerprint_wf f" "fingerprint_wf g"
  shows "fingerprint_parse_hex (fingerprint_to_hex f) = Ok f
    \<and> (ct_eq f g \<longleftrightarrow> f = g) \<and> (fingerprint_to_hex f = fingerprint_to_hex g \<longleftrightarrow> ct_eq f g)"
proof -
  have "fingerprint_to_hex f = fingerprint_to_hex g \<longleftrightarrow> f = g"
    using assms [THEN fingerprint_parse_print] by (metis result.inject(1))
  then show ?thesis by (simp add: fingerprint_parse_print [OF assms(1)] ct_eq_iff [OF assms])
qed

theorem fingerprint_faithful_witness:
  "\<not> ct_eq (Fingerprint (replicate 32 0)) (Fingerprint (replicate 31 0 @ [1]))"
  using fingerprint_faithful [of "Fingerprint (replicate 32 0)" "Fingerprint (replicate 31 0 @ [1])"]
  by (simp add: fingerprint_wf_def numeral_eq_Suc)

end
