(* ===== verification/TlsPin.thy ===== *)
theory TlsPin
  imports ServerCard PacketCodec
begin

text \<open>
  The pinned certificate verifier, which \<open>crates/zephyrvox-http/src/tls_pin.rs\<close> and
  \<open>crates/zephyrvox-realtime/src/tls.rs\<close> hold in the same form: the DER reader, the SPKI hash, and the
  order of the checks. SHA-256 is the argument \<open>sha\<close>; what \<open>rustls\<close> does (parsing the certificate,
  the server name, the trust anchor and the chain) is the record \<open>pki\<close>.
\<close>

section \<open>Reading DER\<close>

text \<open>
  \<open>usize\<close> has 64 bits. \<open>checked_shl(8)\<close> checks the shift amount only, so the shift drops high
  bits; \<open>checked_add\<close> fails when the sum does not fit.
\<close>

definition usize_bound :: nat where
  "usize_bound = 18446744073709551616"

definition checked_add :: "nat \<Rightarrow> nat \<Rightarrow> nat option" where
  "checked_add a b = (if a + b < usize_bound then Some (a + b) else None)"

fun read_length :: "nat \<Rightarrow> bytes \<Rightarrow> nat option" where
  "read_length len [] = Some len"
| "read_length len (b # bs) =
     Option.bind (checked_add (len * 256 mod usize_bound) (unat b)) (\<lambda>len'. read_length len' bs)"

definition get_byte :: "bytes \<Rightarrow> nat \<Rightarrow> u8 option" where
  "get_byte bs i = (if i < length bs then Some (bs ! i) else None)"

definition get_range :: "bytes \<Rightarrow> nat \<Rightarrow> nat \<Rightarrow> bytes option" where
  "get_range bs i j = (if i \<le> j \<and> j \<le> length bs then Some (slice bs i j) else None)"

definition read_tlv :: "bytes \<Rightarrow> nat \<Rightarrow> (u8 \<times> nat \<times> nat \<times> nat) option" where
  "read_tlv inp offset =
     Option.bind (get_byte inp offset) (\<lambda>tag.
     Option.bind (get_byte inp (offset + 1)) (\<lambda>length_byte.
     Option.bind
       (if length_byte AND 128 = 0 then Some (unat length_byte, offset + 2)
        else
          let length_bytes = unat (length_byte AND 127)
          in if length_bytes = 0 \<or> length_bytes > 8 then None
             else Option.bind (get_range inp (offset + 2) (offset + 2 + length_bytes)) (\<lambda>bs.
                  map_option (\<lambda>len. (len, offset + 2 + length_bytes)) (read_length 0 bs)))
       (\<lambda>(len, content_start).
     Option.bind (checked_add content_start len) (\<lambda>content_end.
       if content_end > length inp then None
       else Some (tag, content_start, content_end, content_end)))))"

definition next_tlv :: "bytes \<Rightarrow> nat \<Rightarrow> nat option" where
  "next_tlv inp offset = map_option (\<lambda>(_, _, _, n). n) (read_tlv inp offset)"

text \<open>The loop \<open>for _ in 0..5\<close> over the fields before the key.\<close>

fun skip_tlvs :: "nat \<Rightarrow> bytes \<Rightarrow> nat \<Rightarrow> nat option" where
  "skip_tlvs 0 inp offset = Some offset"
| "skip_tlvs (Suc k) inp offset = Option.bind (next_tlv inp offset) (skip_tlvs k inp)"

definition spki_sha256 :: "(bytes \<Rightarrow> bytes) \<Rightarrow> bytes \<Rightarrow> bytes option" where
  "spki_sha256 sha certificate =
     Option.bind (read_tlv certificate 0) (\<lambda>(tag, certificate_start, certificate_end, certificate_next).
       if tag \<noteq> 48 \<or> certificate_next \<noteq> length certificate then None
       else
         Option.bind (read_tlv (slice certificate certificate_start certificate_end) 0)
           (\<lambda>(tag, tbs_start, tbs_end, _).
           if tag \<noteq> 48 then None
           else
             let tbs = slice certificate (certificate_start + tbs_start) (certificate_start + tbs_end)
             in Option.bind (read_tlv tbs 0) (\<lambda>(first, _, _, after_first).
                Option.bind (skip_tlvs 5 tbs (if first = 160 then after_first else 0)) (\<lambda>offset.
                Option.bind (read_tlv tbs offset) (\<lambda>(_, _, _, spki_next).
                Some (sha (slice tbs offset spki_next)))))))"


section \<open>The verifier\<close>

datatype tls_verification_failure = PinMismatch fingerprint fingerprint | InvalidCertificate

text \<open>\<open>TlsError\<close>: the two values the verifier makes itself, and what \<open>rustls\<close> returns.\<close>

datatype 'e tls_error = BadEncoding | ApplicationVerificationFailure | RustlsError 'e

record ('c, 'n, 'r, 't, 'e) pki =
  pk_parse :: "bytes \<Rightarrow> ('c, 'e) result"
  pk_name :: "'c \<Rightarrow> 'n \<Rightarrow> (unit, 'e) result"
  pk_root :: "bytes \<Rightarrow> ('r, 'e) result"
  pk_chain :: "'c \<Rightarrow> 'r \<Rightarrow> bytes list \<Rightarrow> 't \<Rightarrow> (unit, 'e) result"

text \<open>
  The recorded failure is state shared with the transport: the HTTP verifier keeps the latest one, the
  realtime verifier the first. A poisoned mutex does not occur: nothing panics while it is held.
\<close>

type_synonym failure_state = "tls_verification_failure option"

definition record_latest :: "tls_verification_failure \<Rightarrow> failure_state \<Rightarrow> failure_state" where
  "record_latest f st = Some f"

definition record_first :: "tls_verification_failure \<Rightarrow> failure_state \<Rightarrow> failure_state" where
  "record_first f st = (if st = None then Some f else st)"

definition rustls_checks ::
  "('c, 'n, 'r, 't, 'e) pki \<Rightarrow> bytes \<Rightarrow> bytes list \<Rightarrow> 'n \<Rightarrow> 't \<Rightarrow> (unit, 'e) result" where
  "rustls_checks P end_entity intermediates name now =
     and_then (pk_parse P end_entity) (\<lambda>certificate.
     and_then (pk_name P certificate name) (\<lambda>_.
     and_then (pk_root P end_entity) (\<lambda>roots.
     pk_chain P certificate roots intermediates now)))"

definition verify_server_cert ::
  "(tls_verification_failure \<Rightarrow> failure_state \<Rightarrow> failure_state) \<Rightarrow> (bytes \<Rightarrow> bytes)
   \<Rightarrow> ('c, 'n, 'r, 't, 'e) pki \<Rightarrow> fingerprint \<Rightarrow> bytes \<Rightarrow> bytes list \<Rightarrow> 'n \<Rightarrow> 't \<Rightarrow> failure_state
   \<Rightarrow> failure_state \<times> (unit, 'e tls_error) result" where
  "verify_server_cert record_failure sha P expected end_entity intermediates name now st =
     (case spki_sha256 sha end_entity of
        None \<Rightarrow> (record_failure InvalidCertificate st, Err BadEncoding)
      | Some digest \<Rightarrow>
          let actual = Fingerprint digest
          in if \<not> ct_eq actual expected
             then (record_failure (PinMismatch expected actual) st, Err ApplicationVerificationFailure)
             else (case rustls_checks P end_entity intermediates name now of
                     Err e \<Rightarrow> (record_failure InvalidCertificate st, Err (RustlsError e))
                   | Ok _ \<Rightarrow> (st, Ok ())))"

definition http_verify_server_cert where
  "http_verify_server_cert = verify_server_cert record_latest"

definition realtime_verify_server_cert where
  "realtime_verify_server_cert = verify_server_cert record_first"


section \<open>The reader stays in range\<close>

lemma read_tlv_range:
  assumes "read_tlv inp offset = Some (tag, s, e, n)"
  shows "offset + 2 \<le> s \<and> s \<le> e \<and> e = n \<and> n \<le> length inp"
  using assms
  by (auto simp: read_tlv_def bind_eq_Some_conv checked_add_def get_range_def Let_def split: if_splits)

lemma skip_tlvs_range:
  "skip_tlvs k inp offset = Some offset' \<Longrightarrow> offset \<le> offset' \<and> (k > 0 \<longrightarrow> offset' \<le> length inp)"
proof (induction k arbitrary: offset)
  case (Suc k)
  then obtain n where n: "next_tlv inp offset = Some n" "skip_tlvs k inp n = Some offset'"
    by (auto simp: bind_eq_Some_conv)
  then have "offset \<le> n" "n \<le> length inp"
    by (auto simp: next_tlv_def dest!: read_tlv_range)
  with Suc.IH [OF n(2)] n(2) show ?case by (cases k) auto
qed simp


section \<open>Certificates in DER\<close>

text \<open>The definite-length encoding of X.690, for stating what the reader finds.\<close>

fun be_minimal :: "nat \<Rightarrow> bytes" where
  "be_minimal n = (if n < 256 then [of_nat n] else be_minimal (n div 256) @ [of_nat (n mod 256)])"

declare be_minimal.simps [simp del]

definition der_length :: "nat \<Rightarrow> bytes" where
  "der_length n = (if n < 128 then [of_nat n] else of_nat (128 + length (be_minimal n)) # be_minimal n)"

definition der :: "u8 \<Rightarrow> bytes \<Rightarrow> bytes" where
  "der tag content = tag # der_length (length content) @ content"

lemma length_be_minimal: "n < 256 ^ Suc k \<Longrightarrow> length (be_minimal n) \<le> Suc k"
proof (induction k arbitrary: n)
  case 0
  then show ?case by (subst be_minimal.simps) simp
next
  case (Suc k)
  have "n div 256 < 256 ^ Suc k" using Suc.prems by (simp add: less_mult_imp_div_less)
  from Suc.IH [OF this] show ?case by (subst be_minimal.simps) simp
qed

lemma be_minimal_nonempty [simp]: "be_minimal n \<noteq> []"
  by (subst be_minimal.simps) simp

lemma read_length_append:
  "read_length k (xs @ ys) = Option.bind (read_length k xs) (\<lambda>k'. read_length k' ys)"
  by (induction xs arbitrary: k) (simp_all cong: Option.bind_cong)

lemma unat_of_nat_byte: "n < 256 \<Longrightarrow> unat (of_nat n :: u8) = n"
  by (simp add: unat_of_nat take_bit_nat_def)

lemma read_length_minimal: "n < usize_bound \<Longrightarrow> read_length 0 (be_minimal n) = Some n"
proof (induction n rule: be_minimal.induct)
  case (1 n)
  show ?case
  proof (cases "n < 256")
    case True
    then show ?thesis
      using 1(2) by (subst be_minimal.simps) (simp add: checked_add_def unat_of_nat_byte)
  next
    case False
    have "n div 256 * 256 \<le> n" by simp
    with 1(2) have "n div 256 * 256 mod usize_bound = n div 256 * 256" by (intro mod_less) simp
    moreover have "n div 256 * 256 + n mod 256 = n" by simp
    moreover have "read_length 0 (be_minimal (n div 256)) = Some (n div 256)"
      using 1 False by (meson div_le_dividend le_less_trans)
    ultimately show ?thesis
      using 1(2) False
      by (subst be_minimal.simps) (simp add: read_length_append checked_add_def unat_of_nat_byte)
  qed
qed

lemma short_length_bit: "n < 128 \<Longrightarrow> (of_nat n :: u8) AND 128 = 0"
proof -
  assume "n < 128"
  moreover have "list_all (\<lambda>n. (of_nat n :: u8) AND 128 = 0) [0..<128]" by code_simp
  ultimately show ?thesis by (simp add: list_all_iff)
qed

lemma long_length_bits:
  assumes "k < 9"
  shows "(of_nat (128 + k) :: u8) AND 128 \<noteq> 0" "unat ((of_nat (128 + k) :: u8) AND 127) = k"
proof -
  have "list_all (\<lambda>k. (of_nat (128 + k) :: u8) AND 128 \<noteq> 0 \<and> unat ((of_nat (128 + k) :: u8) AND 127) = k) [0..<9]"
    by code_simp
  with assms show "(of_nat (128 + k) :: u8) AND 128 \<noteq> 0" "unat ((of_nat (128 + k) :: u8) AND 127) = k"
    by (simp_all add: list_all_iff del: upt_rec_numeral)
qed

text \<open>At an encoded element the reader returns its tag, its content and where it ends.\<close>

lemma read_tlv_der:
  assumes "length (pre @ der tag content @ post) < usize_bound"
  shows "read_tlv (pre @ der tag content @ post) (length pre)
    = Some (tag, length pre + 1 + length (der_length (length content)),
            length pre + length (der tag content), length pre + length (der tag content))"
proof -
  let ?n = "length content" and ?inp = "pre @ der tag content @ post"
  have tag: "get_byte ?inp (length pre) = Some tag"
    by (simp add: get_byte_def der_def nth_append)
  have n: "?n < usize_bound" using assms by (simp add: der_def)
  show ?thesis
  proof (cases "?n < 128")
    case True
    then have "get_byte ?inp (length pre + 1) = Some (of_nat ?n)"
      by (simp add: get_byte_def der_def der_length_def nth_append)
    then show ?thesis
      using True assms tag short_length_bit [OF True]
      by (simp add: read_tlv_def checked_add_def der_def der_length_def unat_of_nat_byte)
  next
    case False
    let ?bs = "be_minimal ?n"
    have k: "length ?bs \<le> 8" using length_be_minimal [of ?n 7] n by (simp add: usize_bound_def)
    then have k9: "length ?bs < 9" by simp
    have "get_byte ?inp (length pre + 1) = Some (of_nat (128 + length ?bs))"
      using False by (simp add: get_byte_def der_def der_length_def nth_append)
    moreover have "get_range ?inp (length pre + 2) (length pre + 2 + length ?bs) = Some ?bs"
      using False by (simp add: get_range_def der_def der_length_def slice_def)
    ultimately show ?thesis
      using False assms tag k long_length_bits [OF k9] read_length_minimal [OF n]
      by (simp add: read_tlv_def checked_add_def der_def der_length_def Let_def)
  qed
qed


definition encode_fields :: "(u8 \<times> bytes) list \<Rightarrow> bytes" where
  "encode_fields fs = concat (map (\<lambda>(t, c). der t c) fs)"

lemma skip_fields:
  assumes "length (pre @ encode_fields fs @ post) < usize_bound"
  shows "skip_tlvs (length fs) (pre @ encode_fields fs @ post) (length pre)
    = Some (length (pre @ encode_fields fs))"
  using assms
proof (induction fs arbitrary: pre)
  case (Cons f fs)
  obtain t c where f: "f = (t, c)" by fastforce
  have "next_tlv (pre @ der t c @ encode_fields fs @ post) (length pre) = Some (length (pre @ der t c))"
    using read_tlv_der [of pre t c "encode_fields fs @ post"] Cons.prems f
    by (simp add: next_tlv_def encode_fields_def)
  then show ?case
    using Cons.IH [of "pre @ der t c"] Cons.prems f by (simp add: encode_fields_def)
qed (simp add: encode_fields_def)

lemma slice_middle: "slice (pre @ x @ post) (length pre) (length pre + length x) = x"
  by (simp add: slice_def)

lemma der_split: "der t c = (t # der_length (length c)) @ c"
  by (simp add: der_def)

text \<open>The content of the element at offset \<open>length pre\<close>.\<close>

lemma slice_content:
  "slice (pre @ der t c @ post) (length pre + 1 + length (der_length (length c))) (length pre + length (der t c)) = c"
  using slice_middle [of "pre @ t # der_length (length c)" c post] by (simp add: der_def ac_simps)

lemma certificate_tbs:
  assumes "cert = der 48 (der 48 tbs @ trailer)" and "length cert < usize_bound"
  obtains c0 t0 t1 where "read_tlv cert 0 = Some (48, c0, length cert, length cert)"
    "read_tlv (slice cert c0 (length cert)) 0 = Some (48, t0, t1, t1)"
    "slice cert (c0 + t0) (c0 + t1) = tbs"
proof
  let ?outer = "der 48 tbs @ trailer"
  let ?c0 = "1 + length (der_length (length ?outer))" and ?t0 = "1 + length (der_length (length tbs))"
  show "read_tlv cert 0 = Some (48, ?c0, length cert, length cert)"
    using read_tlv_der [of "[]" 48 ?outer "[]"] assms by simp
  have "slice cert ?c0 (length cert) = ?outer"
    using slice_content [of "[]" 48 ?outer "[]"] by (simp add: assms(1))
  moreover have "length ?outer < usize_bound" using assms by (simp add: der_def)
  ultimately show "read_tlv (slice cert ?c0 (length cert)) 0
      = Some (48, ?t0, length (der 48 tbs), length (der 48 tbs))"
    using read_tlv_der [of "[]" 48 tbs trailer] by simp
  show "slice cert (?c0 + ?t0) (?c0 + length (der 48 tbs)) = tbs"
    using slice_content [of "48 # der_length (length ?outer)" 48 tbs trailer]
    by (simp add: assms(1) der_split [of 48 ?outer])
qed

text \<open>
  Claim C25. The pin covers the public key: in every DER certificate (with or without the explicit
  version field, five elements before the key, anything after it) the reader finds the
  SubjectPublicKeyInfo element, and hashes exactly its encoding.
\<close>

theorem spki_of_certificate:
  assumes tbs: "tbs = ver @ encode_fields fs @ der key_tag key @ after_key"
    and "length fs = 5"
    and ver: "ver = [] \<and> fst (hd fs) \<noteq> 160 \<or> (\<exists>v. ver = der 160 v)"
    and cert: "cert = der 48 (der 48 tbs @ trailer)" and bound: "length cert < usize_bound"
  shows "spki_sha256 sha cert = Some (sha (der key_tag key))"
proof -
  let ?rest = "encode_fields fs @ der key_tag key @ after_key"
  have tbs_b: "length tbs < usize_bound" using bound by (simp add: cert der_def)
  obtain ft fc fr where fs: "fs = (ft, fc) # fr"
    using assms(2) by (cases fs) auto
  have first: "\<exists>t a b n. read_tlv tbs 0 = Some (t, a, b, n) \<and> (if t = 160 then n else 0) = length ver"
  proof (cases "ver = []")
    case True
    then show ?thesis
      using read_tlv_der [of "[]" ft fc "encode_fields fr @ der key_tag key @ after_key"] tbs_b ver fs
      by (auto simp: tbs encode_fields_def der_def)
  next
    case False
    then obtain v where "ver = der 160 v" using ver by blast
    then show ?thesis using read_tlv_der [of "[]" 160 v ?rest] tbs_b by (auto simp: tbs)
  qed
  have skip: "skip_tlvs 5 tbs (length ver) = Some (length (ver @ encode_fields fs))"
    using skip_fields [of ver fs "der key_tag key @ after_key"] tbs_b assms(2) by (simp add: tbs)
  have key: "read_tlv tbs (length (ver @ encode_fields fs))
    = Some (key_tag, length (ver @ encode_fields fs) + 1 + length (der_length (length key)),
       length (ver @ encode_fields fs) + length (der key_tag key),
       length (ver @ encode_fields fs) + length (der key_tag key))"
    using read_tlv_der [of "ver @ encode_fields fs" key_tag key after_key] tbs_b by (simp add: tbs)
  have "slice tbs (length (ver @ encode_fields fs))
      (length (ver @ encode_fields fs) + length (der key_tag key)) = der key_tag key"
    using slice_middle [of "ver @ encode_fields fs" "der key_tag key" after_key] by (simp add: tbs)
  with certificate_tbs [OF cert bound] first skip key show ?thesis
    by (force simp: spki_sha256_def Let_def)
qed

text \<open>A certificate with an explicit version and empty elements before a key of three bytes.\<close>

theorem spki_of_certificate_witness:
  "spki_sha256 (\<lambda>bs. bs) (der 48 (der 48 (der 160 [2] @ encode_fields (replicate 5 (48, [])) @ der 48 [1, 2, 3] @ []) @ [5, 0]))
   = Some [48, 3, 1, 2, 3]"
proof -
  have "spki_sha256 (\<lambda>bs. bs) (der 48 (der 48 (der 160 [2] @ encode_fields (replicate 5 (48, [])) @ der 48 [1, 2, 3] @ []) @ [5, 0]))
   = Some (der 48 [1, 2, 3])"
  proof (rule spki_of_certificate [OF refl _ _ refl])
    show "length (replicate 5 (48 :: u8, [] :: bytes)) = 5" by simp
    show "der 160 [2] = [] \<and> fst (hd (replicate 5 (48 :: u8, [] :: bytes))) \<noteq> 160 \<or> (\<exists>v. der 160 [2] = der 160 v)"
      by blast
  qed code_simp
  then show ?thesis by (simp add: der_def der_length_def)
qed

lemma verify_server_cert_cases:
  assumes "verify_server_cert rec sha P expected cert mids name now st = (st', r)"
    and "fingerprint_wf expected" and "\<And>bs. length (sha bs) = 32"
  shows "(r = Ok () \<longleftrightarrow> spki_sha256 sha cert = Some (fingerprint_as_bytes expected)
                        \<and> rustls_checks P cert mids name now = Ok ())
    \<and> (r = Ok () \<longrightarrow> st' = st)
    \<and> (\<forall>digest. spki_sha256 sha cert = Some digest \<and> Fingerprint digest \<noteq> expected
         \<longrightarrow> st' = rec (PinMismatch expected (Fingerprint digest)) st)
    \<and> (r \<noteq> Ok () \<and> (\<forall>digest. spki_sha256 sha cert = Some digest \<longrightarrow> Fingerprint digest = expected)
         \<longrightarrow> st' = rec InvalidCertificate st)"
proof (cases "spki_sha256 sha cert")
  case None
  then show ?thesis using assms(1) by (auto simp: verify_server_cert_def)
next
  case (Some digest)
  then have "length digest = 32"
    using assms(3) by (auto simp: spki_sha256_def bind_eq_Some_conv Let_def split: if_splits prod.splits)
  then have "ct_eq (Fingerprint digest) expected \<longleftrightarrow> Fingerprint digest = expected"
    using assms(2) by (intro ct_eq_iff) (simp_all add: fingerprint_wf_def)
  then show ?thesis
    using assms(1) Some
    by (cases expected) (auto simp: verify_server_cert_def Let_def split: if_splits result.splits)
qed


text \<open>
  Claim C11. No connection without the pin: the verifier accepts a certificate exactly when the hash
  of its public key is the expected fingerprint and all checks of the TLS library pass, and then records
  nothing; when it refuses, the failure it records tells a wrong key from a bad certificate.
\<close>

theorem verify_server_cert_iff:
  assumes "verify_server_cert rec sha P expected cert mids name now st = (st', r)"
    and "fingerprint_wf expected" and "\<And>bs. length (sha bs) = 32"
  shows "(r = Ok () \<longleftrightarrow> spki_sha256 sha cert = Some (fingerprint_as_bytes expected)
                        \<and> rustls_checks P cert mids name now = Ok ())
    \<and> (r = Ok () \<longrightarrow> st' = st)
    \<and> (\<forall>digest. spki_sha256 sha cert = Some digest \<and> Fingerprint digest \<noteq> expected
         \<longrightarrow> st' = rec (PinMismatch expected (Fingerprint digest)) st)
    \<and> (r \<noteq> Ok () \<and> (\<forall>digest. spki_sha256 sha cert = Some digest \<longrightarrow> Fingerprint digest = expected)
         \<longrightarrow> st' = rec InvalidCertificate st)"
  using verify_server_cert_cases [OF assms] .

text \<open>A certificate whose key hashes to 32 bytes 7, against a card that pins 32 bytes 9.\<close>

theorem verify_server_cert_iff_witness:
  "fst (verify_server_cert record_latest (\<lambda>_. replicate 32 7)
      \<lparr>pk_parse = \<lambda>_. Ok (), pk_name = \<lambda>_ (_ :: unit). Ok (), pk_root = \<lambda>_. Ok (),
       pk_chain = \<lambda>_ _ _ (_ :: unit). Ok () :: (unit, unit) result\<rparr>
      (Fingerprint (replicate 32 9)) [48, 14, 48, 12, 2, 0, 2, 0, 2, 0, 2, 0, 2, 0, 48, 0] [] () () None)
   = Some (PinMismatch (Fingerprint (replicate 32 9)) (Fingerprint (replicate 32 7)))"
  (is "fst ?v = _")
proof -
  have "spki_sha256 (\<lambda>_. replicate 32 7) [48, 14, 48, 12, 2, 0, 2, 0, 2, 0, 2, 0, 2, 0, 48, 0]
      = Some (replicate 32 7)" by code_simp
  then show ?thesis
    using verify_server_cert_iff [OF prod.collapse [of ?v, symmetric]]
    by (simp add: fingerprint_wf_def record_latest_def)
qed

end
