(* ===== verification/WireHeaders.thy ===== *)
theory WireHeaders
  imports HexText
begin

text \<open>
  \<open>crates/zephyrvox-wire/src/headers.rs\<close>: the header names of the HTTP contract and the validated
  idempotency key.
\<close>

section \<open>Header names\<close>

definition AUTHORIZATION :: string where
  "AUTHORIZATION = ''Authorization''"

definition IDEMPOTENCY_KEY :: string where
  "IDEMPOTENCY_KEY = ''Idempotency-Key''"

definition IF_MATCH :: string where
  "IF_MATCH = ''If-Match''"

definition ETAG :: string where
  "ETAG = ''ETag''"

definition PARENT_IF_MATCH :: string where
  "PARENT_IF_MATCH = ''X-Zephyr-Parent-If-Match''"

definition PARENT_ETAG :: string where
  "PARENT_ETAG = ''X-Zephyr-Parent-ETag''"

definition CONTROL_CONNECTION :: string where
  "CONTROL_CONNECTION = ''X-Zephyr-Control-Connection''"

definition COMMAND_ID :: string where
  "COMMAND_ID = ''X-Zephyr-Command-ID''"

definition STATE_CURSOR :: string where
  "STATE_CURSOR = ''X-Zephyr-State-Cursor''"

definition STREAM_EPOCH :: string where
  "STREAM_EPOCH = ''X-Zephyr-Stream-Epoch''"

definition GEID :: string where
  "GEID = ''X-Zephyr-Geid''"

definition SYNC_REQUIRED :: string where
  "SYNC_REQUIRED = ''X-Zephyr-Sync-Required''"

lemmas header_names = AUTHORIZATION_def IDEMPOTENCY_KEY_def IF_MATCH_def ETAG_def
  PARENT_IF_MATCH_def PARENT_ETAG_def CONTROL_CONNECTION_def COMMAND_ID_def STATE_CURSOR_def
  STREAM_EPOCH_def GEID_def SYNC_REQUIRED_def


section \<open>Idempotency keys\<close>

definition MIN_IDEMPOTENCY_KEY_LENGTH :: nat where
  "MIN_IDEMPOTENCY_KEY_LENGTH = 16"

definition MAX_IDEMPOTENCY_KEY_LENGTH :: nat where
  "MAX_IDEMPOTENCY_KEY_LENGTH = 64"

datatype header_error =
    InvalidIdempotencyKeyLength nat nat nat
  | InvalidIdempotencyKeyCharacter nat

datatype idempotency_key = IdempotencyKey string

definition idempotency_key_new :: "string \<Rightarrow> (idempotency_key, header_error) result" where
  "idempotency_key_new v =
     (if \<not> (MIN_IDEMPOTENCY_KEY_LENGTH \<le> length v \<and> length v \<le> MAX_IDEMPOTENCY_KEY_LENGTH)
      then Err (InvalidIdempotencyKeyLength MIN_IDEMPOTENCY_KEY_LENGTH MAX_IDEMPOTENCY_KEY_LENGTH
                  (length v))
      else case first_bad (\<lambda>c. \<not> (is_ascii_upper c \<or> is_ascii_lower c \<or> is_ascii_digit c
                                   \<or> c = CHR ''_'' \<or> c = CHR ''-'')) v of
             Some index \<Rightarrow> Err (InvalidIdempotencyKeyCharacter index)
           | None \<Rightarrow> Ok (IdempotencyKey v))"

fun idempotency_key_as_str :: "idempotency_key \<Rightarrow> string" where
  "idempotency_key_as_str (IdempotencyKey v) = v"

definition idempotency_key_wf :: "idempotency_key \<Rightarrow> bool" where
  "idempotency_key_wf k \<longleftrightarrow>
     (let v = idempotency_key_as_str k
      in 16 \<le> length v \<and> length v \<le> 64 \<and> list_all is_token_char v)"

lemma idempotency_key_new_Ok_iff:
  "idempotency_key_new v = Ok k \<longleftrightarrow> k = IdempotencyKey v \<and> idempotency_key_wf k"
proof -
  let ?bad = "\<lambda>c. \<not> (is_ascii_upper c \<or> is_ascii_lower c \<or> is_ascii_digit c
                       \<or> c = CHR ''_'' \<or> c = CHR ''-'')"
  have bad: "?bad = (\<lambda>c. \<not> is_token_char c)"
    by (auto simp: fun_eq_iff is_token_char_def is_ascii_alphanumeric_def)
  have none: "first_bad ?bad v = None \<longleftrightarrow> list_all is_token_char v"
    unfolding bad by (simp add: first_bad_None_iff list_all_iff)
  show ?thesis
    by (cases "first_bad ?bad v")
       (use none in \<open>auto simp: idempotency_key_new_def idempotency_key_wf_def Let_def
          MIN_IDEMPOTENCY_KEY_LENGTH_def MAX_IDEMPOTENCY_KEY_LENGTH_def\<close>)
qed

interpretation idempotency_text:
  canonical_codec idempotency_key_wf idempotency_key_as_str idempotency_key_new
proof
  fix k
  show "idempotency_key_wf k \<Longrightarrow> idempotency_key_new (idempotency_key_as_str k) = Ok k"
    by (cases k) (simp add: idempotency_key_new_Ok_iff)
next
  fix v k
  show "idempotency_key_new v = Ok k \<Longrightarrow> idempotency_key_wf k"
    by (auto simp: idempotency_key_new_Ok_iff)
  show "idempotency_key_new v = Ok k \<Longrightarrow> idempotency_key_as_str k = v"
    by (auto simp: idempotency_key_new_Ok_iff)
qed

end
