(* ===== verification/ApiEnvelope.thy ===== *)
theory ApiEnvelope
  imports RustText
begin

text \<open>
  \<open>crates/zephyrvox-wire/src/envelope.rs\<close>: the JSON envelope of every HTTP response with a body.
  JSON values belong to \<open>serde_json\<close>: the record \<open>value_ops\<close> has the two accessors the code calls,
  and the typed decoders are arguments.
\<close>

record 'v value_ops =
  vo_as_object :: "'v \<Rightarrow> (string \<rightharpoonup> 'v) option"
  vo_as_str :: "'v \<Rightarrow> string option"

record 'a api_envelope =
  ae_code :: int
  ae_message :: string
  ae_data :: "'a option"

record api_error =
  ap_http_status :: "nat option"
  ap_endpoint :: "string option"
  ap_code :: int
  ap_message :: string
  ap_fields :: "string \<rightharpoonup> string"
  ap_retryable :: bool

datatype envelope_error =
    EApi api_error
  | MissingSuccessData
  | NonEmptySuccessMessage
  | DataSerialization string
  | DataDeserialization string

definition envelope_success :: "'a \<Rightarrow> 'a api_envelope" where
  "envelope_success data = \<lparr>ae_code = 0, ae_message = [], ae_data = Some data\<rparr>"

definition is_success :: "'a api_envelope \<Rightarrow> bool" where
  "is_success env \<longleftrightarrow> ae_code env = 0"

definition envelope_map :: "('a \<Rightarrow> 'b) \<Rightarrow> 'a api_envelope \<Rightarrow> 'b api_envelope" where
  "envelope_map f env =
     \<lparr>ae_code = ae_code env, ae_message = ae_message env, ae_data = map_option f (ae_data env)\<rparr>"

text \<open>Entries of \<open>data.fields\<close> whose value is not a string are dropped.\<close>

definition extract_field_errors :: "'v value_ops \<Rightarrow> 'v option \<Rightarrow> string \<rightharpoonup> string" where
  "extract_field_errors VO data =
     (case Option.bind (Option.bind (Option.bind data (vo_as_object VO)) (\<lambda>obj. obj ''fields''))
             (vo_as_object VO) of
        None \<Rightarrow> Map.empty
      | Some entries \<Rightarrow> (\<lambda>field. Option.bind (entries field) (vo_as_str VO)))"

definition into_result ::
  "'v value_ops \<Rightarrow> ('a \<Rightarrow> ('v, string) result) \<Rightarrow> 'a api_envelope \<Rightarrow> ('a, envelope_error) result" where
  "into_result VO to_value env =
     (if ae_code env = 0 then
        (if ae_message env \<noteq> [] then Err NonEmptySuccessMessage
         else ok_or (ae_data env) MissingSuccessData)
      else
        and_then (case ae_data env of
                    None \<Rightarrow> Ok None
                  | Some d \<Rightarrow> map_ok Some (map_err DataSerialization (to_value d))) (\<lambda>data.
          Err (EApi \<lparr>ap_http_status = None, ap_endpoint = None, ap_code = ae_code env,
                     ap_message = ae_message env, ap_fields = extract_field_errors VO data,
                     ap_retryable = False\<rparr>)))"

text \<open>The envelope of a JSON value serialises its data to itself.\<close>

definition into_typed ::
  "'v value_ops \<Rightarrow> ('v \<Rightarrow> ('t, string) result) \<Rightarrow> 'v api_envelope \<Rightarrow> ('t, envelope_error) result" where
  "into_typed VO from_value env =
     and_then (into_result VO Ok env) (\<lambda>v. map_err DataDeserialization (from_value v))"

definition with_http_context :: "nat \<Rightarrow> string \<Rightarrow> bool \<Rightarrow> api_error \<Rightarrow> api_error" where
  "with_http_context status endpoint retryable e =
     e\<lparr>ap_http_status := Some status, ap_endpoint := Some endpoint, ap_retryable := retryable\<rparr>"

lemma into_typed_Ok_iff:
  "into_typed VO dec env = Ok t \<longleftrightarrow>
     ae_code env = 0 \<and> ae_message env = [] \<and> (\<exists>v. ae_data env = Some v \<and> dec v = Ok t)"
  by (auto simp: into_typed_def into_result_def res_simps)

lemma into_typed_Api_iff:
  "into_typed VO dec env = Err (EApi e) \<longleftrightarrow>
     ae_code env \<noteq> 0
     \<and> e = \<lparr>ap_http_status = None, ap_endpoint = None, ap_code = ae_code env,
            ap_message = ae_message env, ap_fields = extract_field_errors VO (ae_data env),
            ap_retryable = False\<rparr>"
  by (cases "ae_data env") (auto simp: into_typed_def into_result_def res_simps)

lemma into_typed_map:
  "into_typed VO dec (envelope_map f env) = Ok t \<longleftrightarrow> into_typed VO (dec \<circ> f) env = Ok t"
  by (auto simp: into_typed_Ok_iff envelope_map_def)

end
