(* ===== verification/HttpMessages.thy ===== *)
theory HttpMessages
  imports WireHeaders ApiEnvelope
begin

text \<open>
  \<open>crates/zephyrvox-http/src\<close>: \<open>errors.rs\<close>, \<open>request.rs\<close>, \<open>response.rs\<close> and \<open>pagination.rs\<close>.
  Requests and responses as records over the type \<open>'u\<close> of URLs (the \<open>url\<close> crate), the options of a
  mutation, and the decoding of responses. A header map is a map from lower-case names; statuses and
  lengths are natural numbers. Serialised bodies and JSON values come from \<open>serde_json\<close> and are
  arguments.
\<close>

section \<open>Errors\<close>

datatype credential_store_error = CStorage string | InvalidTokenPair

datatype http_error =
    HTransport string
  | InvalidUrl string
  | InvalidHeader string
  | HJson string
  | HWire string
  | HEnvelope envelope_error
  | HApi api_error
  | PreconditionFailed api_error
  | HttpStatus nat string
  | AuthenticationRequired
  | AuthExpired
  | ProtocolVersionMismatch u16 u16
  | TlsPinMismatch string string
  | TlsPeerCertificateUnavailable
  | TlsPeerCertificateInvalid
  | UnexpectedNoContent string
  | UnexpectedContent string
  | ExpectedNoContent string
  | HClosed
  | MissingControlConnection
  | MissingPrecondition string
  | HCredential credential_store_error


section \<open>Requests\<close>

datatype http_method = Get | Post | Patch | Put | Delete

record 'u http_request =
  rq_method :: http_method
  rq_url :: 'u
  rq_headers :: "string \<rightharpoonup> string"
  rq_body :: "bytes option"

definition http_request_new :: "http_method \<Rightarrow> 'u \<Rightarrow> 'u http_request" where
  "http_request_new method url =
     \<lparr>rq_method = method, rq_url = url, rq_headers = Map.empty, rq_body = None\<rparr>"

text \<open>The byte ranges of the \<open>matches!\<close>: \<open>!\<close>, \<open>#\<close> to apostrophe, \<open>*\<close> and \<open>+\<close>, and single bytes.\<close>

definition is_http_token_byte :: "char \<Rightarrow> bool" where
  "is_http_token_byte c \<longleftrightarrow>
     is_ascii_alphanumeric c \<or> code c = 33 \<or> (35 \<le> code c \<and> code c \<le> 39)
     \<or> (42 \<le> code c \<and> code c \<le> 43) \<or> code c \<in> {45, 46, 94, 95, 96, 124, 126}"

definition is_bad_value_byte :: "char \<Rightarrow> bool" where
  "is_bad_value_byte c \<longleftrightarrow> (code c < 32 \<and> code c \<noteq> 9) \<or> code c = 127"

definition set_header :: "string \<Rightarrow> string \<Rightarrow> 'u http_request \<Rightarrow> ('u http_request, http_error) result" where
  "set_header name value r =
     (if name = [] \<or> list_ex is_bad_value_byte value \<or> \<not> list_all is_http_token_byte name
      then Err (InvalidHeader name)
      else Ok (r\<lparr>rq_headers := (rq_headers r)(to_ascii_lowercase name \<mapsto> value)\<rparr>))"

definition request_header :: "string \<Rightarrow> 'u http_request \<Rightarrow> string option" where
  "request_header name r = rq_headers r (to_ascii_lowercase name)"

text \<open>\<open>set_json\<close> takes the outcome of \<open>serde_json::to_vec\<close>.\<close>

definition set_json :: "(bytes, string) result \<Rightarrow> 'u http_request \<Rightarrow> ('u http_request, http_error) result" where
  "set_json serialized r =
     and_then (map_err HJson serialized) (\<lambda>body.
       set_header ''content-type'' ''application/json'' (r\<lparr>rq_body := Some body\<rparr>))"

definition is_sensitive_header :: "string \<Rightarrow> bool" where
  "is_sensitive_header name \<longleftrightarrow>
     name \<in> {''authorization'', ''proxy-authorization'', ''cookie'', ''set-cookie'', ''x-api-key''}
     \<or> contains_str name ''token'' \<or> contains_str name ''secret'' \<or> contains_str name ''password''"

definition redacted_headers :: "(string \<rightharpoonup> string) \<Rightarrow> string \<rightharpoonup> string" where
  "redacted_headers hs name =
     map_option (\<lambda>v. if is_sensitive_header name then ''<redacted>'' else v) (hs name)"


section \<open>Request options\<close>

record request_options =
  ro_idempotency_key :: "idempotency_key option"
  ro_if_match :: "etag option"
  ro_parent_if_match :: "etag option"
  ro_control_connection :: "control_connection_id option"

definition request_options_new :: request_options where
  "request_options_new =
     \<lparr>ro_idempotency_key = None, ro_if_match = None, ro_parent_if_match = None,
      ro_control_connection = None\<rparr>"

text \<open>
  The counter is the static \<open>IDEMPOTENCY_COUNTER\<close>, \<open>now\<close> the clock in nanoseconds since the epoch;
  \<open>None\<close> is the panic of \<open>expect\<close>.
\<close>

definition generate_idempotency_key :: "nat \<Rightarrow> u64 \<Rightarrow> u64 \<times> idempotency_key option" where
  "generate_idempotency_key now counter =
     (counter + 1,
      case idempotency_key_new
             (''sdk-'' @ pad_zero 16 (format_hex now) @ ''-'' @ pad_zero 16 (format_hex (unat counter))) of
        Ok k \<Rightarrow> Some k
      | Err _ \<Rightarrow> None)"

definition mutation_options :: "nat \<Rightarrow> u64 \<Rightarrow> u64 \<times> request_options option" where
  "mutation_options now counter =
     (case generate_idempotency_key now counter of
        (counter', k) \<Rightarrow>
          (counter', map_option (\<lambda>key. request_options_new\<lparr>ro_idempotency_key := Some key\<rparr>) k))"

definition with_idempotency_key :: "idempotency_key \<Rightarrow> request_options \<Rightarrow> request_options" where
  "with_idempotency_key key opts = opts\<lparr>ro_idempotency_key := Some key\<rparr>"

definition with_if_match :: "etag \<Rightarrow> request_options \<Rightarrow> request_options" where
  "with_if_match tag opts = opts\<lparr>ro_if_match := Some tag\<rparr>"

definition with_parent_if_match :: "etag \<Rightarrow> request_options \<Rightarrow> request_options" where
  "with_parent_if_match tag opts = opts\<lparr>ro_parent_if_match := Some tag\<rparr>"

definition with_control_connection :: "control_connection_id \<Rightarrow> request_options \<Rightarrow> request_options" where
  "with_control_connection c opts = opts\<lparr>ro_control_connection := Some c\<rparr>"

definition ensure_idempotency :: "nat \<Rightarrow> u64 \<Rightarrow> request_options \<Rightarrow> u64 \<times> request_options option" where
  "ensure_idempotency now counter opts =
     (case ro_idempotency_key opts of
        Some _ \<Rightarrow> (counter, Some opts)
      | None \<Rightarrow>
          (case generate_idempotency_key now counter of
             (counter', k) \<Rightarrow>
               (counter', map_option (\<lambda>key. opts\<lparr>ro_idempotency_key := Some key\<rparr>) k)))"

definition has_control_connection :: "request_options \<Rightarrow> bool" where
  "has_control_connection opts \<longleftrightarrow> ro_control_connection opts \<noteq> None"

definition require_if_match :: "request_options \<Rightarrow> (unit, http_error) result" where
  "require_if_match opts = fail_if (ro_if_match opts = None) (MissingPrecondition IF_MATCH)"

definition require_parent_if_match :: "request_options \<Rightarrow> (unit, http_error) result" where
  "require_parent_if_match opts = fail_if (ro_parent_if_match opts = None) (MissingPrecondition PARENT_IF_MATCH)"

lemmas option_builders = with_idempotency_key_def with_if_match_def with_parent_if_match_def
  with_control_connection_def request_options_new_def

text \<open>The four conditional \<open>set_header\<close> calls of \<open>apply\<close>.\<close>

definition set_optional ::
  "string \<Rightarrow> ('a \<Rightarrow> string) \<Rightarrow> 'a option \<Rightarrow> 'u http_request \<Rightarrow> ('u http_request, http_error) result" where
  "set_optional name print x r = (case x of Some v \<Rightarrow> set_header name (print v) r | None \<Rightarrow> Ok r)"

definition apply_options :: "request_options \<Rightarrow> 'u http_request \<Rightarrow> ('u http_request, http_error) result" where
  "apply_options opts r =
     and_then (set_optional IDEMPOTENCY_KEY idempotency_key_as_str (ro_idempotency_key opts) r) (\<lambda>r1.
     and_then (set_optional IF_MATCH etag_as_str (ro_if_match opts) r1) (\<lambda>r2.
     and_then (set_optional PARENT_IF_MATCH etag_as_str (ro_parent_if_match opts) r2) (\<lambda>r3.
     set_optional CONTROL_CONNECTION fixed_id_to_hex (ro_control_connection opts) r3)))"


section \<open>Responses\<close>

record http_response =
  rp_status :: nat
  rp_headers :: "string \<rightharpoonup> string"
  rp_body :: bytes

definition http_response_new :: "nat \<Rightarrow> (string \<times> string) list \<Rightarrow> bytes \<Rightarrow> http_response" where
  "http_response_new status headers body =
     \<lparr>rp_status = status,
      rp_headers = foldl (\<lambda>m (name, value). m(to_ascii_lowercase name \<mapsto> value)) Map.empty headers,
      rp_body = body\<rparr>"

definition response_header :: "string \<Rightarrow> http_response \<Rightarrow> string option" where
  "response_header name r = rp_headers r (to_ascii_lowercase name)"

record response_headers =
  rh_etag :: "etag option"
  rh_parent_etag :: "etag option"
  rh_command_id :: "string option"
  rh_state_cursor :: "cursor option"
  rh_stream_epoch :: "stream_epoch option"
  rh_geid :: "geid option"
  rh_sync_required :: bool

record 'a api_response =
  ar_data :: 'a
  ar_status :: nat
  ar_headers :: response_headers

definition invalid_response_header :: "string \<Rightarrow> string \<Rightarrow> string \<Rightarrow> http_error" where
  "invalid_response_header endpoint header reason =
     InvalidHeader (endpoint @ '': '' @ header @ '': '' @ reason)"

text \<open>\<open>value.map(parse).transpose()\<close>.\<close>

definition parse_optional ::
  "(string \<Rightarrow> ('a, 'e) result) \<Rightarrow> ('e \<Rightarrow> http_error) \<Rightarrow> string option \<Rightarrow> ('a option, http_error) result" where
  "parse_optional parse fail value =
     (case value of None \<Rightarrow> Ok None | Some v \<Rightarrow> map_ok Some (map_err fail (parse v)))"

definition parse_optional_etag :: "string option \<Rightarrow> string \<Rightarrow> string \<Rightarrow> (etag option, http_error) result" where
  "parse_optional_etag value header endpoint =
     parse_optional etag_new (\<lambda>e. InvalidHeader (header @ '': '' @ id_error_display e)) value"

definition parse_optional_cursor :: "string option \<Rightarrow> string \<Rightarrow> (cursor option, http_error) result" where
  "parse_optional_cursor value endpoint =
     parse_optional cursor_new
       (\<lambda>e. invalid_response_header endpoint STATE_CURSOR (id_error_display e)) value"

definition parse_optional_epoch :: "string option \<Rightarrow> string \<Rightarrow> (stream_epoch option, http_error) result" where
  "parse_optional_epoch value endpoint =
     parse_optional fixed_id_parse_hex
       (\<lambda>e. invalid_response_header endpoint STREAM_EPOCH (id_error_display e)) value"

definition parse_optional_geid :: "string option \<Rightarrow> string \<Rightarrow> (geid option, http_error) result" where
  "parse_optional_geid value endpoint =
     parse_optional geid_from_str
       (\<lambda>e. invalid_response_header endpoint GEID (id_error_display e)) value"

definition parse_sync_required :: "string option \<Rightarrow> string \<Rightarrow> (bool, http_error) result" where
  "parse_sync_required value endpoint =
     (case value of
        None \<Rightarrow> Ok False
      | Some v \<Rightarrow>
          if v \<in> {''true'', ''TRUE'', ''True''} then Ok True
          else if v \<in> {''false'', ''FALSE'', ''False''} then Ok False
          else Err (invalid_response_header endpoint SYNC_REQUIRED
                      (''unsupported boolean value '' @ v)))"

definition parse_headers :: "http_response \<Rightarrow> string \<Rightarrow> (response_headers, http_error) result" where
  "parse_headers r endpoint =
     and_then (parse_optional_etag (response_header ETAG r) ETAG endpoint) (\<lambda>tag.
     and_then (parse_optional_etag (response_header PARENT_ETAG r) PARENT_ETAG endpoint) (\<lambda>parent.
     and_then (parse_optional_cursor (response_header STATE_CURSOR r) endpoint) (\<lambda>cur.
     and_then (parse_optional_epoch (response_header STREAM_EPOCH r) endpoint) (\<lambda>epoch.
     and_then (parse_optional_geid (response_header GEID r) endpoint) (\<lambda>g.
     and_then (parse_sync_required (response_header SYNC_REQUIRED r) endpoint) (\<lambda>sync.
       Ok \<lparr>rh_etag = tag, rh_parent_etag = parent, rh_command_id = response_header COMMAND_ID r,
           rh_state_cursor = cur, rh_stream_epoch = epoch, rh_geid = g,
           rh_sync_required = sync\<rparr>))))))"

definition map_envelope_error :: "envelope_error \<Rightarrow> nat \<Rightarrow> string \<Rightarrow> http_error" where
  "map_envelope_error x status endpoint =
     (case x of
        EApi api \<Rightarrow>
          let api' = with_http_context status endpoint
                       (status = 429 \<or> (500 \<le> status \<and> status < 600)) api
          in if status = 412 then PreconditionFailed api' else HApi api'
      | other \<Rightarrow> HEnvelope other)"

text \<open>\<open>rj_envelope\<close> is \<open>serde_json::from_slice::<ApiEnvelope<Value>>\<close>.\<close>

record 'v response_json =
  rj_envelope :: "bytes \<Rightarrow> ('v api_envelope, string) result"
  rj_values :: "'v value_ops"

definition decode_json ::
  "'v response_json \<Rightarrow> ('v \<Rightarrow> ('t, string) result) \<Rightarrow> http_response \<Rightarrow> string
   \<Rightarrow> ('t api_response, http_error) result" where
  "decode_json RJ dec r endpoint =
     (let status = rp_status r
      in if status = 204 then Err (UnexpectedNoContent endpoint)
         else and_then (parse_headers r endpoint) (\<lambda>headers.
              and_then (map_err HJson (rj_envelope RJ (rp_body r))) (\<lambda>env.
                if \<not> (200 \<le> status \<and> status < 300) \<and> ae_code env = 0
                then Err (HttpStatus status endpoint)
                else case into_typed (rj_values RJ) dec env of
                       Ok data \<Rightarrow> Ok \<lparr>ar_data = data, ar_status = status, ar_headers = headers\<rparr>
                     | Err e \<Rightarrow> Err (map_envelope_error e status endpoint))))"

text \<open>Decoding to a JSON value is \<open>from_value::<Value>\<close>, which returns its argument.\<close>

definition decode_no_content ::
  "'v response_json \<Rightarrow> http_response \<Rightarrow> string \<Rightarrow> (unit api_response, http_error) result" where
  "decode_no_content RJ r endpoint =
     (if rp_status r = 204 then
        (if rp_body r \<noteq> [] then Err (UnexpectedContent endpoint)
         else map_ok (\<lambda>headers. \<lparr>ar_data = (), ar_status = 204, ar_headers = headers\<rparr>)
                (parse_headers r endpoint))
      else if 200 \<le> rp_status r \<and> rp_status r < 300 then Err (ExpectedNoContent endpoint)
      else case decode_json RJ Ok r endpoint of
             Ok _ \<Rightarrow> Err (ExpectedNoContent endpoint)
           | Err e \<Rightarrow> Err e)"


section \<open>Pagination\<close>

record 'a page =
  pg_items :: "'a list"
  pg_limit :: int
  pg_offset :: int
  pg_total :: int

text \<open>The query text is written by \<open>form_urlencoded::Serializer\<close>, the argument \<open>form\<close>.\<close>

definition query_path :: "((string \<times> string) list \<Rightarrow> string) \<Rightarrow> string \<Rightarrow> (string \<times> string) list \<Rightarrow> string" where
  "query_path form resource parameters =
     (let query = form parameters in if query = [] then resource else resource @ ''?'' @ query)"

definition page_path :: "((string \<times> string) list \<Rightarrow> string) \<Rightarrow> string \<Rightarrow> nat \<Rightarrow> nat \<Rightarrow> string" where
  "page_path form resource limit offset =
     query_path form resource [(''limit'', format_dec limit), (''offset'', format_dec offset)]"


section \<open>Header lemmas\<close>

text \<open>What every request built with \<open>set_header\<close> satisfies: nothing in it can end a header line.\<close>

definition headers_ok :: "(string \<rightharpoonup> string) \<Rightarrow> bool" where
  "headers_ok hs \<longleftrightarrow>
     (\<forall>name value. hs name = Some value \<longrightarrow>
        name \<noteq> [] \<and> to_ascii_lowercase name = name \<and> list_all (\<lambda>c. \<not> is_bad_value_byte c) value)"

lemma to_ascii_lowercase_Nil [simp]: "to_ascii_lowercase s = [] \<longleftrightarrow> s = []"
  by (simp add: to_ascii_lowercase_def)

lemma not_list_ex: "\<not> list_ex p xs \<longleftrightarrow> list_all (\<lambda>x. \<not> p x) xs"
  by (simp add: list_ex_iff list_all_iff)

lemma set_header_Ok_iff:
  "set_header name value r = Ok r' \<longleftrightarrow>
     name \<noteq> [] \<and> list_all (\<lambda>c. \<not> is_bad_value_byte c) value \<and> list_all is_http_token_byte name
     \<and> r' = r\<lparr>rq_headers := (rq_headers r)(to_ascii_lowercase name \<mapsto> value)\<rparr>"
  by (auto simp: set_header_def not_list_ex [symmetric])

lemma token_char_no_control: "is_token_char c \<Longrightarrow> \<not> is_bad_value_byte c"
  by (auto simp: is_token_char_def is_bad_value_byte_def is_ascii_alphanumeric_def
      is_ascii_upper_def is_ascii_lower_def is_ascii_digit_def)

lemma token_text_ok: "list_all is_token_char s \<Longrightarrow> list_all (\<lambda>c. \<not> is_bad_value_byte c) s"
  by (auto simp: list_all_iff token_char_no_control)

lemma headers_ok_update:
  assumes "headers_ok hs" "name \<noteq> []" "list_all (\<lambda>c. \<not> is_bad_value_byte c) value"
  shows "headers_ok (hs(to_ascii_lowercase name \<mapsto> value))"
  using assms by (auto simp: headers_ok_def)

lemma contract_names_are_tokens:
  "list_all is_http_token_byte IDEMPOTENCY_KEY \<and> list_all is_http_token_byte IF_MATCH
   \<and> list_all is_http_token_byte PARENT_IF_MATCH \<and> list_all is_http_token_byte CONTROL_CONNECTION
   \<and> list_all is_http_token_byte AUTHORIZATION"
  by code_simp

definition optional_update :: "string \<Rightarrow> string option \<Rightarrow> (string \<rightharpoonup> string) \<Rightarrow> string \<rightharpoonup> string" where
  "optional_update name v hs = (case v of Some x \<Rightarrow> hs(to_ascii_lowercase name \<mapsto> x) | None \<Rightarrow> hs)"

lemma set_optional_Ok_iff:
  assumes "name \<noteq> []" "list_all is_http_token_byte name"
  shows "set_optional name print x r = Ok r' \<longleftrightarrow>
    pred_option (\<lambda>v. list_all (\<lambda>c. \<not> is_bad_value_byte c) (print v)) x
    \<and> r' = r\<lparr>rq_headers := optional_update name (map_option print x) (rq_headers r)\<rparr>"
  using assms by (cases x) (auto simp: set_optional_def set_header_Ok_iff optional_update_def)

lemma headers_ok_optional:
  assumes "headers_ok hs" "name \<noteq> []" "pred_option (list_all (\<lambda>c. \<not> is_bad_value_byte c)) v"
  shows "headers_ok (optional_update name v hs)"
  using assms by (cases v) (auto simp: optional_update_def intro: headers_ok_update)


lemma encode_byte_token: "list_all is_token_char (encode_byte b)"
  using hex_char_valid [of "unat (drop_bit 4 b)"] hex_char_valid [of "unat (b AND 15)"]
    unat_high_nibble [of b] unat_low_nibble [of b]
  by (simp add: encode_byte_def hex_char_def)

lemma fixed_id_to_hex_token: "list_all is_token_char (fixed_id_to_hex i)"
  using encode_byte_token by (auto simp: fixed_id_to_hex_def encode_hex_16_def list_all_iff)

text \<open>A value whose entity tags carry no control bytes; tags come from the server unchecked.\<close>

definition clean_etag :: "etag \<Rightarrow> bool" where
  "clean_etag tag \<longleftrightarrow> list_all (\<lambda>c. \<not> is_bad_value_byte c) (etag_as_str tag)"

lemma apply_options_Ok_iff:
  assumes key: "pred_option idempotency_key_wf (ro_idempotency_key opts)"
  shows "apply_options opts r = Ok r' \<longleftrightarrow>
     pred_option clean_etag (ro_if_match opts) \<and> pred_option clean_etag (ro_parent_if_match opts)
     \<and> r' = r\<lparr>rq_headers :=
          optional_update CONTROL_CONNECTION (map_option fixed_id_to_hex (ro_control_connection opts))
         (optional_update PARENT_IF_MATCH (map_option etag_as_str (ro_parent_if_match opts))
         (optional_update IF_MATCH (map_option etag_as_str (ro_if_match opts))
         (optional_update IDEMPOTENCY_KEY (map_option idempotency_key_as_str (ro_idempotency_key opts))
            (rq_headers r))))\<rparr>"
proof -
  have k: "pred_option (\<lambda>v. list_all (\<lambda>c. \<not> is_bad_value_byte c) (idempotency_key_as_str v))
             (ro_idempotency_key opts)"
    using key by (cases "ro_idempotency_key opts") (auto simp: idempotency_key_wf_def Let_def token_text_ok)
  have c: "pred_option (\<lambda>v. list_all (\<lambda>c. \<not> is_bad_value_byte c) (fixed_id_to_hex v))
             (ro_control_connection opts)"
    by (cases "ro_control_connection opts") (auto simp: fixed_id_to_hex_token token_text_ok)
  have e: "(\<lambda>v. list_all (\<lambda>c. \<not> is_bad_value_byte c) (etag_as_str v)) = clean_etag"
    by (simp add: fun_eq_iff clean_etag_def)
  have names: "IDEMPOTENCY_KEY \<noteq> []" "IF_MATCH \<noteq> []" "PARENT_IF_MATCH \<noteq> []" "CONTROL_CONNECTION \<noteq> []"
    by (simp_all add: header_names)
  show ?thesis
    unfolding apply_options_def
    by (simp add: and_then_eq_Ok set_optional_Ok_iff names contract_names_are_tokens k c e)
qed

text \<open>The lower-case names under which the four options are stored are different.\<close>

lemma option_names_lower:
  "to_ascii_lowercase IDEMPOTENCY_KEY = ''idempotency-key''"
  "to_ascii_lowercase IF_MATCH = ''if-match''"
  "to_ascii_lowercase PARENT_IF_MATCH = ''x-zephyr-parent-if-match''"
  "to_ascii_lowercase CONTROL_CONNECTION = ''x-zephyr-control-connection''"
  "to_ascii_lowercase AUTHORIZATION = ''authorization''"
  by code_simp+


section \<open>Properties\<close>

text \<open>
  Applying the options of a mutation to a request fails only when one of its entity tags
  carries a control byte. Otherwise each of the four contract headers reads back as the option's
  text, or as before when the option is absent; every other header, the method, the URL and the body
  are untouched; and a request whose header values are free of line breaks and control bytes stays
  so, so that no option can inject a header.
\<close>

theorem apply_options_effect:
  assumes key: "pred_option idempotency_key_wf (ro_idempotency_key opts)"
    and before: "headers_ok (rq_headers r)"
  shows "case apply_options opts r of
      Err e \<Rightarrow> \<not> (pred_option clean_etag (ro_if_match opts) \<and> pred_option clean_etag (ro_parent_if_match opts))
    | Ok r' \<Rightarrow>
        request_header IDEMPOTENCY_KEY r' =
          (case ro_idempotency_key opts of Some k \<Rightarrow> Some (idempotency_key_as_str k)
           | None \<Rightarrow> request_header IDEMPOTENCY_KEY r)
        \<and> request_header IF_MATCH r' =
          (case ro_if_match opts of Some t \<Rightarrow> Some (etag_as_str t) | None \<Rightarrow> request_header IF_MATCH r)
        \<and> request_header PARENT_IF_MATCH r' =
          (case ro_parent_if_match opts of Some t \<Rightarrow> Some (etag_as_str t)
           | None \<Rightarrow> request_header PARENT_IF_MATCH r)
        \<and> request_header CONTROL_CONNECTION r' =
          (case ro_control_connection opts of Some c \<Rightarrow> Some (fixed_id_to_hex c)
           | None \<Rightarrow> request_header CONTROL_CONNECTION r)
        \<and> (\<forall>n. to_ascii_lowercase n \<notin> to_ascii_lowercase ` {IDEMPOTENCY_KEY, IF_MATCH, PARENT_IF_MATCH,
               CONTROL_CONNECTION} \<longrightarrow> request_header n r' = request_header n r)
        \<and> headers_ok (rq_headers r')
        \<and> rq_method r' = rq_method r \<and> rq_url r' = rq_url r \<and> rq_body r' = rq_body r"
proof (cases "apply_options opts r")
  case (Err e)
  then show ?thesis using apply_options_Ok_iff [OF key, of r] by auto
next
  case (Ok r')
  note r' = Ok [unfolded apply_options_Ok_iff [OF key]]
  note upd = r' [THEN conjunct2, THEN conjunct2]
  have k: "pred_option (list_all (\<lambda>c. \<not> is_bad_value_byte c))
             (map_option idempotency_key_as_str (ro_idempotency_key opts))"
    using key by (cases "ro_idempotency_key opts") (auto simp: idempotency_key_wf_def Let_def token_text_ok)
  have t: "pred_option (list_all (\<lambda>c. \<not> is_bad_value_byte c)) (map_option etag_as_str x)"
    if "pred_option clean_etag x" for x
    using that by (cases x) (auto simp: clean_etag_def)
  have c: "pred_option (list_all (\<lambda>c. \<not> is_bad_value_byte c))
             (map_option fixed_id_to_hex (ro_control_connection opts))"
    by (cases "ro_control_connection opts") (auto simp: fixed_id_to_hex_token token_text_ok)
  have "headers_ok (rq_headers r')"
    unfolding upd using r' k t c before
    by (auto intro!: headers_ok_optional simp: header_names)
  moreover have
    "request_header IDEMPOTENCY_KEY r' =
       (case ro_idempotency_key opts of Some k \<Rightarrow> Some (idempotency_key_as_str k)
        | None \<Rightarrow> request_header IDEMPOTENCY_KEY r)"
    "request_header IF_MATCH r' =
       (case ro_if_match opts of Some t \<Rightarrow> Some (etag_as_str t) | None \<Rightarrow> request_header IF_MATCH r)"
    "request_header PARENT_IF_MATCH r' =
       (case ro_parent_if_match opts of Some t \<Rightarrow> Some (etag_as_str t)
        | None \<Rightarrow> request_header PARENT_IF_MATCH r)"
    "request_header CONTROL_CONNECTION r' =
       (case ro_control_connection opts of Some c \<Rightarrow> Some (fixed_id_to_hex c)
        | None \<Rightarrow> request_header CONTROL_CONNECTION r)"
    unfolding upd by (simp_all add: request_header_def optional_update_def option_names_lower
        split: option.splits)
  moreover have "request_header n r' = request_header n r"
    if "to_ascii_lowercase n \<notin> to_ascii_lowercase ` {IDEMPOTENCY_KEY, IF_MATCH, PARENT_IF_MATCH,
               CONTROL_CONNECTION}" for n
    unfolding upd using that
    by (auto simp: request_header_def optional_update_def split: option.splits)
  ultimately show ?thesis using Ok upd by auto
qed


definition sample_options :: request_options where
  "sample_options = with_if_match (Etag ''v7'')
     (with_control_connection (FixedId (replicate 15 0 @ [1]))
       (with_idempotency_key (IdempotencyKey ''0123456789abcdef'') request_options_new))"

lemma generated_key_text:
  assumes "now < 2 ^ 128"
  shows "idempotency_key_wf (IdempotencyKey
    (''sdk-'' @ pad_zero 16 (format_hex now) @ ''-'' @ pad_zero 16 (format_hex (unat (c :: u64)))))"
proof -
  have len: "length (pad_zero 16 (format_hex now)) \<le> 32" "16 \<le> length (pad_zero 16 (format_hex now))"
    using assms length_format_hex [of now 31] by (simp_all add: length_pad_zero)
  have "list_all is_token_char ''sdk-''" "list_all is_token_char ''-''" by code_simp+
  with len show ?thesis
    by (simp add: idempotency_key_wf_def Let_def length_sequence_text list_all_append pad_hex_valid)
qed

text \<open>
  For every clock value a \<open>u128\<close> holds, generating an idempotency key never panics: the
  key satisfies the wire grammar, the counter advances by one, and no other counter value can give
  the same key, whatever the clock reads. A mutation whose caller gave a key keeps exactly that key
  and does not touch the counter.
\<close>

theorem generated_keys_valid_and_unique:
  assumes "now < 2 ^ 128"
  shows "(\<exists>k. generate_idempotency_key now c = (c + 1, Some k) \<and> idempotency_key_wf k
            \<and> (\<forall>now' c'. snd (generate_idempotency_key now' c') = Some k \<longrightarrow> c' = c))
     \<and> (case ro_idempotency_key opts of
          Some k \<Rightarrow> ensure_idempotency now c opts = (c, Some opts)
        | None \<Rightarrow> \<exists>k. ensure_idempotency now c opts = (c + 1, Some (with_idempotency_key k opts))
                     \<and> idempotency_key_wf k)"
proof -
  let ?text = "\<lambda>n c. ''sdk-'' @ pad_zero 16 (format_hex n) @ ''-'' @ pad_zero 16 (format_hex (unat c))"
  have gen: "generate_idempotency_key now c = (c + 1, Some (IdempotencyKey (?text now c)))"
    using generated_key_text [OF assms, of c]
    by (simp add: generate_idempotency_key_def idempotency_key_new_Ok_iff [THEN iffD2])
  have uniq: "c' = c" if "snd (generate_idempotency_key now' c') = Some (IdempotencyKey (?text now c))"
    for now' c'
  proof -
    have "idempotency_key_new (?text now' c') = Ok (IdempotencyKey (?text now c))"
      using that by (auto simp: generate_idempotency_key_def split: result.splits)
    then have "?text now' c' = ?text now c"
      by (simp only: idempotency_key_new_Ok_iff idempotency_key.inject)
    then have "pad_zero 16 (format_hex (unat c')) = pad_zero 16 (format_hex (unat c))"
      using length_sequence_text [of c] length_sequence_text [of c'] by simp
    then show ?thesis by (simp add: sequence_text_inject)
  qed
  show ?thesis
    using gen uniq generated_key_text [OF assms, of c]
    by (auto simp: ensure_idempotency_def with_idempotency_key_def split: option.split)
qed

text \<open>
  A JSON response is a success exactly when its status is a success status other than 204,
  every state header present is well formed, the body is an envelope with code zero and no message,
  and its data decodes; the result then carries that data, that status and those headers.
\<close>

theorem decode_json_success_iff:
  "decode_json RJ dec r endpoint = Ok a \<longleftrightarrow>
     200 \<le> rp_status r \<and> rp_status r < 300 \<and> rp_status r \<noteq> 204
     \<and> parse_headers r endpoint = Ok (ar_headers a)
     \<and> (\<exists>env v. rj_envelope RJ (rp_body r) = Ok env \<and> ae_code env = 0 \<and> ae_message env = []
          \<and> ae_data env = Some v \<and> dec v = Ok (ar_data a))
     \<and> ar_status a = rp_status r"
proof -
  have typed: "(case into_typed VO dec env of
        Ok data \<Rightarrow> Ok \<lparr>ar_data = data, ar_status = st, ar_headers = hs\<rparr>
      | Err e \<Rightarrow> Err (map_envelope_error e st endpoint)) = Ok a
      \<longleftrightarrow> into_typed VO dec env = Ok (ar_data a) \<and> ar_status a = st \<and> ar_headers a = hs"
    for VO env st hs
    by (cases "into_typed VO dec env") auto
  show ?thesis
    by (auto simp: decode_json_def Let_def res_simps typed into_typed_Ok_iff split: if_splits)
qed


text \<open>
  Errors of the server are classified by status: a refused JSON response that carries an
  API error keeps the endpoint's code and message and its field messages, is marked with the status
  and the endpoint, is retryable exactly for 429 and the 5xx statuses, and is a failed precondition
  exactly for 412; an error status whose envelope claims success is never taken for a success.
\<close>

theorem decode_json_api_error:
  assumes env: "rj_envelope RJ (rp_body r) = Ok env" and headers: "parse_headers r endpoint = Ok hs"
    and status: "rp_status r \<noteq> 204"
  shows "(ae_code env \<noteq> 0 \<longrightarrow>
      (\<exists>api. decode_json RJ dec r endpoint =
               Err (if rp_status r = 412 then PreconditionFailed api else HApi api)
         \<and> ap_http_status api = Some (rp_status r) \<and> ap_endpoint api = Some endpoint
         \<and> ap_code api = ae_code env \<and> ap_message api = ae_message env
         \<and> ap_fields api = extract_field_errors (rj_values RJ) (ae_data env)
         \<and> (ap_retryable api \<longleftrightarrow> rp_status r = 429 \<or> rp_status r div 100 = 5)))
    \<and> (ae_code env = 0 \<and> rp_status r div 100 \<noteq> 2 \<longrightarrow>
         decode_json RJ dec r endpoint = Err (HttpStatus (rp_status r) endpoint))"
proof (intro conjI impI)
  assume code0: "ae_code env \<noteq> 0"
  define e where "e = \<lparr>ap_http_status = None, ap_endpoint = None, ap_code = ae_code env,
    ap_message = ae_message env, ap_fields = extract_field_errors (rj_values RJ) (ae_data env),
    ap_retryable = False\<rparr>"
  have "into_typed (rj_values RJ) dec env = Err (EApi e)"
    using code0 by (simp add: into_typed_Api_iff e_def)
  then have d: "decode_json RJ dec r endpoint = Err (map_envelope_error (EApi e) (rp_status r) endpoint)"
    using env headers status code0 by (simp add: decode_json_def)
  have five: "500 \<le> rp_status r \<and> rp_status r < 600 \<longleftrightarrow> rp_status r div 100 = 5" by linarith
  show "\<exists>api. decode_json RJ dec r endpoint =
               Err (if rp_status r = 412 then PreconditionFailed api else HApi api)
         \<and> ap_http_status api = Some (rp_status r) \<and> ap_endpoint api = Some endpoint
         \<and> ap_code api = ae_code env \<and> ap_message api = ae_message env
         \<and> ap_fields api = extract_field_errors (rj_values RJ) (ae_data env)
         \<and> (ap_retryable api \<longleftrightarrow> rp_status r = 429 \<or> rp_status r div 100 = 5)"
    unfolding d by (rule exI [of _ "with_http_context (rp_status r) endpoint
        (rp_status r = 429 \<or> rp_status r div 100 = 5) e"])
      (simp add: map_envelope_error_def five with_http_context_def e_def Let_def)
next
  assume "ae_code env = 0 \<and> rp_status r div 100 \<noteq> 2"
  moreover from this have "\<not> (200 \<le> rp_status r \<and> rp_status r < 300)" by auto
  ultimately show "decode_json RJ dec r endpoint = Err (HttpStatus (rp_status r) endpoint)"
    using env headers status by (simp add: decode_json_def)
qed

definition sample_json :: "unit response_json" where
  "sample_json = \<lparr>rj_envelope = (\<lambda>b. Ok \<lparr>ae_code = int (length b), ae_message = ''no'', ae_data = None\<rparr>),
     rj_values = \<lparr>vo_as_object = (\<lambda>_. None), vo_as_str = (\<lambda>_. None)\<rparr>\<rparr>"

text \<open>
  A response is accepted as "no content" exactly when its status is 204, its body is empty
  and its state headers are well formed; the result carries those headers.
\<close>

lemma decode_no_content_success_iff:
  "decode_no_content RJ r endpoint = Ok a \<longleftrightarrow>
     rp_status r = 204 \<and> rp_body r = [] \<and> ar_status a = 204
     \<and> parse_headers r endpoint = Ok (ar_headers a)"
proof -
  have other: "(case x of Ok _ \<Rightarrow> Err e' | Err e \<Rightarrow> Err e) \<noteq> Ok a"
    for x :: "('v api_response, http_error) result" and e'
    by (cases x) auto
  have same: "a = \<lparr>ar_data = (), ar_status = s, ar_headers = h\<rparr>
      \<longleftrightarrow> ar_status a = s \<and> ar_headers a = h" for s h
    by (cases a) auto
  show ?thesis
    by (auto simp: decode_no_content_def map_ok_eq_Ok other same split: if_splits)
qed

end
