(* ===== verification/Credentials.thy ===== *)
theory Credentials
  imports HttpMessages
begin

text \<open>
  \<open>crates/zephyrvox-http/src\<close>: \<open>credentials.rs\<close> and the parts of \<open>client.rs\<close> and \<open>client/refresh.rs\<close>
  that run under the credential gate.

  A host supplies the credential store (the trait \<open>CredentialStore\<close>): its three operations are the
  record \<open>ST\<close> over a store state \<open>'s\<close>, its documented contract is the locale \<open>credential_store\<close>,
  and the in-memory store of the crate is an instance. The gate is a mutex held over the whole
  operation, so each operation is one function on the client's state; a \<open>Duration\<close> is its length in
  nanoseconds.
\<close>

section \<open>Tokens\<close>

datatype http_access_token = HttpAccessToken string

definition http_access_token_new :: "string \<Rightarrow> (http_access_token, credential_store_error) result" where
  "http_access_token_new v = (if v = [] then Err InvalidTokenPair else Ok (HttpAccessToken v))"

fun http_access_token_as_str :: "http_access_token \<Rightarrow> string" where
  "http_access_token_as_str (HttpAccessToken v) = v"

datatype refresh_token = RefreshToken string

definition refresh_token_new :: "string \<Rightarrow> (refresh_token, credential_store_error) result" where
  "refresh_token_new v = (if v = [] then Err InvalidTokenPair else Ok (RefreshToken v))"

fun refresh_token_as_str :: "refresh_token \<Rightarrow> string" where
  "refresh_token_as_str (RefreshToken v) = v"

record token_pair =
  tp_access_token :: http_access_token
  tp_refresh_token :: refresh_token
  tp_expires_in :: nat

definition token_pair_new ::
  "http_access_token \<Rightarrow> refresh_token \<Rightarrow> nat \<Rightarrow> (token_pair, credential_store_error) result" where
  "token_pair_new a r expires =
     (if expires = 0 then Err InvalidTokenPair
      else Ok \<lparr>tp_access_token = a, tp_refresh_token = r, tp_expires_in = expires\<rparr>)"

definition from_expires_in ::
  "string \<Rightarrow> string \<Rightarrow> int \<Rightarrow> (token_pair, credential_store_error) result" where
  "from_expires_in access refresh expires =
     (if expires \<le> 0 then Err InvalidTokenPair
      else and_then (http_access_token_new access) (\<lambda>a.
           and_then (refresh_token_new refresh) (\<lambda>r.
             token_pair_new a r (nat expires * 1000000000))))"

lemma from_expires_in_Ok_iff:
  "from_expires_in access refresh expires = Ok t \<longleftrightarrow>
     0 < expires \<and> access \<noteq> [] \<and> refresh \<noteq> []
     \<and> t = \<lparr>tp_access_token = HttpAccessToken access, tp_refresh_token = RefreshToken refresh,
            tp_expires_in = nat expires * 1000000000\<rparr>"
  by (auto simp: from_expires_in_def http_access_token_new_def refresh_token_new_def
      token_pair_new_def)


section \<open>Credential stores\<close>

record 's store_ops =
  st_load :: "'s \<Rightarrow> 's \<times> (token_pair option, credential_store_error) result"
  st_save :: "token_pair \<Rightarrow> 's \<Rightarrow> 's \<times> (unit, credential_store_error) result"
  st_clear :: "'s \<Rightarrow> 's \<times> (unit, credential_store_error) result"

text \<open>
  The contract of the trait: \<open>holds\<close> is what is persisted; loading does not change it and reports
  it when it succeeds; saving and clearing are atomic, all or nothing.
\<close>

locale credential_store =
  fixes ST :: "'s store_ops"
    and holds :: "'s \<Rightarrow> token_pair option"
  assumes load_keeps: "st_load ST s = (s', r) \<Longrightarrow> holds s' = holds s"
    and load_Ok: "st_load ST s = (s', Ok loaded) \<Longrightarrow> loaded = holds s"
    and save_Ok: "st_save ST t s = (s', Ok u) \<Longrightarrow> holds s' = Some t"
    and save_Err: "st_save ST t s = (s', Err e) \<Longrightarrow> holds s' = holds s"
    and clear_Ok: "st_clear ST s = (s', Ok u) \<Longrightarrow> holds s' = None"
    and clear_Err: "st_clear ST s = (s', Err e) \<Longrightarrow> holds s' = holds s"

definition memory_store :: "token_pair option store_ops" where
  "memory_store =
     \<lparr>st_load = (\<lambda>s. (s, Ok s)), st_save = (\<lambda>t s. (Some t, Ok ())), st_clear = (\<lambda>s. (None, Ok ()))\<rparr>"

interpretation memory: credential_store memory_store "\<lambda>s. s"
  by unfold_locales (auto simp: memory_store_def)


section \<open>Operations under the credential gate\<close>

record 's token_cell =
  tc_store :: 's
  tc_tokens :: "token_pair option"
  tc_loaded :: bool

definition token_cell_new :: "'s \<Rightarrow> 's token_cell" where
  "token_cell_new s = \<lparr>tc_store = s, tc_tokens = None, tc_loaded = False\<rparr>"

definition load_credentials ::
  "'s store_ops \<Rightarrow> 's token_cell \<Rightarrow> 's token_cell \<times> (token_pair option, http_error) result" where
  "load_credentials ST c =
     (if tc_loaded c then (c, Ok (tc_tokens c))
      else case st_load ST (tc_store c) of
             (s, Err e) \<Rightarrow> (c\<lparr>tc_store := s\<rparr>, Err (HCredential e))
           | (s, Ok t) \<Rightarrow> (\<lparr>tc_store = s, tc_tokens = t, tc_loaded = True\<rparr>, Ok t))"

definition set_tokens ::
  "'s store_ops \<Rightarrow> token_pair \<Rightarrow> 's token_cell \<Rightarrow> 's token_cell \<times> (unit, http_error) result" where
  "set_tokens ST t c =
     (case st_save ST t (tc_store c) of
        (s, Err e) \<Rightarrow> (c\<lparr>tc_store := s\<rparr>, Err (HCredential e))
      | (s, Ok _) \<Rightarrow> (\<lparr>tc_store = s, tc_tokens = Some t, tc_loaded = True\<rparr>, Ok ()))"

definition clear_tokens ::
  "'s store_ops \<Rightarrow> 's token_cell \<Rightarrow> 's token_cell \<times> (unit, http_error) result" where
  "clear_tokens ST c =
     (case st_clear ST (tc_store c) of
        (s, Err e) \<Rightarrow> (c\<lparr>tc_store := s\<rparr>, Err (HCredential e))
      | (s, Ok _) \<Rightarrow> (\<lparr>tc_store = s, tc_tokens = None, tc_loaded = True\<rparr>, Ok ()))"

definition superseded_or_error ::
  "token_pair \<Rightarrow> http_error \<Rightarrow> 's token_cell \<Rightarrow> 's token_cell \<times> (token_pair, http_error) result" where
  "superseded_or_error expected e c =
     (c, case tc_tokens c of
           Some t \<Rightarrow> if t \<noteq> expected then Ok t else Err e
         | None \<Rightarrow> Err e)"

definition expire_if_current ::
  "'s store_ops \<Rightarrow> token_pair \<Rightarrow> 's token_cell
   \<Rightarrow> 's token_cell \<times> (token_pair option, http_error) result" where
  "expire_if_current ST expected c =
     (if tc_tokens c \<noteq> Some expected then (c, Ok (tc_tokens c))
      else case st_clear ST (tc_store c) of
             (s, Err e) \<Rightarrow> (c\<lparr>tc_store := s\<rparr>, Err (HCredential e))
           | (s, Ok _) \<Rightarrow> (\<lparr>tc_store = s, tc_tokens = None, tc_loaded = True\<rparr>, Ok None))"

definition replace_if_current ::
  "'s store_ops \<Rightarrow> token_pair \<Rightarrow> token_pair \<Rightarrow> 's token_cell
   \<Rightarrow> 's token_cell \<times> (token_pair, http_error) result" where
  "replace_if_current ST expected replacement c =
     (if tc_tokens c \<noteq> Some expected then (c, ok_or (tc_tokens c) AuthenticationRequired)
      else case st_save ST replacement (tc_store c) of
             (s, Err e) \<Rightarrow> (c\<lparr>tc_store := s\<rparr>, Err (HCredential e))
           | (s, Ok _) \<Rightarrow>
               (\<lparr>tc_store = s, tc_tokens = Some replacement, tc_loaded = True\<rparr>, Ok replacement))"

definition is_unauthorized :: "http_error \<Rightarrow> bool" where
  "is_unauthorized e =
     (case e of
        HApi api \<Rightarrow> ap_http_status api = Some 401
      | HttpStatus status _ \<Rightarrow> status = 401
      | _ \<Rightarrow> False)"



section \<open>Building requests\<close>

text \<open>\<open>base_url.join\<close> of the \<open>url\<close> crate is the argument \<open>join\<close>.\<close>

definition endpoint_url :: "(string \<Rightarrow> ('u, string) result) \<Rightarrow> string \<Rightarrow> ('u, http_error) result" where
  "endpoint_url join path = map_err InvalidUrl (join (dropWhile (\<lambda>c. c = CHR ''/'') path))"

definition empty_request ::
  "(string \<Rightarrow> ('u, string) result) \<Rightarrow> http_method \<Rightarrow> string \<Rightarrow> request_options
   \<Rightarrow> ('u http_request, http_error) result" where
  "empty_request join method path opts =
     and_then (endpoint_url join path) (\<lambda>url. apply_options opts (http_request_new method url))"

definition json_request ::
  "(string \<Rightarrow> ('u, string) result) \<Rightarrow> http_method \<Rightarrow> string \<Rightarrow> (bytes, string) result \<Rightarrow> request_options
   \<Rightarrow> ('u http_request, http_error) result" where
  "json_request join method path serialized opts =
     and_then (endpoint_url join path) (\<lambda>url.
     and_then (set_json serialized (http_request_new method url)) (\<lambda>r. apply_options opts r))"


section \<open>One refresh\<close>

record refresh_response =
  rr_access_token :: string
  rr_refresh_token :: string
  rr_expires_in :: int

text \<open>What \<open>refresh_once\<close> does with the outcome of its request.\<close>

definition refresh_commit ::
  "'s store_ops \<Rightarrow> 'v response_json \<Rightarrow> ('v \<Rightarrow> (refresh_response, string) result) \<Rightarrow> token_pair
   \<Rightarrow> (http_response, http_error) result \<Rightarrow> 's token_cell
   \<Rightarrow> 's token_cell \<times> (token_pair, http_error) result" where
  "refresh_commit ST RJ dec current sent c =
     (case sent of
        Err e \<Rightarrow> superseded_or_error current e c
      | Ok response \<Rightarrow>
          (case decode_json RJ dec response ''/api/v0/auth/refresh'' of
             Err e \<Rightarrow>
               if is_unauthorized e then
                 (case expire_if_current ST current c of
                    (c', Err x) \<Rightarrow> (c', Err x)
                  | (c', Ok (Some t)) \<Rightarrow> (c', Ok t)
                  | (c', Ok None) \<Rightarrow> (c', Err AuthExpired))
               else superseded_or_error current e c
           | Ok decoded \<Rightarrow>
               (case from_expires_in (rr_access_token (ar_data decoded))
                       (rr_refresh_token (ar_data decoded)) (rr_expires_in (ar_data decoded)) of
                  Err e \<Rightarrow> superseded_or_error current (HCredential e) c
                | Ok tokens \<Rightarrow> replace_if_current ST current tokens c)))"

text \<open>
  \<open>send\<close> is the transport. While a call waits for it other tasks may use the client, so \<open>send\<close> also
  returns the client's token cell as the call finds it when it resumes.
\<close>

type_synonym ('u, 's) transport =
  "'u http_request \<Rightarrow> 's token_cell \<Rightarrow> 's token_cell \<times> (http_response, http_error) result"

definition refresh_once ::
  "(string \<Rightarrow> ('u, string) result) \<Rightarrow> (string \<Rightarrow> (bytes, string) result) \<Rightarrow> 's store_ops
   \<Rightarrow> 'v response_json \<Rightarrow> ('v \<Rightarrow> (refresh_response, string) result) \<Rightarrow> ('u, 's) transport
   \<Rightarrow> 's token_cell \<Rightarrow> 's token_cell \<times> (token_pair, http_error) result" where
  "refresh_once join body ST RJ dec send c =
     (case load_credentials ST c of
        (c1, Err e) \<Rightarrow> (c1, Err e)
      | (c1, Ok None) \<Rightarrow> (c1, Err AuthenticationRequired)
      | (c1, Ok (Some current)) \<Rightarrow>
          (case json_request join Post ''auth/refresh''
                  (body (refresh_token_as_str (tp_refresh_token current))) request_options_new of
             Err e \<Rightarrow> (c1, Err e)
           | Ok request \<Rightarrow>
               (case send request c1 of
                  (c2, sent) \<Rightarrow> refresh_commit ST RJ dec current sent c2)))"


section \<open>Memory and store agree\<close>

definition cell_inv :: "('s \<Rightarrow> token_pair option) \<Rightarrow> 's token_cell \<Rightarrow> bool" where
  "cell_inv holds c \<longleftrightarrow> tc_tokens c = (if tc_loaded c then holds (tc_store c) else None)"

datatype cell_call =
    CallLoad
  | CallSet token_pair
  | CallClear
  | CallSuperseded token_pair http_error
  | CallExpire token_pair
  | CallReplace token_pair token_pair

fun cell_apply :: "'s store_ops \<Rightarrow> cell_call \<Rightarrow> 's token_cell \<Rightarrow> 's token_cell" where
  "cell_apply ST CallLoad c = fst (load_credentials ST c)"
| "cell_apply ST (CallSet t) c = fst (set_tokens ST t c)"
| "cell_apply ST CallClear c = fst (clear_tokens ST c)"
| "cell_apply ST (CallSuperseded t e) c = fst (superseded_or_error t e c)"
| "cell_apply ST (CallExpire t) c = fst (expire_if_current ST t c)"
| "cell_apply ST (CallReplace t t') c = fst (replace_if_current ST t t' c)"

context credential_store
begin

lemma load_holds: "st_load ST s = (s', Ok loaded) \<Longrightarrow> loaded = holds s'"
  using load_keeps load_Ok by metis

lemma load_inv: "cell_inv holds c \<Longrightarrow> cell_inv holds (fst (load_credentials ST c))"
  by (auto simp: cell_inv_def load_credentials_def split: prod.splits result.splits
      dest: load_holds)

lemma set_inv: "cell_inv holds c \<Longrightarrow> cell_inv holds (fst (set_tokens ST t c))"
  by (auto simp: cell_inv_def set_tokens_def split: prod.splits result.splits dest: save_Ok save_Err)

lemma clear_inv: "cell_inv holds c \<Longrightarrow> cell_inv holds (fst (clear_tokens ST c))"
  by (auto simp: cell_inv_def clear_tokens_def split: prod.splits result.splits
      dest: clear_Ok clear_Err)

lemma expire_inv: "cell_inv holds c \<Longrightarrow> cell_inv holds (fst (expire_if_current ST t c))"
  by (auto simp: cell_inv_def expire_if_current_def split: prod.splits result.splits if_splits
      dest: clear_Ok clear_Err)

lemma replace_inv: "cell_inv holds c \<Longrightarrow> cell_inv holds (fst (replace_if_current ST t t' c))"
  by (auto simp: cell_inv_def replace_if_current_def split: prod.splits result.splits if_splits
      dest: save_Ok save_Err)

lemma apply_inv: "cell_inv holds c \<Longrightarrow> cell_inv holds (cell_apply ST call c)"
  by (cases call) (simp_all add: load_inv set_inv clear_inv expire_inv replace_inv
      superseded_or_error_def)

lemma run_inv: "cell_inv holds c \<Longrightarrow> cell_inv holds (fold (cell_apply ST) calls c)"
  by (induction calls arbitrary: c) (simp_all add: apply_inv)

lemma loaded_tokens:
  assumes "cell_inv holds c" "load_credentials ST c = (c', Ok t)"
  shows "t = holds (tc_store c') \<and> tc_tokens c' = t \<and> tc_loaded c'"
  using assms by (auto simp: cell_inv_def load_credentials_def split: prod.splits result.splits if_splits
      dest: load_holds)

end



section \<open>Properties\<close>

lemma refresh_commit_inv:
  assumes "credential_store ST holds" "cell_inv holds c"
  shows "cell_inv holds (fst (refresh_commit ST RJ dec current sent c))"
proof -
  have "\<exists>call. fst (refresh_commit ST RJ dec current sent c) = cell_apply ST call c"
  proof (cases sent)
    case (Err e)
    then show ?thesis
      by (intro exI [of _ "CallSuperseded current e"]) (simp add: refresh_commit_def)
  next
    case (Ok response)
    note sent = this
    show ?thesis
    proof (cases "decode_json RJ dec response ''/api/v0/auth/refresh''")
      case (Err e)
      then have "fst (refresh_commit ST RJ dec current sent c) =
          cell_apply ST (if is_unauthorized e then CallExpire current else CallSuperseded current e) c"
        using sent by (auto simp: refresh_commit_def split: prod.splits result.splits option.splits)
      then show ?thesis by blast
    next
      case (Ok decoded)
      let ?t = "from_expires_in (rr_access_token (ar_data decoded))
                  (rr_refresh_token (ar_data decoded)) (rr_expires_in (ar_data decoded))"
      have "fst (refresh_commit ST RJ dec current sent c) =
          cell_apply ST (case ?t of Ok t \<Rightarrow> CallReplace current t
                         | Err e \<Rightarrow> CallSuperseded current (HCredential e)) c"
        using sent Ok by (cases ?t) (simp_all add: refresh_commit_def)
      then show ?thesis by blast
    qed
  qed
  with assms credential_store.apply_inv show ?thesis by metis
qed

text \<open>
  Claim C36. For every store that keeps its contract, after any sequence of completed credential
  operations and refresh outcomes the pair the client uses is exactly the persisted one (or nothing
  has been loaded yet), so that a failed save or clear never changes the active pair, and what
  \<open>load_credentials\<close> returns is what the store holds.
\<close>

theorem active_pair_is_persisted:
  assumes store: "credential_store ST holds"
    and start: "c = fold (cell_apply ST) calls (token_cell_new s)"
  shows "cell_inv holds c
    \<and> cell_inv holds (fst (refresh_commit ST RJ dec current sent c))
    \<and> (\<forall>c' t. load_credentials ST c = (c', Ok t) \<longrightarrow>
         t = holds (tc_store c') \<and> tc_tokens c' = t \<and> tc_loaded c')"
proof -
  have "cell_inv holds (token_cell_new s)" by (simp add: cell_inv_def token_cell_new_def)
  then have inv: "cell_inv holds c"
    unfolding start by (rule credential_store.run_inv [OF store])
  show ?thesis
    using inv refresh_commit_inv [OF store inv] credential_store.loaded_tokens [OF store inv] by blast
qed

definition sample_pair :: "nat \<Rightarrow> token_pair" where
  "sample_pair n = \<lparr>tp_access_token = HttpAccessToken (format_dec n),
                    tp_refresh_token = RefreshToken (format_dec n), tp_expires_in = 3600\<rparr>"

theorem active_pair_is_persisted_witness:
  "cell_inv (\<lambda>s. s) (fold (cell_apply memory_store) [CallSet (sample_pair 1), CallClear, CallSet (sample_pair 2)]
     (token_cell_new None))
   \<and> tc_tokens (fold (cell_apply memory_store) [CallSet (sample_pair 1), CallClear, CallSet (sample_pair 2)]
     (token_cell_new None)) = Some (sample_pair 2)"
proof -
  have store: "credential_store memory_store (\<lambda>s. s)" by (rule memory.credential_store_axioms)
  let ?calls = "[CallSet (sample_pair 1), CallClear, CallSet (sample_pair 2)]"
  have "tc_tokens (fold (cell_apply memory_store) ?calls (token_cell_new None)) = Some (sample_pair 2)"
    by (simp add: set_tokens_def memory_store_def)
  with active_pair_is_persisted [OF store refl, of ?calls None,
      where ?RJ = sample_json and ?dec = "\<lambda>_. Err []" and ?current = "sample_pair 1"
        and ?sent = "Err AuthExpired"]
  show ?thesis by blast
qed

text \<open>
  Finishing a refresh never disturbs a pair installed in the meantime. If the active pair
  is no longer the one the refresh started from, the cell is left exactly as it is and the newer pair
  is what the caller gets, unless there is none and the refresh fails. If it still is, a rotated pair
  is installed only when the store has saved it, a rejection clears the pair only when the store has
  cleared it, and every other failure leaves that pair the active one.
\<close>

theorem refresh_respects_newer_login:
  "if tc_tokens c \<noteq> Some current then
      fst (refresh_commit ST RJ dec current sent c) = c
      \<and> (case tc_tokens c of
           Some newer \<Rightarrow> snd (refresh_commit ST RJ dec current sent c) = Ok newer
         | None \<Rightarrow> \<exists>e. snd (refresh_commit ST RJ dec current sent c) = Err e)
    else
      (case refresh_commit ST RJ dec current sent c of
         (c', Ok t) \<Rightarrow> (\<exists>s'. st_save ST t (tc_store c) = (s', Ok ())
                          \<and> c' = \<lparr>tc_store = s', tc_tokens = Some t, tc_loaded = True\<rparr>)
       | (c', Err e) \<Rightarrow>
           (tc_tokens c' = Some current \<and> tc_loaded c' = tc_loaded c)
           \<or> (e = AuthExpired \<and> (\<exists>s'. st_clear ST (tc_store c) = (s', Ok ())
                \<and> c' = \<lparr>tc_store = s', tc_tokens = None, tc_loaded = True\<rparr>)))"
  by (auto simp: refresh_commit_def superseded_or_error_def expire_if_current_def
      replace_if_current_def split: result.splits option.splits prod.splits)

end
