(* ===== verification/RefreshFlight.thy ===== *)
theory RefreshFlight
  imports Credentials
begin

text \<open>
  \<open>crates/zephyrvox-http/src/client/refresh.rs\<close>: the singleflight around \<open>refresh_once\<close>.

  Any number of tasks call \<open>refresh_access\<close> on clones of one client. A flight is a heap object
  reached through \<open>Arc\<close>: \<open>sf_flights\<close> is the heap, \<open>sf_next\<close> the next free address, \<open>sf_gate\<close> the content
  of \<open>refresh_gate\<close>. Each task is at one of the points between which another thread can run: the lock
  of the gate, the body of the leader, the drop of its guard, the release of the gate, and the four
  reads of a follower. Every task may also be dropped at an \<open>await\<close>. \<open>Notify\<close> is modelled by the
  number of \<open>notify_waiters\<close> calls: a \<open>Notified\<close> future remembers the count at its creation and
  completes once the count is larger.
\<close>

section \<open>State\<close>

type_synonym outcome = "(token_pair, http_error) result"

record refresh_flight =
  fl_result :: "outcome option"
  fl_notified :: nat
  fl_cancelled :: bool

definition new_refresh_flight :: refresh_flight where
  "new_refresh_flight = \<lparr>fl_result = None, fl_notified = 0, fl_cancelled = False\<rparr>"

datatype refresh_task =
    TIdle
  | TNew
  | TLead nat
  | TDropping nat
  | TRelease nat outcome
  | TJoin nat
  | TListen nat nat
  | TLook nat nat
  | TWait nat nat
  | TRead nat
  | TDone nat outcome
  | TGone

record flights =
  sf_gate :: "nat option"
  sf_next :: nat
  sf_flights :: "nat \<Rightarrow> refresh_flight"
  sf_tasks :: "nat \<Rightarrow> refresh_task"

definition flights_start :: flights where
  "flights_start =
     \<lparr>sf_gate = None, sf_next = 0, sf_flights = (\<lambda>_. new_refresh_flight), sf_tasks = (\<lambda>_. TIdle)\<rparr>"

definition set_task :: "nat \<Rightarrow> refresh_task \<Rightarrow> flights \<Rightarrow> flights" where
  "set_task i t s = s\<lparr>sf_tasks := (sf_tasks s)(i := t)\<rparr>"

definition set_flight :: "nat \<Rightarrow> refresh_flight \<Rightarrow> flights \<Rightarrow> flights" where
  "set_flight f x s = s\<lparr>sf_flights := (sf_flights s)(f := x)\<rparr>"


section \<open>The pieces of \<open>refresh_access\<close>\<close>

text \<open>The block under the gate that picks the flight; the flag says whether the caller leads it.\<close>

definition pick_flight :: "flights \<Rightarrow> flights \<times> nat \<times> bool" where
  "pick_flight s =
     (let fresh = (set_flight (sf_next s) new_refresh_flight s)
                    \<lparr>sf_gate := Some (sf_next s), sf_next := Suc (sf_next s)\<rparr>
      in case sf_gate s of
           Some f \<Rightarrow> if fl_cancelled (sf_flights s f) then (fresh, sf_next s, True) else (s, f, False)
         | None \<Rightarrow> (fresh, sf_next s, True))"

text \<open>The leader stores the result, notifies and marks its guard finished, without an \<open>await\<close>.\<close>

definition publish_result :: "nat \<Rightarrow> outcome \<Rightarrow> flights \<Rightarrow> flights" where
  "publish_result f r s =
     set_flight f ((sf_flights s f)\<lparr>fl_result := Some r,
                     fl_notified := Suc (fl_notified (sf_flights s f))\<rparr>) s"

text \<open>The drop of an unfinished guard: two steps, the flag and the notification.\<close>

definition guard_cancel :: "nat \<Rightarrow> flights \<Rightarrow> flights" where
  "guard_cancel f s = set_flight f ((sf_flights s f)\<lparr>fl_cancelled := True\<rparr>) s"

definition guard_notify :: "nat \<Rightarrow> flights \<Rightarrow> flights" where
  "guard_notify f s =
     set_flight f ((sf_flights s f)\<lparr>fl_notified := Suc (fl_notified (sf_flights s f))\<rparr>) s"

definition release_gate :: "nat \<Rightarrow> flights \<Rightarrow> flights" where
  "release_gate f s = (if sf_gate s = Some f then s\<lparr>sf_gate := None\<rparr> else s)"

text \<open>The follower after it was woken: \<open>unwrap_or(Err(AuthExpired))\<close>.\<close>

definition read_result :: "refresh_flight \<Rightarrow> outcome" where
  "read_result x = (case fl_result x of Some r \<Rightarrow> r | None \<Rightarrow> Err AuthExpired)"

inductive flight_step :: "flights \<Rightarrow> flights \<Rightarrow> bool" where
  Call: "sf_tasks s i = TIdle \<Longrightarrow> flight_step s (set_task i TNew s)"
| Lead: "sf_tasks s i = TNew \<Longrightarrow> pick_flight s = (s', f, True) \<Longrightarrow>
    flight_step s (set_task i (TLead f) s')"
| Join: "sf_tasks s i = TNew \<Longrightarrow> pick_flight s = (s', f, False) \<Longrightarrow>
    flight_step s (set_task i (TJoin f) s')"
| Publish: "sf_tasks s i = TLead f \<Longrightarrow>
    flight_step s (set_task i (TRelease f r) (publish_result f r s))"
| LeaderDropped: "sf_tasks s i = TLead f \<Longrightarrow> flight_step s (set_task i (TDropping f) (guard_cancel f s))"
| DropNotifies: "sf_tasks s i = TDropping f \<Longrightarrow> flight_step s (set_task i TGone (guard_notify f s))"
| Release: "sf_tasks s i = TRelease f r \<Longrightarrow> flight_step s (set_task i (TDone f r) (release_gate f s))"
| ReleaseDropped: "sf_tasks s i = TRelease f r \<Longrightarrow> flight_step s (set_task i TGone s)"
| Listen: "sf_tasks s i = TJoin f \<Longrightarrow>
    flight_step s (set_task i (TListen f (fl_notified (sf_flights s f))) s)"
| Check: "sf_tasks s i = TListen f n \<Longrightarrow>
    flight_step s (set_task i (if fl_cancelled (sf_flights s f) then TDone f (Err AuthExpired)
                               else TLook f n) s)"
| Look: "sf_tasks s i = TLook f n \<Longrightarrow>
    flight_step s (set_task i (case fl_result (sf_flights s f) of Some r \<Rightarrow> TDone f r
                               | None \<Rightarrow> TWait f n) s)"
| Wake: "sf_tasks s i = TWait f n \<Longrightarrow> n < fl_notified (sf_flights s f) \<Longrightarrow>
    flight_step s (set_task i (TRead f) s)"
| Read: "sf_tasks s i = TRead f \<Longrightarrow>
    flight_step s (set_task i (TDone f (read_result (sf_flights s f))) s)"
| FollowerDropped: "sf_tasks s i \<in> {TNew, TJoin f, TListen f n, TLook f n, TWait f n, TRead f} \<Longrightarrow>
    flight_step s (set_task i TGone s)"

inductive flight_reach :: "flights \<Rightarrow> flights \<Rightarrow> bool" for s where
  Here: "flight_reach s s"
| There: "flight_reach s s' \<Longrightarrow> flight_step s' s'' \<Longrightarrow> flight_reach s s''"


section \<open>Invariant\<close>

text \<open>The leader of a flight has not yet told its followers anything.\<close>

definition owned :: "flights \<Rightarrow> nat \<Rightarrow> bool" where
  "owned s f \<longleftrightarrow> (\<exists>i. sf_tasks s i = TLead f \<or> sf_tasks s i = TDropping f)"

text \<open>What is known of a task from the point it is at.\<close>

fun task_inv :: "flights \<Rightarrow> refresh_task \<Rightarrow> bool" where
  "task_inv s (TLead f) \<longleftrightarrow> sf_gate s = Some f \<and> f < sf_next s
     \<and> fl_result (sf_flights s f) = None \<and> \<not> fl_cancelled (sf_flights s f)"
| "task_inv s (TDropping f) \<longleftrightarrow> f < sf_next s
     \<and> fl_result (sf_flights s f) = None \<and> fl_cancelled (sf_flights s f)"
| "task_inv s (TRelease f r) \<longleftrightarrow> f < sf_next s \<and> fl_result (sf_flights s f) = Some r"
| "task_inv s (TJoin f) \<longleftrightarrow> f < sf_next s"
| "task_inv s (TListen f n) \<longleftrightarrow> f < sf_next s \<and> n \<le> fl_notified (sf_flights s f) \<and> (n < fl_notified (sf_flights s f) \<or> owned s f
     \<or> fl_cancelled (sf_flights s f) \<or> fl_result (sf_flights s f) \<noteq> None)"
| "task_inv s (TLook f n) \<longleftrightarrow> f < sf_next s \<and> n \<le> fl_notified (sf_flights s f) \<and> (n < fl_notified (sf_flights s f) \<or> owned s f
     \<or> fl_result (sf_flights s f) \<noteq> None)"
| "task_inv s (TWait f n) \<longleftrightarrow> f < sf_next s \<and> n \<le> fl_notified (sf_flights s f) \<and> (n < fl_notified (sf_flights s f) \<or> owned s f)"
| "task_inv s (TRead f) \<longleftrightarrow> f < sf_next s
     \<and> (fl_cancelled (sf_flights s f) \<or> fl_result (sf_flights s f) \<noteq> None)"
| "task_inv s (TDone f r) \<longleftrightarrow> f < sf_next s
     \<and> (fl_result (sf_flights s f) = Some r
        \<or> r = Err AuthExpired \<and> fl_cancelled (sf_flights s f) \<and> fl_result (sf_flights s f) = None)"
| "task_inv s _ \<longleftrightarrow> True"

fun leads :: "refresh_task \<Rightarrow> nat option" where
  "leads (TLead f) = Some f"
| "leads (TDropping f) = Some f"
| "leads (TRelease f r) = Some f"
| "leads _ = None"

fun flight_of :: "refresh_task \<Rightarrow> nat option" where
  "flight_of TIdle = None"
| "flight_of TNew = None"
| "flight_of (TLead f) = Some f"
| "flight_of (TDropping f) = Some f"
| "flight_of (TRelease f r) = Some f"
| "flight_of (TJoin f) = Some f"
| "flight_of (TListen f n) = Some f"
| "flight_of (TLook f n) = Some f"
| "flight_of (TWait f n) = Some f"
| "flight_of (TRead f) = Some f"
| "flight_of (TDone f r) = Some f"
| "flight_of TGone = None"

definition flight_inv :: "flights \<Rightarrow> nat \<Rightarrow> bool" where
  "flight_inv s f \<longleftrightarrow>
     (let x = sf_flights s f
      in \<not> (fl_cancelled x \<and> fl_result x \<noteq> None)
         \<and> (0 < fl_notified x \<longrightarrow> fl_cancelled x \<or> fl_result x \<noteq> None)
         \<and> (owned s f \<or> fl_cancelled x \<or> fl_result x \<noteq> None))"

definition flights_inv :: "flights \<Rightarrow> bool" where
  "flights_inv s \<longleftrightarrow>
     (\<forall>i. task_inv s (sf_tasks s i))
     \<and> (\<forall>f < sf_next s. flight_inv s f)
     \<and> (\<forall>f. sf_gate s = Some f \<longrightarrow> f < sf_next s)
     \<and> (\<forall>i j f. leads (sf_tasks s i) = Some f \<longrightarrow> leads (sf_tasks s j) = Some f \<longrightarrow> i = j)"


lemmas state_defs = set_task_def set_flight_def publish_result_def guard_cancel_def guard_notify_def
  release_gate_def

lemma task_flight_bound: "task_inv s t \<Longrightarrow> flight_of t = Some f \<Longrightarrow> f < sf_next s"
  by (cases t) auto

lemma flights_start_inv: "flights_inv flights_start"
  by (simp add: flights_inv_def flights_start_def)

text \<open>A task that leads nothing moves to another point where it leads nothing.\<close>

lemma owned_follower:
  assumes "leads (sf_tasks s i) = None" "leads t = None"
  shows "owned (set_task i t s) f = owned s f"
proof -
  have "sf_tasks s i \<noteq> TLead f" "sf_tasks s i \<noteq> TDropping f" "t \<noteq> TLead f" "t \<noteq> TDropping f"
    using assms by auto
  then show ?thesis by (auto simp: owned_def set_task_def)
qed

lemma follower_inv:
  assumes inv: "flights_inv s" and old: "leads (sf_tasks s i) = None" and new: "leads t = None"
    and t: "task_inv s t"
  shows "flights_inv (set_task i t s)"
proof -
  note own = owned_follower [OF old new]
  have same: "task_inv (set_task i t s) x = task_inv s x" for x
    by (cases x) (simp_all add: own, simp_all add: set_task_def)
  have fl: "flight_inv (set_task i t s) f = flight_inv s f" for f
    by (simp add: flight_inv_def own) (simp add: set_task_def)
  have ld: "leads (sf_tasks (set_task i t s) j) = Some f \<Longrightarrow> leads (sf_tasks s j) = Some f" for j f
    using new by (auto simp: set_task_def split: if_splits)
  have tasks: "task_inv s (sf_tasks (set_task i t s) j)" for j
    using inv t by (auto simp: flights_inv_def set_task_def)
  have rest: "sf_next (set_task i t s) = sf_next s" "sf_gate (set_task i t s) = sf_gate s"
    by (simp_all add: set_task_def)
  show ?thesis
    unfolding flights_inv_def same fl rest
    using inv tasks ld unfolding flights_inv_def by meson
qed


lemma flights_invD:
  assumes "flights_inv s"
  shows "task_inv s (sf_tasks s i)" "f < sf_next s \<Longrightarrow> flight_inv s f"
    "sf_gate s = Some f \<Longrightarrow> f < sf_next s"
    "leads (sf_tasks s i) = Some f \<Longrightarrow> leads (sf_tasks s j) = Some f \<Longrightarrow> i = j"
  using assms unfolding flights_inv_def by blast+

lemma flights_invI:
  assumes "\<And>i. task_inv s (sf_tasks s i)" "\<And>f. f < sf_next s \<Longrightarrow> flight_inv s f"
    "\<And>f. sf_gate s = Some f \<Longrightarrow> f < sf_next s"
    "\<And>i j f. leads (sf_tasks s i) = Some f \<Longrightarrow> leads (sf_tasks s j) = Some f \<Longrightarrow> i = j"
  shows "flights_inv s"
  using assms unfolding flights_inv_def by blast

text \<open>Two tasks cannot lead the same flight.\<close>

lemma leader_unique:
  assumes "flights_inv s" "leads (sf_tasks s i) = Some f" "j \<noteq> i"
  shows "leads (sf_tasks s j) \<noteq> Some f"
  using flights_invD(4) [OF assms(1,2)] assms(3) by blast

lemma not_leads:
  "leads t \<noteq> Some f \<Longrightarrow> t \<noteq> TLead f \<and> t \<noteq> TDropping f \<and> (\<forall>r. t \<noteq> TRelease f r)"
  by auto

text \<open>Who owns what after the task that leads \<open>f\<close> has moved to \<open>t\<close>.\<close>

lemma owned_leader:
  assumes inv: "flights_inv s" and lead: "leads (sf_tasks s i) = Some f"
    and t: "leads t = Some f \<or> leads t = None" and s': "sf_tasks s' = (sf_tasks s)(i := t)"
  shows "owned s' g \<longleftrightarrow> (if g = f then t = TLead f \<or> t = TDropping f else owned s g)"
proof (cases "g = f")
  case True
  have "\<not> (sf_tasks s j = TLead f \<or> sf_tasks s j = TDropping f)" if "j \<noteq> i" for j
    using not_leads [OF leader_unique [OF inv lead that]] by blast
  then show ?thesis using True by (auto simp: owned_def s')
next
  case False
  have old: "sf_tasks s i \<noteq> TLead g" "sf_tasks s i \<noteq> TDropping g" using lead False by auto
  have new: "t \<noteq> TLead g" "t \<noteq> TDropping g" using t False by auto
  have "(sf_tasks s' j = TLead g \<or> sf_tasks s' j = TDropping g)
      \<longleftrightarrow> (sf_tasks s j = TLead g \<or> sf_tasks s j = TDropping g)" for j
    using old new by (cases "j = i") (auto simp: s')
  then show ?thesis using False by (simp add: owned_def)
qed

text \<open>The step of a leader: what is left to show are the other tasks and the flight itself.\<close>

lemma leader_step_inv:
  assumes inv: "flights_inv s" and lead: "leads (sf_tasks s i) = Some f"
    and t: "leads t = Some f \<or> leads t = None" and s': "sf_tasks s' = (sf_tasks s)(i := t)"
    and heap: "\<And>g. g \<noteq> f \<Longrightarrow> sf_flights s' g = sf_flights s g" "sf_next s' = sf_next s"
    and gate: "sf_gate s' = sf_gate s \<or> (sf_gate s' = None \<and> sf_gate s = Some f)"
    and mine: "task_inv s' t" "flight_inv s' f"
    and others: "\<And>x. task_inv s x \<Longrightarrow> leads x \<noteq> Some f \<Longrightarrow> flight_of x = Some f
      \<Longrightarrow> task_inv s' x"
  shows "flights_inv s'"
proof (rule flights_invI)
  note own = owned_leader [OF inv lead t s']
  fix j
  show "task_inv s' (sf_tasks s' j)"
  proof (cases "j = i")
    case True
    then show ?thesis using mine by (simp add: s')
  next
    case False
    have inv_j: "task_inv s (sf_tasks s j)" by (rule flights_invD(1) [OF inv])
    note lead_j = leader_unique [OF inv lead False]
    have "task_inv s' (sf_tasks s j)"
    proof (cases "flight_of (sf_tasks s j) = Some f")
      case True
      with others [OF inv_j lead_j] show ?thesis by simp
    next
      case False
      with inv_j heap gate show ?thesis by (cases "sf_tasks s j") (auto simp: own)
    qed
    then show ?thesis using False by (simp add: s')
  qed
next
  note own = owned_leader [OF inv lead t s']
  fix g assume "g < sf_next s'"
  then show "flight_inv s' g"
    using mine(2) flights_invD(2) [OF inv, of g] heap
    by (cases "g = f") (simp_all add: flight_inv_def own)
next
  fix g assume "sf_gate s' = Some g"
  then show "g < sf_next s'" using gate heap flights_invD(3) [OF inv, of g] by auto
next
  fix j k g assume "leads (sf_tasks s' j) = Some g" "leads (sf_tasks s' k) = Some g"
  then have "leads (sf_tasks s j) = Some g" "leads (sf_tasks s k) = Some g"
    using t lead by (auto simp: s' split: if_splits)
  then show "j = k" by (rule flights_invD(4) [OF inv])
qed

lemma publish_inv:
  assumes inv: "flights_inv s" and i: "sf_tasks s i = TLead f"
  shows "flights_inv (set_task i (TRelease f r) (publish_result f r s))"
proof -
  have lead: "leads (sf_tasks s i) = Some f" using i by simp
  have fi: "task_inv s (TLead f)" using flights_invD(1) [OF inv, of i] i by simp
  let ?s = "set_task i (TRelease f r) (publish_result f r s)"
  show ?thesis
  proof (rule leader_step_inv [OF inv lead, where t = "TRelease f r"])
    fix x assume "task_inv s x" "leads x \<noteq> Some f" "flight_of x = Some f"
    then show "task_inv ?s x" using fi by (cases x) (auto simp: state_defs)
  qed (use fi in \<open>auto simp: state_defs flight_inv_def Let_def\<close>)
qed


lemma cancel_inv:
  assumes inv: "flights_inv s" and i: "sf_tasks s i = TLead f"
  shows "flights_inv (set_task i (TDropping f) (guard_cancel f s))" (is "flights_inv ?s")
proof -
  have lead: "leads (sf_tasks s i) = Some f" using i by simp
  have fi: "task_inv s (TLead f)" using flights_invD(1) [OF inv, of i] i by simp
  have own: "owned ?s f" by (auto simp: owned_def state_defs)
  have notified: "fl_notified (sf_flights s f) = 0"
    using flights_invD(2) [OF inv, of f] fi by (auto simp: flight_inv_def Let_def)
  show ?thesis
  proof (rule leader_step_inv [OF inv lead, where t = "TDropping f"])
    fix x assume "task_inv s x" "leads x \<noteq> Some f" "flight_of x = Some f"
    then show "task_inv ?s x" using fi by (cases x) (auto simp: own, auto simp: state_defs)
  next
    show "flight_inv ?s f" using fi by (auto simp: flight_inv_def Let_def own) (auto simp: state_defs)
  qed (use fi in \<open>auto simp: state_defs\<close>)
qed

lemma notify_inv:
  assumes inv: "flights_inv s" and i: "sf_tasks s i = TDropping f"
  shows "flights_inv (set_task i TGone (guard_notify f s))" (is "flights_inv ?s")
proof -
  have lead: "leads (sf_tasks s i) = Some f" using i by simp
  have fi: "task_inv s (TDropping f)" using flights_invD(1) [OF inv, of i] i by simp
  show ?thesis
  proof (rule leader_step_inv [OF inv lead, where t = TGone])
    fix x assume "task_inv s x" "leads x \<noteq> Some f" "flight_of x = Some f"
    then show "task_inv ?s x" using fi by (cases x) (auto simp: state_defs)
  qed (use fi in \<open>auto simp: state_defs flight_inv_def Let_def\<close>)
qed

lemma finish_inv:
  assumes inv: "flights_inv s" and i: "sf_tasks s i = TRelease f r"
    and t: "t = TDone f r \<or> t = TGone" and s': "s' = s \<or> s' = release_gate f s"
  shows "flights_inv (set_task i t s')" (is "flights_inv ?s")
proof -
  have lead: "leads (sf_tasks s i) = Some f" using i by simp
  have lt: "leads t = Some f \<or> leads t = None" using t by auto
  have fi: "task_inv s (TRelease f r)" using flights_invD(1) [OF inv, of i] i by simp
  have tasks: "sf_tasks ?s = (sf_tasks s)(i := t)" using s' by (auto simp: state_defs)
  have "t \<noteq> TLead f" "t \<noteq> TDropping f" using t by auto
  then have own: "\<not> owned ?s f" using owned_leader [OF inv lead lt tasks, of f] by simp
  have same: "sf_flights ?s = sf_flights s" "sf_next ?s = sf_next s" using s' by (auto simp: state_defs)
  show ?thesis
  proof (rule leader_step_inv [OF inv lead lt tasks])
    fix x assume x: "task_inv s x" "leads x \<noteq> Some f" "flight_of x = Some f"
    have "\<not> owned s f"
      using not_leads [OF leader_unique [OF inv lead]] i by (auto simp: owned_def) (metis refresh_task.distinct)+
    with x fi show "task_inv ?s x" by (cases x) (auto simp: same own)
  next
    show "flight_inv ?s f"
      using flights_invD(2) [OF inv, of f] fi by (auto simp: flight_inv_def Let_def same own)
  qed (use fi t s' in \<open>auto simp: state_defs split: if_splits\<close>)
qed


lemma pick_lead:
  assumes "pick_flight s = (s', f, True)"
  shows "f = sf_next s" "sf_gate s = None \<or> (\<exists>g. sf_gate s = Some g \<and> fl_cancelled (sf_flights s g))"
    "s' = (set_flight f new_refresh_flight s)\<lparr>sf_gate := Some f, sf_next := Suc f\<rparr>"
  using assms by (cases "sf_gate s"; simp add: pick_flight_def Let_def split: if_splits)+

lemma pick_join:
  assumes "pick_flight s = (s', f, False)"
  shows "sf_gate s = Some f" "\<not> fl_cancelled (sf_flights s f)" "s' = s"
  using assms by (cases "sf_gate s"; simp add: pick_flight_def Let_def split: if_splits)+

lemma lead_inv:
  assumes inv: "flights_inv s" and i: "sf_tasks s i = TNew" and pick: "pick_flight s = (s', f, True)"
  shows "flights_inv (set_task i (TLead f) s')"
proof -
  note f = pick_lead(1) [OF pick] and idle = pick_lead(2) [OF pick] and s' = pick_lead(3) [OF pick]
  define u where "u = set_task i (TLead f) s'"
  have tasks: "sf_tasks u = (sf_tasks s)(i := TLead f)" using s' by (simp add: u_def state_defs)
  have heap: "sf_flights u = (sf_flights s)(f := new_refresh_flight)" "sf_next u = Suc (sf_next s)"
    "sf_gate u = Some f" using s' f by (simp_all add: u_def state_defs)
  have own: "owned u g \<longleftrightarrow> g = f \<or> owned s g" for g
  proof -
    have "(sf_tasks u j = TLead g \<or> sf_tasks u j = TDropping g)
        \<longleftrightarrow> (j = i \<and> g = f) \<or> sf_tasks s j = TLead g \<or> sf_tasks s j = TDropping g" for j
      using i by (auto simp: tasks)
    then show ?thesis unfolding owned_def by metis
  qed
  have bound: "g < f" if "flight_of (sf_tasks s j) = Some g" for j g
    using task_flight_bound [OF flights_invD(1) [OF inv] that] f by simp
  have no_lead: "sf_tasks s j \<noteq> TLead g" for j g
    using flights_invD(1) [OF inv, of j] idle by auto
  have "flights_inv u"
  proof (rule flights_invI)
    fix j
    show "task_inv u (sf_tasks u j)"
    proof (cases "j = i")
      case True
      then show ?thesis by (simp add: tasks heap f [symmetric] new_refresh_flight_def)
    next
      case False
      have "task_inv u (sf_tasks s j)"
        using flights_invD(1) [OF inv, of j] bound [of j] no_lead [of j]
        by (cases "sf_tasks s j") (auto simp: heap own)
      with False show ?thesis by (simp add: tasks)
    qed
  next
    fix g assume "g < sf_next u"
    then show "flight_inv u g"
      using flights_invD(2) [OF inv, of g] f
      by (cases "g = f") (auto simp: flight_inv_def Let_def heap own new_refresh_flight_def less_Suc_eq)
  next
    fix g assume "sf_gate u = Some g"
    then show "g < sf_next u" using f by (simp add: heap)
  next
    fix j k g assume jk: "leads (sf_tasks u j) = Some g" "leads (sf_tasks u k) = Some g"
    have "g < f" if "leads (sf_tasks s l) = Some g" for l
      using that bound [of l g] by (cases "sf_tasks s l") auto
    with jk flights_invD(4) [OF inv, of j g k] show "j = k"
      by (auto simp: tasks split: if_splits)
  qed
  then show ?thesis by (simp add: u_def)
qed

lemma flight_step_inv:
  assumes "flight_step s s'" "flights_inv s"
  shows "flights_inv s'"
  using assms
proof (induction rule: flight_step.induct)
  case (Join s i s' f)
  note pick_join [OF Join(2)]
  with Join flights_invD(3) [OF Join(3)] show ?case by (intro follower_inv) auto
next
  case (Listen s i f)
  have "task_inv s (TJoin f)" using flights_invD(1) [OF Listen(2), of i] Listen(1) by simp
  with Listen flights_invD(2) [OF Listen(2), of f] show ?case
    by (intro follower_inv) (auto simp: flight_inv_def Let_def)
next
  case (Check s i f n)
  have "task_inv s (TListen f n)" using flights_invD(1) [OF Check(2), of i] Check(1) by simp
  with Check flights_invD(2) [OF Check(2), of f] show ?case
    by (intro follower_inv) (auto simp: flight_inv_def Let_def)
next
  case (Look s i f n)
  have "task_inv s (TLook f n)" using flights_invD(1) [OF Look(2), of i] Look(1) by simp
  with Look show ?case by (intro follower_inv) (auto split: option.splits)
next
  case (Wake s i f n)
  have "task_inv s (TWait f n)" using flights_invD(1) [OF Wake(3), of i] Wake(1) by simp
  with Wake flights_invD(2) [OF Wake(3), of f] show ?case
    by (intro follower_inv) (auto simp: flight_inv_def Let_def)
next
  case (Read s i f)
  have "task_inv s (TRead f)" using flights_invD(1) [OF Read(2), of i] Read(1) by simp
  with Read flights_invD(2) [OF Read(2), of f] show ?case
    by (intro follower_inv) (auto simp: flight_inv_def Let_def read_result_def split: option.splits)
next
  case (Call s i)
  then show ?case by (intro follower_inv) auto
next
  case (Lead s i s' f)
  then show ?case by (intro lead_inv)
next
  case (Publish s i f r)
  then show ?case by (intro publish_inv)
next
  case (LeaderDropped s i f)
  then show ?case by (intro cancel_inv)
next
  case (DropNotifies s i f)
  then show ?case by (intro notify_inv)
next
  case (Release s i f r)
  then show ?case by (intro finish_inv) auto
next
  case (ReleaseDropped s i f r)
  then show ?case by (intro finish_inv) auto
next
  case (FollowerDropped s i f n)
  then show ?case by (intro follower_inv) auto
qed

lemma flight_reach_inv: "flight_reach s s' \<Longrightarrow> flights_inv s \<Longrightarrow> flights_inv s'"
  by (induction rule: flight_reach.induct) (auto intro: flight_step_inv)



section \<open>Properties\<close>

lemma reach_inv: "flight_reach flights_start s \<Longrightarrow> flights_inv s"
  using flight_reach_inv flights_start_inv by blast

text \<open>
  Claim C35. However callers interleave and are dropped, at most one refresh is in progress at any
  time and the gate holds its flight; every caller that returns has either the outcome the leader of
  its flight published or, when that leader was dropped before publishing, \<open>AuthExpired\<close>; hence all
  callers of one flight return the same outcome.
\<close>

theorem refresh_singleflight:
  assumes "flight_reach flights_start s"
  shows "(sf_tasks s i = TLead f \<and> sf_tasks s j = TLead g \<longrightarrow> i = j \<and> sf_gate s = Some f)
     \<and> (sf_tasks s i = TDone f r \<longrightarrow>
          fl_result (sf_flights s f) = Some r
          \<or> (r = Err AuthExpired \<and> fl_cancelled (sf_flights s f) \<and> fl_result (sf_flights s f) = None))
     \<and> (sf_tasks s i = TDone f r \<and> sf_tasks s j = TDone f r' \<longrightarrow> r = r')"
proof -
  note inv = reach_inv [OF assms]
  note T = flights_invD(1) [OF inv]
  have "i = j \<and> sf_gate s = Some f" if "sf_tasks s i = TLead f" "sf_tasks s j = TLead g"
    using T [of i] T [of j] flights_invD(4) [OF inv, of i f j] that by auto
  moreover have done_result: "fl_result (sf_flights s f) = Some r
      \<or> (r = Err AuthExpired \<and> fl_cancelled (sf_flights s f) \<and> fl_result (sf_flights s f) = None)"
    if "sf_tasks s k = TDone f r" for k r
    using T [of k] that by auto
  moreover have "r = r'" if "sf_tasks s i = TDone f r" "sf_tasks s j = TDone f r'"
    using done_result [OF that(1)] done_result [OF that(2)] by auto
  ultimately show ?thesis by blast
qed

text \<open>
  A scheduler that runs chosen tasks: \<open>Go\<close> advances a task (a leader publishes the given outcome),
  \<open>Drop\<close> drops its future.
\<close>

datatype flight_move = Go nat outcome | Drop nat

fun flight_do :: "flight_move \<Rightarrow> flights \<Rightarrow> flights" where
  "flight_do (Go i r) s =
     (case sf_tasks s i of
        TIdle \<Rightarrow> set_task i TNew s
      | TNew \<Rightarrow> (case pick_flight s of (s', f, lead) \<Rightarrow>
                  set_task i (if lead then TLead f else TJoin f) s')
      | TLead f \<Rightarrow> set_task i (TRelease f r) (publish_result f r s)
      | TDropping f \<Rightarrow> set_task i TGone (guard_notify f s)
      | TRelease f r' \<Rightarrow> set_task i (TDone f r') (release_gate f s)
      | TJoin f \<Rightarrow> set_task i (TListen f (fl_notified (sf_flights s f))) s
      | TListen f n \<Rightarrow> set_task i (if fl_cancelled (sf_flights s f) then TDone f (Err AuthExpired)
                                   else TLook f n) s
      | TLook f n \<Rightarrow> set_task i (case fl_result (sf_flights s f) of Some r' \<Rightarrow> TDone f r'
                                 | None \<Rightarrow> TWait f n) s
      | TWait f n \<Rightarrow> if n < fl_notified (sf_flights s f) then set_task i (TRead f) s else s
      | TRead f \<Rightarrow> set_task i (TDone f (read_result (sf_flights s f))) s
      | _ \<Rightarrow> s)"
| "flight_do (Drop i) s =
     (case sf_tasks s i of
        TLead f \<Rightarrow> set_task i (TDropping f) (guard_cancel f s)
      | TRelease f r \<Rightarrow> set_task i TGone s
      | TNew \<Rightarrow> set_task i TGone s
      | TJoin f \<Rightarrow> set_task i TGone s
      | TListen f n \<Rightarrow> set_task i TGone s
      | TLook f n \<Rightarrow> set_task i TGone s
      | TWait f n \<Rightarrow> set_task i TGone s
      | TRead f \<Rightarrow> set_task i TGone s
      | _ \<Rightarrow> s)"

lemma flight_do_step: "flight_do m s = s \<or> flight_step s (flight_do m s)"
proof (cases m)
  case (Go i r)
  obtain s' f lead where pick: "pick_flight s = (s', f, lead)" by (cases "pick_flight s") auto
  show ?thesis
  proof (cases "sf_tasks s i")
    case TNew
    with pick Go show ?thesis by (cases lead) (auto intro: flight_step.Lead flight_step.Join)
  next
    case (TListen f n)
    from flight_step.Check [OF this] show ?thesis using Go TListen by simp
  qed (use Go in \<open>auto intro: flight_step.intros\<close>)
next
  case (Drop i)
  have gone: "sf_tasks s i \<in> {TNew, TJoin f, TListen f n, TLook f n, TWait f n, TRead f}
      \<Longrightarrow> flight_step s (set_task i TGone s)" for f n
    by (rule flight_step.FollowerDropped)
  show ?thesis
    by (cases "sf_tasks s i") (use Drop gone in \<open>auto intro: LeaderDropped ReleaseDropped\<close>)
qed

lemma flight_run_reach: "flight_reach s0 s \<Longrightarrow> flight_reach s0 (fold flight_do ms s)"
proof (induction ms arbitrary: s)
  case (Cons m ms)
  then have "flight_reach s0 (flight_do m s)" using flight_do_step [of m s] There by metis
  then show ?case using Cons.IH by simp
qed simp

text \<open>One caller leads and publishes, a second one joins before and reads the same outcome.\<close>

definition shared_outcome_run :: flights where
  "shared_outcome_run =
     (let r = Ok (sample_pair 1)
      in fold flight_do [Go 0 r, Go 1 r, Go 0 r, Go 1 r, Go 1 r, Go 1 r, Go 0 r, Go 1 r, Go 0 r] flights_start)"

lemma shared_outcome_reachable: "flight_reach flights_start shared_outcome_run"
  unfolding shared_outcome_run_def Let_def by (rule flight_run_reach [OF Here])

lemma shared_outcome_tasks:
  "sf_tasks shared_outcome_run 0 = TDone 0 (Ok (sample_pair 1))
   \<and> sf_tasks shared_outcome_run 1 = TDone 0 (Ok (sample_pair 1))
   \<and> \<not> fl_cancelled (sf_flights shared_outcome_run 0)"
  by (simp add: shared_outcome_run_def flights_start_def state_defs pick_flight_def
      new_refresh_flight_def Let_def)

theorem refresh_singleflight_witness:
  "fl_result (sf_flights shared_outcome_run 0) = Some (Ok (sample_pair 1))
   \<and> sf_tasks shared_outcome_run 1 = TDone 0 (Ok (sample_pair 1))"
  using refresh_singleflight [OF shared_outcome_reachable, of 1 0 1 0 "Ok (sample_pair 1)"]
    shared_outcome_tasks by auto


text \<open>
  Claim C39. No wake-up is lost: a follower that waits can go on as soon as the leader of its flight
  is no longer at work, and both ways in which a leader stops, publishing an outcome and being
  dropped, complete the future the follower waits on.
\<close>

theorem refresh_waiters_wake:
  assumes "flight_reach flights_start s" "sf_tasks s i = TWait f n"
  shows "(\<not> owned s f \<longrightarrow> flight_step s (set_task i (TRead f) s)
            \<and> flight_step (set_task i (TRead f) s) (set_task i (TDone f (read_result (sf_flights s f))) s))
     \<and> n < fl_notified (sf_flights (publish_result f r s) f)
     \<and> n < fl_notified (sf_flights (guard_notify f s) f)"
proof -
  have T: "n \<le> fl_notified (sf_flights s f) \<and> (n < fl_notified (sf_flights s f) \<or> owned s f)"
    using flights_invD(1) [OF reach_inv [OF assms(1)], of i] assms(2) by auto
  have read: "flight_step (set_task i (TRead f) s) (set_task i (TDone f (read_result (sf_flights s f))) s)"
    using flight_step.Read [of "set_task i (TRead f) s" i f] by (simp add: set_task_def)
  show ?thesis
    using T read flight_step.Wake [OF assms(2)] by (auto simp: state_defs)
qed

text \<open>The leader is still at work and a second caller waits; then the leader is dropped.\<close>

definition dropped_leader_run :: flights where
  "dropped_leader_run =
     (let r = Err AuthExpired
      in fold flight_do [Go 0 r, Go 1 r, Go 0 r, Go 1 r, Go 1 r, Go 1 r, Go 1 r, Drop 0, Go 0 r] flights_start)"

theorem refresh_waiters_wake_witness:
  "flight_step (set_task 1 (TRead 0) dropped_leader_run)
     (set_task 1 (TDone 0 (Err AuthExpired)) dropped_leader_run)"
proof -
  have reach: "flight_reach flights_start dropped_leader_run"
    unfolding dropped_leader_run_def Let_def by (rule flight_run_reach [OF Here])
  have wait: "sf_tasks dropped_leader_run 1 = TWait 0 0"
    and res: "read_result (sf_flights dropped_leader_run 0) = Err AuthExpired"
    and own: "\<not> owned dropped_leader_run 0"
    by (simp_all add: dropped_leader_run_def flights_start_def state_defs pick_flight_def
        new_refresh_flight_def read_result_def owned_def Let_def)
  from refresh_waiters_wake [OF reach wait, of "Err AuthExpired"] own res show ?thesis by simp
qed


section \<open>An abandoned flight\<close>

text \<open>A flight that has its outcome and stays in the gate with nobody left to take it out.\<close>

definition abandoned :: "outcome \<Rightarrow> flights \<Rightarrow> bool" where
  "abandoned r s \<longleftrightarrow>
     sf_gate s = Some 0 \<and> fl_result (sf_flights s 0) = Some r \<and> \<not> fl_cancelled (sf_flights s 0)
     \<and> (\<forall>i. case sf_tasks s i of
           TLead f \<Rightarrow> False | TDropping f \<Rightarrow> False | TRelease f r' \<Rightarrow> False | TWait f n \<Rightarrow> False
         | TIdle \<Rightarrow> True | TNew \<Rightarrow> True | TGone \<Rightarrow> True
         | TJoin f \<Rightarrow> f = 0 | TListen f n \<Rightarrow> f = 0 | TLook f n \<Rightarrow> f = 0 | TRead f \<Rightarrow> f = 0
         | TDone f r' \<Rightarrow> f = 0 \<and> r' = r)"

lemma abandoned_set_task:
  assumes "abandoned r s"
    and "case t of TLead f \<Rightarrow> False | TDropping f \<Rightarrow> False | TRelease f r' \<Rightarrow> False | TWait f n \<Rightarrow> False
         | TIdle \<Rightarrow> True | TNew \<Rightarrow> True | TGone \<Rightarrow> True
         | TJoin f \<Rightarrow> f = 0 | TListen f n \<Rightarrow> f = 0 | TLook f n \<Rightarrow> f = 0 | TRead f \<Rightarrow> f = 0
         | TDone f r' \<Rightarrow> f = 0 \<and> r' = r"
  shows "abandoned r (set_task i t s)"
  using assms by (simp add: abandoned_def set_task_def)

lemma abandoned_step:
  assumes "flight_step s s'" "abandoned r s"
  shows "abandoned r s'"
  using assms
proof (induction rule: flight_step.induct)
  case (Lead s i s' f)
  then show ?case using pick_lead(2) [OF Lead(2)] by (auto simp: abandoned_def)
next
  case (Join s i s' f)
  then show ?case using pick_join [OF Join(2)] by (auto simp: abandoned_def set_task_def)
next
  case (Publish s i f r')
  then have "False" by (auto simp: abandoned_def dest!: spec [of _ i])
  then show ?case ..
next
  case (LeaderDropped s i f)
  then have "False" by (auto simp: abandoned_def dest!: spec [of _ i])
  then show ?case ..
next
  case (DropNotifies s i f)
  then have "False" by (auto simp: abandoned_def dest!: spec [of _ i])
  then show ?case ..
next
  case (Release s i f r')
  then have "False" by (auto simp: abandoned_def dest!: spec [of _ i])
  then show ?case ..
next
  case (Check s i f n)
  then have "f = 0" "\<not> fl_cancelled (sf_flights s 0)" by (auto simp: abandoned_def dest!: spec [of _ i])
  with Check show ?case by (intro abandoned_set_task) simp_all
next
  case (Look s i f n)
  then have "f = 0" "fl_result (sf_flights s 0) = Some r" by (auto simp: abandoned_def dest!: spec [of _ i])
  with Look show ?case by (intro abandoned_set_task) simp_all
next
  case (Wake s i f n)
  then have "False" by (auto simp: abandoned_def dest!: spec [of _ i])
  then show ?case ..
next
  case (Read s i f)
  then have "f = 0" "fl_result (sf_flights s 0) = Some r" by (auto simp: abandoned_def dest!: spec [of _ i])
  with Read show ?case by (intro abandoned_set_task) (simp_all add: read_result_def)
next
  case (Listen s i f)
  then have "f = 0" by (auto simp: abandoned_def dest!: spec [of _ i])
  with Listen show ?case by (intro abandoned_set_task) simp_all
qed (auto intro: abandoned_set_task)

lemma abandoned_reach: "flight_reach s s' \<Longrightarrow> abandoned r s \<Longrightarrow> abandoned r s'"
  by (induction rule: flight_reach.induct) (auto intro: abandoned_step)

text \<open>
  Claim C40. A leader that is dropped after it has marked its guard finished, while it waits for the
  gate, leaves its finished flight in the gate for good: from then on no caller ever starts a refresh
  again, and every call returns the old outcome, whatever has become of the tokens since.
\<close>

theorem abandoned_flight_is_permanent:
  "\<exists>s. flight_reach flights_start s \<and> (\<forall>i. sf_tasks s i = TIdle \<or> sf_tasks s i = TGone)
     \<and> (\<forall>s' i f r'. flight_reach s s' \<longrightarrow>
          sf_tasks s' i \<noteq> TLead f \<and> (sf_tasks s' i = TDone f r' \<longrightarrow> r' = r))"
proof -
  define s where "s = fold flight_do [Go 0 r, Go 0 r, Go 0 r, Drop 0] flights_start"
  have reach: "flight_reach flights_start s" unfolding s_def by (rule flight_run_reach [OF Here])
  have tasks: "sf_tasks s i = TIdle \<or> sf_tasks s i = TGone" for i
    by (simp add: s_def flights_start_def state_defs pick_flight_def Let_def)
  have "abandoned r s"
    by (simp add: abandoned_def s_def flights_start_def state_defs pick_flight_def Let_def
        new_refresh_flight_def)
  then have later: "abandoned r s'" if "flight_reach s s'" for s' using abandoned_reach that by blast
  have "sf_tasks s' i \<noteq> TLead f \<and> (sf_tasks s' i = TDone f r' \<longrightarrow> r' = r)" if "flight_reach s s'"
    for s' i f r'
    using later [OF that] by (auto simp: abandoned_def dest!: spec [of _ i])
  with reach tasks show ?thesis by blast
qed

theorem abandoned_flight_is_permanent_witness:
  "\<exists>s. flight_reach flights_start s
     \<and> (\<forall>i f. sf_tasks (fold flight_do [Go 1 (Ok (sample_pair 2)), Go 1 (Ok (sample_pair 2))] s) i \<noteq> TLead f)"
  using abandoned_flight_is_permanent [of "Err (HTransport ''timeout'')"] flight_run_reach [OF Here]
  by metis

end
