(* ===== verification/HttpClient.thy ===== *)
theory HttpClient
  imports RefreshFlight DomainState
begin

text \<open>
  \<open>crates/zephyrvox-http/src\<close>: sending requests (\<open>client.rs\<close>) and the account flows of \<open>auth.rs\<close>.

  A call works on the token cell of its client and logs the requests it hands to the transport. The
  transport \<open>send\<close> and the shared refresh are arguments; both return the cell as the call finds it
  when it resumes, because other tasks use the client while the call waits.
\<close>

section \<open>Sending\<close>

datatype auth_requirement = NoAuth | AccessTokenAuth bool

text \<open>
  \<open>he_join\<close> resolves a path against the base URL and \<open>he_path\<close> is \<open>Url::path\<close>, both of the \<open>url\<close>
  crate; \<open>he_json\<close> is \<open>serde_json\<close>; \<open>he_send\<close> is the injected transport, \<open>he_refresh\<close> a call of
  \<open>refresh_access\<close>.
\<close>

record ('u, 's, 'v) http_env =
  he_store :: "'s store_ops"
  he_send :: "('u, 's) transport"
  he_refresh :: "'s token_cell \<Rightarrow> 's token_cell \<times> outcome"
  he_join :: "string \<Rightarrow> ('u, string) result"
  he_path :: "'u \<Rightarrow> string"
  he_json :: "'v response_json"

record ('u, 's) call_state =
  cl_cell :: "'s token_cell"
  cl_sent :: "'u http_request list"
  cl_counter :: u64

definition on_cell ::
  "('s token_cell \<Rightarrow> 's token_cell \<times> 'r) \<Rightarrow> ('u, 's) call_state \<Rightarrow> ('u, 's) call_state \<times> 'r" where
  "on_cell f w = (case f (cl_cell w) of (c, r) \<Rightarrow> (w\<lparr>cl_cell := c\<rparr>, r))"

definition transmit ::
  "('u, 's) transport \<Rightarrow> 'u http_request \<Rightarrow> ('u, 's) call_state
   \<Rightarrow> ('u, 's) call_state \<times> (http_response, http_error) result" where
  "transmit send request w =
     (case send request (cl_cell w) of
        (c, r) \<Rightarrow> (w\<lparr>cl_cell := c, cl_sent := cl_sent w @ [request]\<rparr>, r))"

text \<open>A step that stops the call when it fails: the \<open>?\<close> operator over the call's state.\<close>

definition try_then ::
  "'w \<times> ('a, 'e) result \<Rightarrow> ('a \<Rightarrow> 'w \<Rightarrow> 'w \<times> ('b, 'e) result) \<Rightarrow> 'w \<times> ('b, 'e) result" where
  "try_then x k = (case x of (w, Err e) \<Rightarrow> (w, Err e) | (w, Ok a) \<Rightarrow> k a w)"

definition bearer :: "token_pair \<Rightarrow> string" where
  "bearer t = ''Bearer '' @ http_access_token_as_str (tp_access_token t)"

definition require_tokens ::
  "'s store_ops \<Rightarrow> ('u, 's) call_state \<Rightarrow> ('u, 's) call_state \<times> (token_pair, http_error) result" where
  "require_tokens ST w =
     try_then (on_cell (load_credentials ST) w) (\<lambda>t w1. (w1, ok_or t AuthenticationRequired))"

definition with_access_token ::
  "'s store_ops \<Rightarrow> 'u http_request \<Rightarrow> ('u, 's) call_state
   \<Rightarrow> ('u, 's) call_state \<times> ('u http_request, http_error) result" where
  "with_access_token ST request w =
     try_then (require_tokens ST w) (\<lambda>t w1. (w1, set_header AUTHORIZATION (bearer t) request))"

text \<open>
  The retry of \<open>send_request\<close> after a 401: a refresh only when the rejected token is still the
  active one, then the request once more under the token active now.
\<close>

definition retry_after_401 ::
  "('u, 's, 'v) http_env \<Rightarrow> 'u http_request \<Rightarrow> http_access_token option \<Rightarrow> ('u, 's) call_state
   \<Rightarrow> ('u, 's) call_state \<times> (http_response, http_error) result" where
  "retry_after_401 E req sent_access_token w2 =
     try_then (on_cell (load_credentials (he_store E)) w2) (\<lambda>current w3.
       try_then
         (if map_option tp_access_token current = sent_access_token
          then on_cell (\<lambda>c. case he_refresh E c of (c', r) \<Rightarrow> (c', map_ok (\<lambda>_. ()) r)) w3
          else (w3, Ok ()))
         (\<lambda>_ w4. try_then (with_access_token (he_store E) req w4)
            (\<lambda>retry w5. transmit (he_send E) retry w5)))"

definition send_request ::
  "('u, 's, 'v) http_env \<Rightarrow> 'u http_request \<Rightarrow> auth_requirement \<Rightarrow> ('u, 's) call_state
   \<Rightarrow> ('u, 's) call_state \<times> (http_response, http_error) result" where
  "send_request E request auth w =
     try_then
       (case auth of
          NoAuth \<Rightarrow> (w, Ok (request, None))
        | AccessTokenAuth _ \<Rightarrow>
            try_then (require_tokens (he_store E) w) (\<lambda>t w1.
              (w1, map_ok (\<lambda>r. (r, Some (tp_access_token t)))
                     (set_header AUTHORIZATION (bearer t) request))))
       (\<lambda>(req, sent_access_token) w1.
          try_then (transmit (he_send E) req w1) (\<lambda>response w2.
            if rp_status response = 401 \<and> auth = AccessTokenAuth True then
              retry_after_401 E req sent_access_token w2
            else (w2, Ok response)))"

definition send_json ::
  "('u, 's, 'v) http_env \<Rightarrow> ('v \<Rightarrow> ('t, string) result) \<Rightarrow> 'u http_request \<Rightarrow> auth_requirement
   \<Rightarrow> ('u, 's) call_state \<Rightarrow> ('u, 's) call_state \<times> ('t api_response, http_error) result" where
  "send_json E dec request auth w =
     try_then (send_request E request auth w)
       (\<lambda>response w1. (w1, decode_json (he_json E) dec response (he_path E (rq_url request))))"

definition send_no_content ::
  "('u, 's, 'v) http_env \<Rightarrow> 'u http_request \<Rightarrow> auth_requirement
   \<Rightarrow> ('u, 's) call_state \<Rightarrow> ('u, 's) call_state \<times> (unit api_response, http_error) result" where
  "send_no_content E request auth w =
     try_then (send_request E request auth w)
       (\<lambda>response w1. (w1, decode_no_content (he_json E) response (he_path E (rq_url request))))"


section \<open>Accounts\<close>

record login_wire_response =
  lw_access_token :: string
  lw_refresh_token :: string
  lw_expires_in :: int
  lw_user :: user

record login_result =
  lr_tokens :: token_pair
  lr_user :: user

record register_request =
  rg_username :: string
  rg_password :: string
  rg_nickname :: "string option"
  rg_invite :: "string option"

record me_wire_response =
  mw_user :: user
  mw_permissions :: "string list"

text \<open>\<open>WireUser::into_user\<close> drops an empty avatar.\<close>

definition into_user :: "user \<Rightarrow> user" where
  "into_user u = u\<lparr>us_avatar := optional_avatar (us_avatar u)\<rparr>"

text \<open>Request bodies arrive serialised; \<open>dec\<close> decodes the data of the response.\<close>

definition auth_login ::
  "('u, 's, 'v) http_env \<Rightarrow> ('v \<Rightarrow> (login_wire_response, string) result) \<Rightarrow> (bytes, string) result
   \<Rightarrow> ('u, 's) call_state \<Rightarrow> ('u, 's) call_state \<times> (login_result, http_error) result" where
  "auth_login E dec input w =
     try_then (w, json_request (he_join E) Post ''auth/login'' input request_options_new) (\<lambda>request w1.
     try_then (send_json E dec request NoAuth w1) (\<lambda>response w2.
     try_then (w2, map_err HCredential (from_expires_in (lw_access_token (ar_data response))
                     (lw_refresh_token (ar_data response)) (lw_expires_in (ar_data response)))) (\<lambda>tokens w3.
     try_then (on_cell (set_tokens (he_store E) tokens) w3) (\<lambda>_ w4.
       (w4, Ok \<lparr>lr_tokens = tokens, lr_user = into_user (lw_user (ar_data response))\<rparr>)))))"

text \<open>
  \<open>options.ensure_idempotency()\<close> on the process-wide counter; \<open>None\<close> is the panic of the generator.
\<close>

definition with_ensured ::
  "nat \<Rightarrow> request_options \<Rightarrow> ('u, 's) call_state \<Rightarrow> (request_options \<Rightarrow> ('u, 's) call_state \<Rightarrow> 'r) \<Rightarrow> 'r option" where
  "with_ensured now opts w k =
     (case ensure_idempotency now (cl_counter w) opts of
        (counter, None) \<Rightarrow> None
      | (counter, Some opts') \<Rightarrow> Some (k opts' (w\<lparr>cl_counter := counter\<rparr>)))"

definition register_response_with_options ::
  "('u, 's, 'v) http_env \<Rightarrow> string option \<Rightarrow> (register_request \<Rightarrow> (bytes, string) result)
   \<Rightarrow> ('v \<Rightarrow> (user, string) result) \<Rightarrow> nat \<Rightarrow> register_request \<Rightarrow> request_options \<Rightarrow> ('u, 's) call_state
   \<Rightarrow> (('u, 's) call_state \<times> (user api_response, http_error) result) option" where
  "register_response_with_options E card_invite ser dec now input opts w =
     (let input' = (if rg_invite input = None then input\<lparr>rg_invite := card_invite\<rparr> else input)
      in with_ensured now opts w (\<lambda>opts' w1.
           try_then (w1, json_request (he_join E) Post ''auth/register'' (ser input') opts') (\<lambda>request w2.
           try_then (send_json E dec request NoAuth w2) (\<lambda>response w3.
             (w3, Ok (response\<lparr>ar_data := into_user (ar_data response)\<rparr>))))))"

definition activate_response_with_options ::
  "('u, 's, 'v) http_env \<Rightarrow> ('v \<Rightarrow> (user, string) result) \<Rightarrow> nat \<Rightarrow> (bytes, string) result
   \<Rightarrow> request_options \<Rightarrow> ('u, 's) call_state
   \<Rightarrow> (('u, 's) call_state \<times> (user api_response, http_error) result) option" where
  "activate_response_with_options E dec now input opts w =
     with_ensured now opts w (\<lambda>opts' w1.
       try_then (w1, json_request (he_join E) Post ''admin/activate'' input opts') (\<lambda>request w2.
       try_then (send_json E dec request NoAuth w2) (\<lambda>response w3.
         (w3, Ok (response\<lparr>ar_data := into_user (ar_data response)\<rparr>)))))"

text \<open>\<open>logout_with_options\<close> once its options have a retry identity.\<close>

definition logout_body ::
  "('u, 's, 'v) http_env \<Rightarrow> (string \<Rightarrow> (bytes, string) result) \<Rightarrow> request_options
   \<Rightarrow> ('u, 's) call_state \<Rightarrow> ('u, 's) call_state \<times> (unit, http_error) result" where
  "logout_body E ser opts w =
     try_then (on_cell (load_credentials (he_store E)) w) (\<lambda>loaded w2.
       case loaded of
         None \<Rightarrow> (w2, Ok ())
       | Some tokens \<Rightarrow>
           try_then (w2, json_request (he_join E) Post ''auth/logout''
                           (ser (refresh_token_as_str (tp_refresh_token tokens))) opts) (\<lambda>request w3.
           try_then (send_no_content E request NoAuth w3) (\<lambda>_ w4.
             on_cell (clear_tokens (he_store E)) w4)))"

definition logout_with_options ::
  "('u, 's, 'v) http_env \<Rightarrow> (string \<Rightarrow> (bytes, string) result) \<Rightarrow> nat \<Rightarrow> request_options
   \<Rightarrow> ('u, 's) call_state \<Rightarrow> (('u, 's) call_state \<times> (unit, http_error) result) option" where
  "logout_with_options E ser now opts w = with_ensured now opts w (logout_body E ser)"

definition auth_me ::
  "('u, 's, 'v) http_env \<Rightarrow> ('v \<Rightarrow> (me_wire_response, string) result) \<Rightarrow> ('u, 's) call_state
   \<Rightarrow> ('u, 's) call_state \<times> (user \<times> string list, http_error) result" where
  "auth_me E dec w =
     try_then (w, empty_request (he_join E) Get ''auth/me'' request_options_new) (\<lambda>request w1.
     try_then (send_json E dec request (AccessTokenAuth True) w1) (\<lambda>response w2.
       (w2, Ok (into_user (mw_user (ar_data response)), mw_permissions (ar_data response)))))"



section \<open>Lemmas about calls\<close>

lemma try_then_simps [simp]:
  "try_then (w, Ok a) k = k a w"
  "try_then (w, Err e) k = (w, Err e)"
  by (simp_all add: try_then_def)

lemma on_cell_sent [simp]: "cl_sent (fst (on_cell f w)) = cl_sent w"
  by (simp add: on_cell_def split: prod.split)

lemma transmit_sent [simp]: "cl_sent (fst (transmit send r w)) = cl_sent w @ [r]"
  by (simp add: transmit_def split: prod.split)

lemma require_tokens_sent [simp]: "cl_sent (fst (require_tokens ST w)) = cl_sent w"
proof -
  obtain w1 r where l: "on_cell (load_credentials ST) w = (w1, r)" by (cases "on_cell (load_credentials ST) w")
  have "cl_sent w1 = cl_sent w" using on_cell_sent [of "load_credentials ST" w] l by simp
  then show ?thesis by (cases r) (simp_all add: require_tokens_def l)
qed

text \<open>The request as it goes out under a token pair.\<close>

definition authorised :: "'u http_request \<Rightarrow> token_pair \<Rightarrow> 'u http_request" where
  "authorised r t = r\<lparr>rq_headers := (rq_headers r)(''authorization'' \<mapsto> bearer t)\<rparr>"

lemma set_authorization:
  "set_header AUTHORIZATION (bearer t) r = Ok r' \<Longrightarrow> r' = authorised r t"
  by (simp add: set_header_Ok_iff authorised_def option_names_lower)

lemma authorised_twice [simp]: "authorised (authorised r t) t' = authorised r t'"
  by (simp add: authorised_def)

lemma with_access_token_sent [simp]: "cl_sent (fst (with_access_token ST r w)) = cl_sent w"
proof -
  obtain w1 x where l: "require_tokens ST w = (w1, x)" by (cases "require_tokens ST w")
  have "cl_sent w1 = cl_sent w" using require_tokens_sent [of ST w] l by simp
  then show ?thesis by (cases x) (simp_all add: with_access_token_def l)
qed

lemma with_access_token_Ok:
  assumes "with_access_token ST r w = (w', Ok r')"
  shows "\<exists>t. r' = authorised r t"
proof -
  obtain w1 x where l: "require_tokens ST w = (w1, x)" by (cases "require_tokens ST w")
  then show ?thesis
    using assms by (cases x) (auto simp: with_access_token_def dest: set_authorization)
qed

lemma send_request_no_auth: "send_request E request NoAuth w = transmit (he_send E) request w"
proof -
  obtain w1 r where "transmit (he_send E) request w = (w1, r)" by (cases "transmit (he_send E) request w")
  then show ?thesis by (cases r) (simp_all add: send_request_def)
qed

lemma retry_sent:
  "cl_sent (fst (retry_after_401 E req sent w2)) = cl_sent w2
   \<or> (\<exists>t. cl_sent (fst (retry_after_401 E req sent w2)) = cl_sent w2 @ [authorised req t])"
proof -
  obtain w3 cur where l: "on_cell (load_credentials (he_store E)) w2 = (w3, cur)"
    by (cases "on_cell (load_credentials (he_store E)) w2")
  have s3: "cl_sent w3 = cl_sent w2" using on_cell_sent [of "load_credentials (he_store E)" w2] l by simp
  show ?thesis
  proof (cases cur)
    case (Err e)
    then show ?thesis by (simp add: retry_after_401_def l s3)
  next
    case (Ok current)
    obtain w4 r4 where r: "(if map_option tp_access_token current = sent
          then on_cell (\<lambda>c. case he_refresh E c of (c', r) \<Rightarrow> (c', map_ok (\<lambda>_. ()) r)) w3
          else (w3, Ok ())) = (w4, r4)" by (meson surj_pair)
    have s4: "cl_sent w4 = cl_sent w2"
      using r s3 on_cell_sent by (metis fst_conv)
    obtain w5 r5 where a: "with_access_token (he_store E) req w4 = (w5, r5)" by (meson surj_pair)
    have s5: "cl_sent w5 = cl_sent w2" using with_access_token_sent [of "he_store E" req w4] a s4 by simp
    show ?thesis
    proof (cases r4)
      case (Err e)
      then show ?thesis using s4 by (simp add: retry_after_401_def l Ok r)
    next
      case r4: (Ok u)
      show ?thesis
      proof (cases r5)
        case (Err e)
        then show ?thesis using s5 by (simp add: retry_after_401_def l Ok r r4 a)
      next
        case r5: (Ok again)
        with with_access_token_Ok a obtain t where "again = authorised req t" by blast
        then show ?thesis using s5 by (simp add: retry_after_401_def l Ok r r4 a r5) blast
      qed
    qed
  qed
qed



text \<open>What a call adds to the log of sent requests.\<close>

lemma send_request_log:
  "\<exists>extra. cl_sent (fst (send_request E request auth w)) = cl_sent w @ extra
     \<and> (case auth of
          NoAuth \<Rightarrow> extra = [request]
        | AccessTokenAuth retry \<Rightarrow>
            extra = [] \<or> (\<exists>t. extra = [authorised request t])
            \<or> (\<exists>t t' c c' response. extra = [authorised request t, authorised request t'] \<and> retry
                 \<and> he_send E (authorised request t) c = (c', Ok response) \<and> rp_status response = 401))"
proof (cases auth)
  case NoAuth
  then show ?thesis by (simp add: send_request_no_auth)
next
  case (AccessTokenAuth retry)
  note auth = this
  obtain w1 x where l: "require_tokens (he_store E) w = (w1, x)" by (meson surj_pair)
  have s1: "cl_sent w1 = cl_sent w" using require_tokens_sent [of "he_store E" w] l by simp
  show ?thesis
  proof (cases "\<exists>t req. x = Ok t \<and> set_header AUTHORIZATION (bearer t) request = Ok req")
    case False
    then have "cl_sent (fst (send_request E request auth w)) = cl_sent w"
      using s1 by (cases x; cases "set_header AUTHORIZATION (bearer (case x of Ok t \<Rightarrow> t)) request")
        (auto simp: send_request_def auth l)
    then show ?thesis by (simp add: auth)
  next
    case True
    then obtain t where x: "x = Ok t"
      and h: "set_header AUTHORIZATION (bearer t) request = Ok (authorised request t)"
      using set_authorization by blast
    obtain c' r where snd: "he_send E (authorised request t) (cl_cell w1) = (c', r)" by (meson surj_pair)
    define w2 where "w2 = w1\<lparr>cl_cell := c', cl_sent := cl_sent w1 @ [authorised request t]\<rparr>"
    have tr: "transmit (he_send E) (authorised request t) w1 = (w2, r)"
      by (simp add: transmit_def snd w2_def)
    have s2: "cl_sent w2 = cl_sent w @ [authorised request t]" by (simp add: w2_def s1)
    show ?thesis
    proof (cases "\<exists>response. r = Ok response \<and> rp_status response = 401 \<and> retry")
      case False
      then have "send_request E request auth w = (w2, r)"
        by (cases r) (auto simp: send_request_def auth l x h tr)
      then show ?thesis using s2 by (auto simp: auth)
    next
      case True
      then obtain response where r: "r = Ok response" "rp_status response = 401" retry by blast
      then have "send_request E request auth w
          = retry_after_401 E (authorised request t) (Some (tp_access_token t)) w2"
        by (simp add: send_request_def auth l x h tr)
      then consider "cl_sent (fst (send_request E request auth w)) = cl_sent w @ [authorised request t]"
        | t' where "cl_sent (fst (send_request E request auth w))
            = cl_sent w @ [authorised request t, authorised request t']"
        using retry_sent [of E "authorised request t" "Some (tp_access_token t)" w2] s2 by fastforce
      then show ?thesis
      proof cases
        case 1
        then show ?thesis by (auto simp: auth)
      next
        case 2
        have "he_send E (authorised request t) (cl_cell w1) = (c', Ok response)" using snd r by simp
        with 2 r show ?thesis
          by (intro exI [of _ "[authorised request t, authorised request t']"]) (simp add: auth, blast)
      qed
    qed
  qed
qed


section \<open>Properties\<close>

text \<open>
  A call hands the transport at most two requests. Without authentication it is exactly
  the request itself. With authentication each is the request under a bearer token, equal to it in
  method, URL, body and every other header, the idempotency key included; and a second one is sent
  only when a retry was allowed and the first was answered with 401.
\<close>

theorem send_request_retries_once:
  "\<exists>extra. cl_sent (fst (send_request E request auth w)) = cl_sent w @ extra
     \<and> (case auth of
          NoAuth \<Rightarrow> extra = [request]
        | AccessTokenAuth retry \<Rightarrow>
            extra = [] \<or> (\<exists>t. extra = [authorised request t])
            \<or> (\<exists>t t' c c' response. extra = [authorised request t, authorised request t'] \<and> retry
                 \<and> he_send E (authorised request t) c = (c', Ok response) \<and> rp_status response = 401))"
  by (rule send_request_log)

lemma try_then_Ok_iff:
  "try_then x k = (w', Ok b) \<longleftrightarrow> (\<exists>a w1. x = (w1, Ok a) \<and> k a w1 = (w', Ok b))"
  by (cases x; cases "snd x") auto

lemma try_then_Err_iff:
  "try_then x k = (w', Err e) \<longleftrightarrow> x = (w', Err e) \<or> (\<exists>a w1. x = (w1, Ok a) \<and> k a w1 = (w', Err e))"
  by (cases x; cases "snd x") auto

lemmas call_cases = try_then_Ok_iff try_then_Err_iff

lemma transmit_eq:
  "transmit send q w = (w', r) \<longleftrightarrow>
     (\<exists>c. send q (cl_cell w) = (c, r) \<and> w' = w\<lparr>cl_cell := c, cl_sent := cl_sent w @ [q]\<rparr>)"
  by (auto simp: transmit_def split: prod.splits)

lemma on_cell_eq:
  "on_cell f w = (w', r) \<longleftrightarrow> (\<exists>c. f (cl_cell w) = (c, r) \<and> w' = w\<lparr>cl_cell := c\<rparr>)"
  by (auto simp: on_cell_def split: prod.splits)

lemma set_tokens_eq:
  "set_tokens ST t c = (c', Ok u) \<longleftrightarrow>
     (\<exists>s. st_save ST t (tc_store c) = (s, Ok ()) \<and> c' = \<lparr>tc_store = s, tc_tokens = Some t, tc_loaded = True\<rparr>)"
  "set_tokens ST t c = (c', Err e) \<longleftrightarrow>
     (\<exists>s x. st_save ST t (tc_store c) = (s, Err x) \<and> c' = c\<lparr>tc_store := s\<rparr> \<and> e = HCredential x)"
  by (auto simp: set_tokens_def split: prod.splits result.splits)

lemma clear_tokens_eq:
  "clear_tokens ST c = (c', Ok u) \<longleftrightarrow>
     (\<exists>s. st_clear ST (tc_store c) = (s, Ok ()) \<and> c' = \<lparr>tc_store = s, tc_tokens = None, tc_loaded = True\<rparr>)"
  "clear_tokens ST c = (c', Err e) \<longleftrightarrow>
     (\<exists>s x. st_clear ST (tc_store c) = (s, Err x) \<and> c' = c\<lparr>tc_store := s\<rparr> \<and> e = HCredential x)"
  by (auto simp: clear_tokens_def split: prod.splits result.splits)

text \<open>A request that \<open>json_request\<close> builds carries no bearer token.\<close>

lemma set_optional_other:
  assumes "set_optional name print x r = Ok r'" "to_ascii_lowercase name \<noteq> n"
  shows "rq_headers r' n = rq_headers r n"
  using assms by (cases x) (auto simp: set_optional_def set_header_Ok_iff)

lemma json_request_anonymous:
  assumes "json_request join m path body opts = Ok q"
  shows "rq_headers q ''authorization'' = None"
proof -
  have app: "rq_headers r' ''authorization'' = rq_headers r ''authorization''"
    if "apply_options opts r = Ok r'" for r r'
    using that unfolding apply_options_def and_then_eq_Ok
    by (elim exE conjE)
       (simp add: set_optional_other [where n = "''authorization''"] option_names_lower)
  have ct: "to_ascii_lowercase ''content-type'' = ''content-type''" by code_simp
  show ?thesis
    using assms
    by (auto dest!: app simp: json_request_def set_json_def and_then_eq_Ok set_header_Ok_iff http_request_new_def ct)
qed

text \<open>
  Logging in sends one request without a bearer token. When it succeeds the returned pair
  is the active one, it is complete and was saved by the store before it became active; when it fails
  the active pair is the one the call found, before or after its request, and never a new one.
\<close>

theorem login_installs_saved_tokens:
  "case auth_login E dec input w of
     (w', Ok res) \<Rightarrow>
       tc_tokens (cl_cell w') = Some (lr_tokens res) \<and> tc_loaded (cl_cell w')
       \<and> (\<exists>s. st_save (he_store E) (lr_tokens res) s = (tc_store (cl_cell w'), Ok ()))
       \<and> 0 < tp_expires_in (lr_tokens res)
       \<and> http_access_token_as_str (tp_access_token (lr_tokens res)) \<noteq> []
       \<and> (\<exists>q. cl_sent w' = cl_sent w @ [q] \<and> rq_headers q ''authorization'' = None)
   | (w', Err e) \<Rightarrow>
       tc_tokens (cl_cell w') = tc_tokens (cl_cell w)
       \<or> (\<exists>q. tc_tokens (cl_cell w') = tc_tokens (fst (he_send E q (cl_cell w))))"
proof -
  obtain w' r where out: "auth_login E dec input w = (w', r)" by (meson surj_pair)
  show ?thesis
  proof (cases r)
    case (Ok res)
    have ok: "auth_login E dec input w = (w', Ok res)" using out Ok by simp
    then obtain q w1 response tokens where
      q: "json_request (he_join E) Post ''auth/login'' input request_options_new = Ok q"
      and w1: "transmit (he_send E) q w = (w1, Ok response)"
      and tokens: "\<exists>a b n. from_expires_in a b n = Ok tokens"
      and set: "on_cell (set_tokens (he_store E) tokens) w1 = (w', Ok ())"
      and res: "lr_tokens res = tokens"
      unfolding auth_login_def send_json_def send_request_no_auth try_then_Ok_iff
      by (force simp: map_err_eq_Ok)
    have "cl_sent w' = cl_sent w @ [q]" using w1 set by (auto simp: transmit_eq on_cell_eq)
    then show ?thesis
      using out Ok res tokens set json_request_anonymous [OF q]
      by (auto simp: on_cell_eq set_tokens_eq from_expires_in_Ok_iff)
  next
    case (Err e)
    have fail: "auth_login E dec input w = (w', Err e)" using out Err by simp
    then consider "cl_cell w' = cl_cell w"
      | q w1 x where "transmit (he_send E) q w = (w1, x)" "cl_cell w' = cl_cell w1"
      | q w1 x t where "transmit (he_send E) q w = (w1, x)"
          "on_cell (set_tokens (he_store E) t) w1 = (w', Err e)"
      unfolding auth_login_def send_json_def send_request_no_auth try_then_Err_iff try_then_Ok_iff
      by auto
    then have "tc_tokens (cl_cell w') = tc_tokens (cl_cell w)
       \<or> (\<exists>q. tc_tokens (cl_cell w') = tc_tokens (fst (he_send E q (cl_cell w))))"
      by cases (auto simp: transmit_eq on_cell_eq set_tokens_eq, (metis fst_conv)+)
    then show ?thesis by (simp add: fail)
  qed
qed


lemma with_ensured_Some:
  assumes "now < 2 ^ 128"
  shows "\<exists>opts' counter. with_ensured now opts w k = Some (k opts' (w\<lparr>cl_counter := counter\<rparr>))
           \<and> ro_idempotency_key opts' \<noteq> None"
proof (cases "ro_idempotency_key opts")
  case None
  obtain key where "snd (generate_idempotency_key now (cl_counter w)) = Some key"
    using generated_key_text [OF assms, of "cl_counter w"]
    by (auto simp: generate_idempotency_key_def idempotency_key_new_Ok_iff [THEN iffD2])
  then obtain n where "generate_idempotency_key now (cl_counter w) = (n, Some key)"
    by (metis prod.collapse)
  then show ?thesis
    by (intro exI [of _ "opts\<lparr>ro_idempotency_key := Some key\<rparr>"] exI [of _ n])
       (simp add: with_ensured_def ensure_idempotency_def None)
next
  case (Some key)
  then show ?thesis
    by (intro exI [of _ opts] exI [of _ "cl_counter w"]) (simp add: with_ensured_def ensure_idempotency_def)
qed

lemma load_tokens_fst:
  "load_credentials ST c = (c', Ok t) \<Longrightarrow> tc_tokens c' = t"
  by (auto simp: load_credentials_def split: if_splits prod.splits result.splits)

lemma anonymous_no_content_eq:
  "send_no_content E q NoAuth w = (w', Ok a) \<longleftrightarrow>
     (\<exists>c response. he_send E q (cl_cell w) = (c, Ok response)
        \<and> w' = w\<lparr>cl_cell := c, cl_sent := cl_sent w @ [q]\<rparr>
        \<and> decode_no_content (he_json E) response (he_path E (rq_url q)) = Ok a)"
  "send_no_content E q NoAuth w = (w', Err e) \<Longrightarrow>
     \<exists>c x. he_send E q (cl_cell w) = (c, x) \<and> w' = w\<lparr>cl_cell := c, cl_sent := cl_sent w @ [q]\<rparr>"
  by (auto simp: send_no_content_def send_request_no_auth call_cases transmit_eq)

lemma logout_body_outcome:
  assumes "logout_body E ser opts w = (w', r)"
  shows "case r of
         Ok _ \<Rightarrow> tc_tokens (cl_cell w') = None
           \<and> (cl_sent w' = cl_sent w
              \<or> (\<exists>q c c' response. cl_sent w' = cl_sent w @ [q] \<and> rq_headers q ''authorization'' = None
                   \<and> he_send E q c = (c', Ok response) \<and> rp_status response = 204 \<and> rp_body response = []))
       | Err e \<Rightarrow>
           tc_tokens (cl_cell w') = tc_tokens (fst (load_credentials (he_store E) (cl_cell w)))
           \<or> (\<exists>q c. tc_tokens (cl_cell w') = tc_tokens (fst (he_send E q c)))"
proof -
  obtain c1 x where l: "load_credentials (he_store E) (cl_cell w) = (c1, x)" by (meson surj_pair)
  have on: "on_cell (load_credentials (he_store E)) w = (w\<lparr>cl_cell := c1\<rparr>, x)"
    by (simp add: on_cell_eq l)
  consider (fail) e where "x = Err e" | (anon) "x = Ok None" | (pair) t where "x = Ok (Some t)"
    by (cases x; cases "case x of Ok y \<Rightarrow> y") auto
  then show ?thesis
  proof cases
    case fail
    then show ?thesis using assms on by (auto simp: logout_body_def l)
  next
    case anon
    then show ?thesis using assms on load_tokens_fst [OF l [unfolded anon]]
      by (auto simp: logout_body_def l)
  next
    case (pair t)
    let ?q = "json_request (he_join E) Post ''auth/logout''
                (ser (refresh_token_as_str (tp_refresh_token t))) opts"
    have rest: "try_then (w\<lparr>cl_cell := c1\<rparr>, ?q) (\<lambda>request w3.
           try_then (send_no_content E request NoAuth w3) (\<lambda>_ w4.
             on_cell (clear_tokens (he_store E)) w4)) = (w', r)"
      using assms on pair by (simp add: logout_body_def)
    show ?thesis
    proof (cases ?q)
      case (Err e)
      then show ?thesis using rest by (auto simp: l)
    next
      case (Ok q)
      obtain w4 y where s: "send_no_content E q NoAuth (w\<lparr>cl_cell := c1\<rparr>) = (w4, y)" by (meson surj_pair)
      show ?thesis
      proof (cases y)
        case (Err e)
        with s have "send_no_content E q NoAuth (w\<lparr>cl_cell := c1\<rparr>) = (w4, Err e)" by simp
        from anonymous_no_content_eq(2) [OF this] obtain c z where
          "he_send E q c1 = (c, z)" "cl_cell w4 = c" by auto
        then show ?thesis using rest Ok s Err by (auto intro!: exI [of _ q] exI [of _ c1])
      next
        case y: (Ok a)
        with s have "send_no_content E q NoAuth (w\<lparr>cl_cell := c1\<rparr>) = (w4, Ok a)" by simp
        then obtain c response where c: "he_send E q c1 = (c, Ok response)" "cl_cell w4 = c"
            "cl_sent w4 = cl_sent w @ [q]" "rp_status response = 204" "rp_body response = []"
          unfolding anonymous_no_content_eq(1) by (auto simp: decode_no_content_success_iff)
        have fin: "on_cell (clear_tokens (he_store E)) w4 = (w', r)" using rest Ok s y by simp
        show ?thesis
        proof (cases r)
          case (Ok u)
          then show ?thesis
            using fin c json_request_anonymous [OF \<open>?q = Ok q\<close>]
            by (auto simp: on_cell_eq clear_tokens_eq)
        next
          case (Err e)
          then show ?thesis
            using fin c by (auto simp: on_cell_eq clear_tokens_eq intro!: exI [of _ q] exI [of _ c1])
        qed
      qed
    qed
  qed
qed

text \<open>
  Logging out never panics over its retry identity. It reports success only when no pair
  is active any more, and then either the client was anonymous and sent nothing, or it sent one
  request without a bearer token that was answered with an empty 204 before the store was cleared.
  When it fails, the active pair is the one it found on the way; no failure clears it.
\<close>

theorem logout_clears_after_204:
  assumes "now < 2 ^ 128"
  shows "\<exists>w' r. logout_with_options E ser now opts w = Some (w', r)
    \<and> (case r of
         Ok _ \<Rightarrow> tc_tokens (cl_cell w') = None
           \<and> (cl_sent w' = cl_sent w
              \<or> (\<exists>q c c' response. cl_sent w' = cl_sent w @ [q] \<and> rq_headers q ''authorization'' = None
                   \<and> he_send E q c = (c', Ok response) \<and> rp_status response = 204 \<and> rp_body response = []))
       | Err e \<Rightarrow>
           tc_tokens (cl_cell w') = tc_tokens (fst (load_credentials (he_store E) (cl_cell w)))
           \<or> (\<exists>q c. tc_tokens (cl_cell w') = tc_tokens (fst (he_send E q c))))"
proof -
  obtain opts' counter where out: "logout_with_options E ser now opts w
      = Some (logout_body E ser opts' (w\<lparr>cl_counter := counter\<rparr>))"
    using with_ensured_Some [OF assms, of opts w "logout_body E ser"]
    by (auto simp: logout_with_options_def)
  obtain w' r where k: "logout_body E ser opts' (w\<lparr>cl_counter := counter\<rparr>) = (w', r)"
    by (meson surj_pair)
  show ?thesis
    using logout_body_outcome [OF k] by (simp add: out k split: result.splits) 
qed


definition sample_env :: "(unit, token_pair option, unit) http_env" where
  "sample_env = \<lparr>he_store = memory_store, he_send = (\<lambda>q c. (c, Ok (http_response_new 204 [] []))),
     he_refresh = (\<lambda>c. (c, Err AuthExpired)), he_join = (\<lambda>_. Ok ()), he_path = (\<lambda>_. ''/api/v0/auth/logout''),
     he_json = sample_json\<rparr>"

definition sample_call :: "(unit, token_pair option) call_state" where
  "sample_call = \<lparr>cl_cell = token_cell_new (Some (sample_pair 1)), cl_sent = [], cl_counter = 1\<rparr>"

end
