(* ===== verification/Transports.thy ===== *)
theory Transports
  imports TlsPin HttpClient RealtimeTypes
begin

text \<open>
  The production transports: \<open>crates/zephyrvox-http/src/transport.rs\<close> over \<open>reqwest\<close>,
  \<open>crates/zephyrvox-realtime/src/transport.rs\<close> over \<open>tungstenite\<close>, and the two base URLs that
  \<open>client.rs\<close> and \<open>connection.rs\<close> build from a card. The network is an argument: a call returns what
  the certificate verifier recorded while it ran and the outcome.
\<close>

section \<open>The HTTP transport\<close>

definition http_scheme :: "server_card \<Rightarrow> string" where
  "http_scheme c = (if is_tls (sc_scheme c) then ''https'' else ''http'')"

definition control_base_url :: "(string \<Rightarrow> (url, string) result) \<Rightarrow> server_card \<Rightarrow> (url, http_error) result" where
  "control_base_url up c =
     map_err http_error.InvalidUrl
       (up (http_scheme c @ ''://'' @ url_host c @ '':'' @ format_dec (unat (sc_port c)) @ ''/api/v0/''))"

record reqwest_transport =
  tr_expected_scheme :: string
  tr_expected_host :: string
  tr_expected_port :: u16
  tr_pin :: "fingerprint option"

text \<open>
  \<open>tls\<close> builds the TLS configuration for a pin and \<open>build\<close> the client from it; both belong to the
  libraries and may fail with a message. A built client follows no redirect.
\<close>

definition reqwest_transport_new ::
  "(fingerprint \<Rightarrow> (unit, string) result) \<Rightarrow> (fingerprint option \<Rightarrow> (unit, string) result) \<Rightarrow> server_card
   \<Rightarrow> (reqwest_transport, http_error) result" where
  "reqwest_transport_new tls build c =
     and_then (case sc_fingerprint c of
                 Some f \<Rightarrow> map_ok (\<lambda>_. Some f)
                   (map_err (\<lambda>e. HTransport (''invalid TLS configuration: '' @ e)) (tls f))
               | None \<Rightarrow> Ok None) (\<lambda>pin.
     and_then (map_err HTransport (build pin)) (\<lambda>_.
       Ok \<lparr>tr_expected_scheme = http_scheme c, tr_expected_host = sc_host c,
           tr_expected_port = sc_port c, tr_pin = pin\<rparr>))"

definition off_card :: "reqwest_transport \<Rightarrow> url \<Rightarrow> bool" where
  "off_card T u \<longleftrightarrow>
     url_scheme u \<noteq> tr_expected_scheme T
     \<or> url_host_str u \<noteq> Some (tr_expected_host T)
     \<or> url_port_or_known_default u \<noteq> Some (tr_expected_port T)
     \<or> url_username u \<noteq> [] \<or> url_password u \<noteq> None \<or> url_fragment u \<noteq> None"

record raw_response =
  rw_status :: nat
  rw_headers :: "(string \<times> bytes) list"
  rw_body :: "(bytes, string) result"

text \<open>\<open>to_str\<close> is \<open>HeaderValue::to_str\<close>; the first value that is not text fails the response.\<close>

fun collect_headers ::
  "(bytes \<Rightarrow> (string, string) result) \<Rightarrow> (string \<times> bytes) list \<Rightarrow> ((string \<times> string) list, http_error) result" where
  "collect_headers to_str [] = Ok []"
| "collect_headers to_str ((name, value) # rest) =
     and_then (map_err InvalidHeader (to_str value)) (\<lambda>v.
     map_ok (\<lambda>hs. (name, v) # hs) (collect_headers to_str rest))"

text \<open>The recorded failure is taken out of the shared cell by the first error that reads it.\<close>

definition map_transport_error ::
  "reqwest_transport \<Rightarrow> failure_state \<Rightarrow> string \<Rightarrow> failure_state \<times> http_error" where
  "map_transport_error T failure e =
     (case tr_pin T of
        None \<Rightarrow> (failure, HTransport e)
      | Some _ \<Rightarrow>
          (None, case failure of
                   Some (PinMismatch expected actual) \<Rightarrow>
                     TlsPinMismatch (fingerprint_to_hex expected) (fingerprint_to_hex actual)
                 | Some InvalidCertificate \<Rightarrow> TlsPeerCertificateInvalid
                 | None \<Rightarrow> HTransport e))"

type_synonym network =
  "url http_request \<Rightarrow> failure_state \<Rightarrow> failure_state \<times> (raw_response, string) result"

definition send_inner ::
  "(bytes \<Rightarrow> (string, string) result) \<Rightarrow> network \<Rightarrow> reqwest_transport \<Rightarrow> url http_request \<Rightarrow> failure_state
   \<Rightarrow> failure_state \<times> (http_response, http_error) result" where
  "send_inner to_str net T request failure =
     (if off_card T (rq_url request)
      then (failure, Err (http_error.InvalidUrl ''request URL does not match the server card''))
      else
        (case net request failure of
           (failure1, Err e) \<Rightarrow>
             (case map_transport_error T failure1 e of (failure2, h) \<Rightarrow> (failure2, Err h))
         | (failure1, Ok response) \<Rightarrow>
             (failure1,
              and_then (collect_headers to_str (rw_headers response)) (\<lambda>headers.
              and_then (map_err HTransport (rw_body response)) (\<lambda>body.
              Ok (http_response_new (rw_status response) headers body))))))"


section \<open>The WebSocket transport\<close>

definition websocket_scheme :: "server_card \<Rightarrow> string" where
  "websocket_scheme c = (case sc_scheme c of Plain \<Rightarrow> ''ws'' | Tls \<Rightarrow> ''wss'')"

definition websocket_url :: "(string \<Rightarrow> (url, string) result) \<Rightarrow> server_card \<Rightarrow> (url, realtime_error) result" where
  "websocket_url up c =
     map_err RProtocol
       (up (websocket_scheme c @ ''://'' @ url_host c @ '':'' @ format_dec (unat (sc_port c)) @ ''/api/v0/ws''))"

definition url_matches_card :: "url \<Rightarrow> server_card \<Rightarrow> bool" where
  "url_matches_card u c \<longleftrightarrow>
     url_scheme u = websocket_scheme c
     \<and> url_host_str u = Some (sc_host c)
     \<and> url_port_or_known_default u = Some (sc_port c)
     \<and> url_path u = ''/api/v0/ws''
     \<and> url_query u = None \<and> url_fragment u = None \<and> url_username u = [] \<and> url_password u = None"

text \<open>\<open>TungsteniteError\<close>: an HTTP answer to the upgrade, or anything else with its message.\<close>

datatype upgrade_error = UpgradeHttp nat string | UpgradeOther string

fun map_upgrade_error :: "upgrade_error \<Rightarrow> realtime_error" where
  "map_upgrade_error (UpgradeHttp status display) =
     (if status = 401 then RAuthenticationExpired
      else if status = 403 then RProtocol ''WebSocket upgrade was forbidden''
      else RTransport (''WebSocket upgrade failed with HTTP status '' @ display))"
| "map_upgrade_error (UpgradeOther e) = RTransport e"

fun pin_failure_into_error :: "tls_verification_failure \<Rightarrow> realtime_error" where
  "pin_failure_into_error (PinMismatch expected actual) =
     RTlsPinMismatch (fingerprint_to_hex expected) (fingerprint_to_hex actual)"
| "pin_failure_into_error InvalidCertificate = RTlsCertificateInvalid"

text \<open>
  \<open>to_request\<close> and \<open>to_header\<close> are the conversions of the upgrade request and of its header value,
  \<open>dial\<close> the connection attempt with the headers and the pin; it starts with no failure recorded.
\<close>

record ('q, 's) websocket_net =
  wn_to_request :: "url \<Rightarrow> ('q, string) result"
  wn_to_header :: "string \<Rightarrow> (string, string) result"
  wn_tls :: "fingerprint \<Rightarrow> (unit, string) result"
  wn_dial :: "'q \<Rightarrow> string \<times> string \<Rightarrow> fingerprint option \<Rightarrow> nat
              \<Rightarrow> failure_state \<times> ('s, upgrade_error) result"

definition MAXIMUM_MESSAGE :: nat where
  "MAXIMUM_MESSAGE = 256 * 1024"

definition websocket_connect ::
  "('q, 's) websocket_net \<Rightarrow> server_card \<Rightarrow> url \<Rightarrow> access_token \<Rightarrow> ('s, realtime_error) result" where
  "websocket_connect N c u token =
     (if \<not> url_matches_card u c
      then Err (RProtocol ''WebSocket URL does not match server card authority'')
      else
        and_then (map_err RTransport (wn_to_request N u)) (\<lambda>request.
        and_then (map_err (\<lambda>e. RTransport (''invalid authorization header: '' @ e))
                    (wn_to_header N (''Bearer '' @ access_token_as_str token))) (\<lambda>header.
        and_then (case sc_fingerprint c of
                    Some f \<Rightarrow> map_ok (\<lambda>_. Some f)
                      (map_err (\<lambda>e. RTransport (''invalid TLS configuration: '' @ e)) (wn_tls N f))
                  | None \<Rightarrow> Ok None) (\<lambda>pin.
          (case wn_dial N request (AUTHORIZATION, header) pin MAXIMUM_MESSAGE of
             (_, Ok stream) \<Rightarrow> Ok stream
           | (failure, Err e) \<Rightarrow>
               (case (if pin = None then None else failure) of
                  Some f \<Rightarrow> Err (pin_failure_into_error f)
                | None \<Rightarrow> Err (map_upgrade_error e)))))))"

text \<open>What \<open>stream.next\<close> yields; a raw frame is skipped and a binary frame is refused.\<close>

datatype stream_item =
    ItemText string | ItemPing bytes | ItemPong bytes
  | ItemClose "(nat \<times> string) option" | ItemBinary bytes | ItemFrame
  | ItemError string

fun websocket_receive ::
  "stream_item list \<Rightarrow> stream_item list \<times> (web_socket_message option, realtime_error) result" where
  "websocket_receive [] = ([], Ok None)"
| "websocket_receive (ItemText t # rest) = (rest, Ok (Some (WText t)))"
| "websocket_receive (ItemPing p # rest) = (rest, Ok (Some (WPing p)))"
| "websocket_receive (ItemPong p # rest) = (rest, Ok (Some (WPong p)))"
| "websocket_receive (ItemClose frame # rest) =
     (rest, Ok (Some (WCloseFrame (map_option fst frame) (map_option snd frame))))"
| "websocket_receive (ItemBinary b # rest) =
     (rest, Err (RProtocol ''binary WebSocket frames are not accepted''))"
| "websocket_receive (ItemFrame # rest) = websocket_receive rest"
| "websocket_receive (ItemError e # rest) = (rest, Err (RTransport e))"


section \<open>Laws\<close>

text \<open>
  What \<open>Url::parse\<close> is documented to return for the text of a base URL of a card: its parts, no user
  information, no query and no fragment, and the host as \<open>host_str\<close> spells it.
\<close>

definition shows_endpoint :: "url \<Rightarrow> string \<Rightarrow> server_card \<Rightarrow> bool" where
  "shows_endpoint u scheme c \<longleftrightarrow>
     url_scheme u = scheme \<and> url_username u = [] \<and> url_password u = None
     \<and> (case url_host_str u of None \<Rightarrow> False | Some h \<Rightarrow> shows_host (sc_host c) h)
     \<and> url_port_or_known_default u = Some (sc_port c) \<and> url_query u = None \<and> url_fragment u = None"

lemma shown_host_iff:
  assumes "card_wf c" "shows_host (sc_host c) h"
  shows "h = sc_host c \<longleftrightarrow> CHR '':'' \<notin> set (sc_host c)"
proof (cases "CHR '':'' \<in> set (sc_host c)")
  case True
  have "normalize_host (sc_host c) = Ok (sc_host c)" using assms(1) by (simp add: card_wf_def)
  then have "list_all host_char (sc_host c)" by (rule normalized_chars)
  moreover have "\<not> host_char CHR ''[''" by code_simp
  moreover have "h = ''['' @ butlast (drop 1 h) @ '']''"
    using assms(2) True bracketed by (simp add: shows_host_def Let_def)
  ultimately show ?thesis
    using True by (metis append_Cons list.pred_inject(2))
next
  case False
  then show ?thesis using assms(2) by (simp add: shows_host_def)
qed

lemma transport_new_parts:
  "reqwest_transport_new tls build c = Ok T \<Longrightarrow>
     tr_expected_scheme T = http_scheme c \<and> tr_expected_host T = sc_host c
     \<and> tr_expected_port T = sc_port c \<and> tr_pin T = sc_fingerprint c"
  by (auto simp: reqwest_transport_new_def res_simps split: option.splits)


definition sample_endpoint :: "string \<Rightarrow> string \<Rightarrow> url" where
  "sample_endpoint scheme path =
     sample_url\<lparr>url_scheme := scheme, url_path := path, url_query := None, url_query_pairs := []\<rparr>"

definition sample_parser :: "string \<Rightarrow> (url, string) result" where
  "sample_parser t =
     Ok (if starts_with t ''wss'' then sample_endpoint ''wss'' ''/api/v0/ws''
         else sample_endpoint ''https'' ''/api/v0/'')"


text \<open>
  A request never leaves the authority of its card, and a refused certificate is reported as
  what it is. A request for another scheme, host or port, or with user information or a fragment, fails
  before the network is used. When the pinned verifier refuses the peer during a request, the error tells
  a key that is not the pinned one, with both fingerprints, from a certificate that fails the checks.
\<close>

theorem transport_reports_pin_failure:
  assumes "reqwest_transport_new tls build c = Ok T" and "sc_fingerprint c = Some expected"
    and "fingerprint_wf expected" and "\<And>bs. length (sha bs) = 32"
    and "verify_server_cert record_latest sha P expected cert mids name now failure = (failure', Err e)"
    and "net request failure = (failure', Err message)"
  shows "snd (send_inner to_str net T request failure) =
    Err (if off_card T (rq_url request)
         then http_error.InvalidUrl ''request URL does not match the server card''
         else case spki_sha256 sha cert of
                None \<Rightarrow> TlsPeerCertificateInvalid
              | Some digest \<Rightarrow>
                  if Fingerprint digest = expected then TlsPeerCertificateInvalid
                  else TlsPinMismatch (fingerprint_to_hex expected) (fingerprint_to_hex (Fingerprint digest)))"
proof (cases "off_card T (rq_url request)")
  case True
  then show ?thesis by (simp add: send_inner_def)
next
  case False
  have pin: "tr_pin T = Some expected" using transport_new_parts [OF assms(1)] assms(2) by simp
  have "failure' = (case spki_sha256 sha cert of
      None \<Rightarrow> Some InvalidCertificate
    | Some digest \<Rightarrow> if Fingerprint digest = expected then Some InvalidCertificate
                     else Some (PinMismatch expected (Fingerprint digest)))"
    using verify_server_cert_cases [OF assms(5,3,4)] by (auto simp: record_latest_def split: option.splits)
  with False pin assms(6) show ?thesis
    by (simp add: send_inner_def map_transport_error_def split: option.splits)
qed


end
