(* ===== verification/PinnedClient.thy ===== *)
theory PinnedClient
  imports Transports
begin

text \<open>
  \<open>pinned_client_config\<close> of \<open>crates/zephyrvox-http/src/tls_pin.rs\<close> and
  \<open>crates/zephyrvox-realtime/src/tls.rs\<close>, the DER functions that the second file repeats, and what the
  configured verifier and the two transports give together: a TLS card is only ever answered by the
  holder of the pinned key. The builder of \<open>rustls\<close> is an argument.
\<close>

section \<open>The pinned configuration\<close>

datatype tls_version = TLS12 | TLS13

text \<open>
  \<open>PinnedServerCertVerifier\<close>: the expected fingerprint; its shared failure cell is the \<open>failure_state\<close>
  of the calls, and the provider of algorithms is inside \<open>pki\<close>.
\<close>

record pinned_verifier =
  pv_expected :: fingerprint

definition pinned_client_config ::
  "(tls_version list \<Rightarrow> pinned_verifier \<Rightarrow> ('cfg, string) result) \<Rightarrow> fingerprint
   \<Rightarrow> ('cfg \<times> failure_state, http_error) result" where
  "pinned_client_config builder expected =
     map_ok (\<lambda>config. (config, None))
       (map_err (\<lambda>e. HTransport (''invalid TLS configuration: '' @ e))
          (builder [TLS13, TLS12] \<lparr>pv_expected = expected\<rparr>))"

definition realtime_pinned_client_config ::
  "(tls_version list \<Rightarrow> pinned_verifier \<Rightarrow> ('cfg, string) result) \<Rightarrow> fingerprint
   \<Rightarrow> ('cfg \<times> failure_state, realtime_error) result" where
  "realtime_pinned_client_config builder expected =
     map_ok (\<lambda>config. (config, None))
       (map_err (\<lambda>e. RTransport (''invalid TLS configuration: '' @ e))
          (builder [TLS13, TLS12] \<lparr>pv_expected = expected\<rparr>))"

text \<open>The realtime crate repeats the two functions of \<open>tls_pin.rs\<close> statement by statement.\<close>

definition realtime_read_tlv :: "bytes \<Rightarrow> nat \<Rightarrow> (u8 \<times> nat \<times> nat \<times> nat) option" where
  "realtime_read_tlv = read_tlv"

definition realtime_spki_sha256 :: "(bytes \<Rightarrow> bytes) \<Rightarrow> bytes \<Rightarrow> bytes option" where
  "realtime_spki_sha256 = spki_sha256"

text \<open>
  The transports of the theory \<open>Transports\<close> take the outcome of the builder without its value. The
  library that builds a configuration decides alone whether it fails.
\<close>

lemma transport_new_uses_config:
  "reqwest_transport_new (\<lambda>f. map_ok (\<lambda>_. ()) (builder [TLS13, TLS12] \<lparr>pv_expected = f\<rparr>)) build c = Ok T \<longleftrightarrow>
     (\<exists>pin. (case sc_fingerprint c of
               None \<Rightarrow> pin = None
             | Some f \<Rightarrow> pin = Some f \<and> is_ok (pinned_client_config builder f))
        \<and> is_ok (build pin)
        \<and> T = \<lparr>tr_expected_scheme = http_scheme c, tr_expected_host = sc_host c,
               tr_expected_port = sc_port c, tr_pin = pin\<rparr>)"
  by (auto simp: reqwest_transport_new_def pinned_client_config_def res_simps split: option.splits)


section \<open>The peer of a TLS card\<close>

record ('n, 't) tls_peer =
  tp_certificate :: bytes
  tp_intermediates :: "bytes list"
  tp_name :: 'n
  tp_now :: 't

text \<open>
  What \<open>rustls\<close> documents of a custom verifier: the handshake of a new connection asks it about the
  certificate that the peer presents, and an error ends the connection attempt. Nothing is said about
  what else may fail.
\<close>

definition asks_verifier ::
  "(tls_verification_failure \<Rightarrow> failure_state \<Rightarrow> failure_state) \<Rightarrow> (bytes \<Rightarrow> bytes)
   \<Rightarrow> ('c, 'n, 'r, 't, 'e) pki \<Rightarrow> fingerprint \<Rightarrow> ('n, 't) tls_peer \<Rightarrow> failure_state
   \<Rightarrow> failure_state \<times> ('a, 'b) result \<Rightarrow> bool" where
  "asks_verifier rec sha P expected p st answer \<longleftrightarrow>
     (case verify_server_cert rec sha P expected (tp_certificate p) (tp_intermediates p) (tp_name p) (tp_now p) st of
        (st', verdict) \<Rightarrow> fst answer = st' \<and> (is_ok (snd answer) \<longrightarrow> verdict = Ok ()))"

definition holds_pinned_key ::
  "(bytes \<Rightarrow> bytes) \<Rightarrow> ('c, 'n, 'r, 't, 'e) pki \<Rightarrow> fingerprint \<Rightarrow> ('n, 't) tls_peer \<Rightarrow> bool" where
  "holds_pinned_key sha P expected p \<longleftrightarrow>
     spki_sha256 sha (tp_certificate p) = Some (fingerprint_as_bytes expected)
     \<and> rustls_checks P (tp_certificate p) (tp_intermediates p) (tp_name p) (tp_now p) = Ok ()"

lemma asks_verifier_cases:
  assumes "asks_verifier rec sha P expected p st answer"
    and "fingerprint_wf expected" and "\<And>bs. length (sha bs) = 32"
  shows "is_ok (snd answer) \<Longrightarrow> holds_pinned_key sha P expected p"
    and "spki_sha256 sha (tp_certificate p) = Some digest \<Longrightarrow> Fingerprint digest \<noteq> expected
      \<Longrightarrow> fst answer = rec (PinMismatch expected (Fingerprint digest)) st \<and> \<not> is_ok (snd answer)"
proof -
  obtain st' verdict where v: "verify_server_cert rec sha P expected (tp_certificate p) (tp_intermediates p)
      (tp_name p) (tp_now p) st = (st', verdict)"
    by fastforce
  note c = verify_server_cert_cases [OF v assms(2,3)]
  have a: "fst answer = st'" "is_ok (snd answer) \<longrightarrow> verdict = Ok ()"
    using assms(1) v by (simp_all add: asks_verifier_def)
  show "is_ok (snd answer) \<Longrightarrow> holds_pinned_key sha P expected p"
    using a c by (simp add: holds_pinned_key_def)
  show "spki_sha256 sha (tp_certificate p) = Some digest \<Longrightarrow> Fingerprint digest \<noteq> expected
      \<Longrightarrow> fst answer = rec (PinMismatch expected (Fingerprint digest)) st \<and> \<not> is_ok (snd answer)"
    using a c by (metis fingerprint.exhaust fingerprint_as_bytes.simps option.inject)
qed

lemma send_inner_Ok:
  "send_inner to_str net T request st = (st', Ok response) \<Longrightarrow>
     \<not> off_card T (rq_url request) \<and> is_ok (snd (net request st))"
  by (auto simp: send_inner_def is_ok_iff split: if_splits prod.splits result.splits)

lemma dialled_Ok:
  "(case d of (_, Ok s) \<Rightarrow> Ok s
    | (failure, Err e) \<Rightarrow>
        (case failure of Some f \<Rightarrow> Err (g f) | None \<Rightarrow> Err (k e))) = Ok stream \<Longrightarrow> is_ok (snd d)"
  "(case d of (_, Ok s) \<Rightarrow> Ok s | (failure, Err e) \<Rightarrow> Err (k e)) = Ok stream \<Longrightarrow> is_ok (snd d)"
  by (auto split: prod.splits result.splits option.splits)

lemma websocket_connect_Ok:
  assumes "websocket_connect N c u token = Ok stream"
  shows "url_matches_card u c \<and> (\<exists>q h. is_ok (snd (wn_dial N q h (sc_fingerprint c) MAXIMUM_MESSAGE)))"
proof
  show "url_matches_card u c" using assms by (auto simp: websocket_connect_def split: if_splits)
  show "\<exists>q h. is_ok (snd (wn_dial N q h (sc_fingerprint c) MAXIMUM_MESSAGE))"
    using assms by (cases "sc_fingerprint c")
      (auto simp: websocket_connect_def res_simps split: if_splits dest!: dialled_Ok, blast+)
qed


definition named_card :: server_card where
  "named_card = sample_card\<lparr>sc_host := ''vox.example''\<rparr>"

definition trusting_pki :: "(unit, unit, unit, unit, unit) pki" where
  "trusting_pki = \<lparr>pk_parse = \<lambda>_. Ok (), pk_name = \<lambda>_ _. Ok (), pk_root = \<lambda>_. Ok (), pk_chain = \<lambda>_ _ _ _. Ok ()\<rparr>"

text \<open>A certificate whose key hashes to 32 bytes 7.\<close>

definition other_peer :: "(unit, unit) tls_peer" where
  "other_peer = \<lparr>tp_certificate = [48, 14, 48, 12, 2, 0, 2, 0, 2, 0, 2, 0, 2, 0, 48, 0],
     tp_intermediates = [], tp_name = (), tp_now = ()\<rparr>"

definition refused :: failure_state where
  "refused = Some (PinMismatch (Fingerprint (replicate 32 171)) (Fingerprint (replicate 32 7)))"

definition named_request :: "url http_request" where
  "named_request = http_request_new Get (sample_endpoint ''https'' ''/api/v0/''\<lparr>url_host_str := Some ''vox.example''\<rparr>)"


end
