(* ===== verification/Discovery.thy ===== *)
theory Discovery
  imports HttpClient VoiceConfig
begin

text \<open>
  \<open>crates/zephyrvox-http/src\<close>: \<open>discovery.rs\<close> (metadata and the state snapshot) and
  \<open>channels/voice.rs\<close> (joining and leaving a voice channel). What the server sends is checked here
  before the voice client may use it; decoding base64 is the argument \<open>b64\<close>.
\<close>

section \<open>Metadata\<close>

definition valid_metadata_text :: "string \<Rightarrow> bool" where
  "valid_metadata_text v \<longleftrightarrow>
     v \<noteq> [] \<and> v = trim v \<and> list_all (\<lambda>c. \<not> (code c < 32 \<or> code c = 127)) v"

definition valid_host_label :: "string \<Rightarrow> bool" where
  "valid_host_label l \<longleftrightarrow>
     l \<noteq> [] \<and> length l \<le> 63 \<and> \<not> starts_with l ''-'' \<and> \<not> ends_with l ''-''
     \<and> list_all (\<lambda>c. is_ascii_alphanumeric c \<or> c = CHR ''-'') l"

definition valid_metadata_host :: "string \<Rightarrow> bool" where
  "valid_metadata_host host =
     (if trim host \<noteq> host \<or> trim host = [] \<or> length (trim host) > 253 then False
      else (case parse_ip_addr host of
              Some a \<Rightarrow> \<not> is_unspecified a
            | None \<Rightarrow>
                if starts_with host ''.'' \<or> ends_with host ''.'' \<or> contains_str host ''..''
                   \<or> starts_with host ''['' \<or> ends_with host '']''
                then False
                else list_all valid_host_label (split_on CHR ''.'' host)))"

text \<open>
  The loops with a \<open>HashSet\<close>: \<open>insert\<close> returns false on a repeated element, and is only reached when
  the tests before it pass.
\<close>

fun all_fresh :: "('a \<Rightarrow> bool) \<Rightarrow> ('a \<Rightarrow> 'k) \<Rightarrow> 'k set \<Rightarrow> 'a list \<Rightarrow> bool" where
  "all_fresh bad key seen [] = True"
| "all_fresh bad key seen (x # xs) =
     (if bad x \<or> key x \<in> seen then False else all_fresh bad key (insert (key x) seen) xs)"

definition bad_codec :: "codec_capability \<Rightarrow> bool" where
  "bad_codec c \<longleftrightarrow>
     \<not> valid_metadata_text (cc_name c) \<or> cc_clock_rate c = 0 \<or> cc_channels c = 0
     \<or> cc_ptime c = [] \<or> List.member (cc_ptime c) 0"

definition bad_stream :: "voice_stream_type \<Rightarrow> bool" where
  "bad_stream s \<longleftrightarrow>
     is_heartbeat (vs_id s) \<or> \<not> valid_metadata_text (vs_name s) \<or> \<not> valid_metadata_text (vs_mute_kind s)"

definition validate_metadata :: "metadata \<Rightarrow> (unit, http_error) result" where
  "validate_metadata m =
     (if \<not> valid_metadata_host (ve_host (md_voice_endpoint m)) \<or> ve_port (md_voice_endpoint m) = 0
      then Err (HWire ''metadata contains an invalid voice endpoint'')
      else if md_codecs m = [] then Err (HWire ''metadata must advertise at least one codec'')
      else if list_ex (\<lambda>f. \<not> valid_metadata_text f) (md_features m)
      then Err (HWire ''metadata contains an invalid feature name'')
      else if \<not> all_fresh bad_codec (\<lambda>c. to_ascii_lowercase (cc_name c)) {} (md_codecs m)
      then Err (HWire ''metadata contains an invalid or duplicate codec'')
      else if md_voice_stream_types m = []
      then Err (HWire ''metadata must advertise at least one voice stream type'')
      else if \<not> all_fresh bad_stream (\<lambda>s. stream_type_get (vs_id s)) {} (md_voice_stream_types m)
      then Err (HWire ''metadata contains an invalid or duplicate voice stream type'')
      else Ok ())"

definition metadata_response ::
  "('u, 's, 'v) http_env \<Rightarrow> ('v \<Rightarrow> (metadata, string) result) \<Rightarrow> ('u, 's) call_state
   \<Rightarrow> ('u, 's) call_state \<times> (metadata api_response, http_error) result" where
  "metadata_response E dec w =
     try_then (w, empty_request (he_join E) Get ''metadata'' request_options_new) (\<lambda>request w1.
     try_then (send_json E dec request NoAuth w1) (\<lambda>response w2.
       (w2, if md_protocol_version (ar_data response) \<noteq> ucast PROTOCOL_VERSION
            then Err (ProtocolVersionMismatch (ucast PROTOCOL_VERSION) (md_protocol_version (ar_data response)))
            else map_ok (\<lambda>_. response) (validate_metadata (ar_data response)))))"

definition snapshot_response ::
  "('u, 's, 'v) http_env \<Rightarrow> ('v \<Rightarrow> (state_snapshot, string) result) \<Rightarrow> ('u, 's) call_state
   \<Rightarrow> ('u, 's) call_state \<times> (state_snapshot api_response, http_error) result" where
  "snapshot_response E dec w =
     try_then (w, empty_request (he_join E) Get ''state/snapshot'' request_options_new) (\<lambda>request w1.
       send_json E dec request (AccessTokenAuth True) w1)"


section \<open>Voice channels\<close>

record voice_join_request =
  vj_device_id :: "string option"
  vj_force_new :: bool
  vj_expected_voice_session_id :: "voice_session_id option"

record voice_negotiation =
  vn_created :: bool
  vn_session_id :: voice_session_id
  vn_key :: "string option"
  vn_encrypted :: bool
  vn_warning :: "string option"
  vn_max_payload :: nat
  vn_protocol_version :: u16
  vn_expires_at :: int

record voice_join_response =
  jr_channel :: channel
  jr_members :: "voice_membership list"
  jr_voice :: voice_negotiation
  jr_state_cursor :: cursor
  jr_state_checkpoint :: checkpoint

definition validate_voice_join ::
  "(string \<Rightarrow> bytes option) \<Rightarrow> snowflake \<Rightarrow> voice_join_response \<Rightarrow> bool \<Rightarrow> (unit, http_error) result" where
  "validate_voice_join b64 requested r tls_card =
     (let v = jr_voice r; expected = ucast PROTOCOL_VERSION
      in if ch_id (jr_channel r) \<noteq> requested
         then Err (HWire ''voice join response channel does not match the requested channel'')
         else if ch_mode (jr_channel r) \<noteq> ''voice''
         then Err (HWire ''voice join response does not contain a voice channel'')
         else if vn_protocol_version v \<noteq> expected
         then Err (ProtocolVersionMismatch expected (vn_protocol_version v))
         else if tls_card \<and> \<not> vn_encrypted v
         then Err (HWire ''plaintext voice sessions are not allowed for TLS server cards'')
         else if vn_max_payload v = 0 \<or> vn_max_payload v > max_payload (vn_encrypted v)
         then Err (HWire ''voice join response exceeds the protocol payload limit'')
         else if vn_expires_at v \<le> 0
         then Err (HWire ''voice join response has an invalid session expiry'')
         else if list_ex (\<lambda>m. vm_channel_id m \<noteq> requested) (jr_members r)
         then Err (HWire ''voice join response contains a member from another channel'')
         else if vn_encrypted v \<and> vn_created v
                 \<and> \<not> (case vn_key v of
                        Some key \<Rightarrow> (case b64 key of Some bs \<Rightarrow> length bs = 32 | None \<Rightarrow> False)
                      | None \<Rightarrow> False)
         then Err (HWire ''new encrypted voice sessions must include a 32-byte base64 session key'')
         else if vn_encrypted v \<and> \<not> vn_created v \<and> vn_key v \<noteq> None
         then Err (HWire ''reused encrypted voice sessions must not include a session key'')
         else if \<not> vn_encrypted v \<and> vn_key v \<noteq> None
         then Err (HWire ''plaintext voice sessions must not include a session key'')
         else Ok ())"

text \<open>\<open>ser\<close> serialises the request body, \<open>tls_card\<close> is the scheme of the client's server card.\<close>

definition http_join_voice ::
  "('u, 's, 'v) http_env \<Rightarrow> (string \<Rightarrow> bytes option) \<Rightarrow> bool \<Rightarrow> (voice_join_request \<Rightarrow> (bytes, string) result)
   \<Rightarrow> ('v \<Rightarrow> (voice_join_response, string) result) \<Rightarrow> nat \<Rightarrow> snowflake \<Rightarrow> voice_join_request
   \<Rightarrow> request_options \<Rightarrow> ('u, 's) call_state
   \<Rightarrow> (('u, 's) call_state \<times> (voice_join_response api_response, http_error) result) option" where
  "http_join_voice E b64 tls_card ser dec now channel_id input opts w =
     (if \<not> has_control_connection opts then Some (w, Err MissingControlConnection)
      else with_ensured now opts w (\<lambda>opts' w1.
        try_then (w1, json_request (he_join E) Post
                        (''channels/'' @ snowflake_to_string channel_id @ ''/join'') (ser input) opts')
          (\<lambda>request w2.
        try_then (send_json E dec request (AccessTokenAuth True) w2) (\<lambda>response w3.
          (w3, map_ok (\<lambda>_. response) (validate_voice_join b64 channel_id (ar_data response) tls_card))))))"

definition http_leave_voice ::
  "('u, 's, 'v) http_env \<Rightarrow> (voice_session_id \<Rightarrow> (bytes, string) result) \<Rightarrow> nat \<Rightarrow> voice_session_id
   \<Rightarrow> request_options \<Rightarrow> ('u, 's) call_state
   \<Rightarrow> (('u, 's) call_state \<times> (unit api_response, http_error) result) option" where
  "http_leave_voice E ser now voice_session_id opts w =
     (if \<not> has_control_connection opts then Some (w, Err MissingControlConnection)
      else with_ensured now opts w (\<lambda>opts' w1.
        try_then (w1, json_request (he_join E) Post ''channels/current/leave'' (ser voice_session_id) opts')
          (\<lambda>request w2. send_no_content E request (AccessTokenAuth True) w2)))"


section \<open>What validation guarantees\<close>

lemma all_fresh_iff:
  "all_fresh bad key seen xs \<longleftrightarrow>
     (\<forall>x \<in> set xs. \<not> bad x) \<and> distinct (map key xs) \<and> key ` set xs \<inter> seen = {}"
  by (induction bad key seen xs rule: all_fresh.induct) auto


lemma validate_metadata_Ok_iff:
  "validate_metadata m = Ok u \<longleftrightarrow>
     valid_metadata_host (ve_host (md_voice_endpoint m)) \<and> ve_port (md_voice_endpoint m) \<noteq> 0
     \<and> (\<forall>f \<in> set (md_features m). valid_metadata_text f)
     \<and> md_codecs m \<noteq> [] \<and> (\<forall>c \<in> set (md_codecs m). \<not> bad_codec c)
     \<and> distinct (map (\<lambda>c. to_ascii_lowercase (cc_name c)) (md_codecs m))
     \<and> md_voice_stream_types m \<noteq> [] \<and> (\<forall>s \<in> set (md_voice_stream_types m). \<not> bad_stream s)
     \<and> distinct (map (\<lambda>s. stream_type_get (vs_id s)) (md_voice_stream_types m))"
proof -
  have feats: "list_ex (\<lambda>f. \<not> valid_metadata_text f) (md_features m) \<longleftrightarrow>
      \<not> (\<forall>f \<in> set (md_features m). valid_metadata_text f)"
    by (auto simp: list_ex_iff)
  show ?thesis
    unfolding validate_metadata_def all_fresh_iff feats by (simp split: if_splits)
qed

lemma validate_voice_join_Ok_iff:
  "validate_voice_join b64 requested r tls = Ok u \<longleftrightarrow>
     ch_id (jr_channel r) = requested \<and> ch_mode (jr_channel r) = ''voice''
     \<and> vn_protocol_version (jr_voice r) = ucast PROTOCOL_VERSION
     \<and> (tls \<longrightarrow> vn_encrypted (jr_voice r))
     \<and> 0 < vn_max_payload (jr_voice r)
     \<and> vn_max_payload (jr_voice r) \<le> max_payload (vn_encrypted (jr_voice r))
     \<and> 0 < vn_expires_at (jr_voice r)
     \<and> (\<forall>m \<in> set (jr_members r). vm_channel_id m = requested)
     \<and> (if vn_encrypted (jr_voice r) \<and> vn_created (jr_voice r)
        then \<exists>key bs. vn_key (jr_voice r) = Some key \<and> b64 key = Some bs \<and> length bs = 32
        else vn_key (jr_voice r) = None)"
proof -
  have members: "list_ex (\<lambda>m. vm_channel_id m \<noteq> requested) (jr_members r) \<longleftrightarrow>
      \<not> (\<forall>m \<in> set (jr_members r). vm_channel_id m = requested)"
    by (auto simp: list_ex_iff)
  show ?thesis
    unfolding validate_voice_join_def Let_def members
    by (cases "vn_key (jr_voice r)"; cases "b64 (the (vn_key (jr_voice r)))") (auto simp: not_le)
qed

text \<open>A host that metadata may advertise is one the voice configuration accepts.\<close>

lemma metadata_endpoint_accepted:
  assumes "valid_metadata_host (ve_host e)" "ve_port e \<noteq> 0"
  shows "validate_endpoint e = Ok ()"
  using assms
  by (auto simp: valid_metadata_host_def validate_endpoint_def split: if_splits option.splits)

end
