(* ===== verification/Negotiation.thy ===== *)
theory Negotiation
  imports Discovery ServerCard RealtimeConfig RealtimeTypes
begin

text \<open>
  The functional parts of \<open>crates/zephyrvox-sdk/src\<close>: \<open>errors.rs\<close>, \<open>config.rs\<close>, the PCM frame of
  \<open>adapters.rs\<close>, the provider of \<open>provider.rs\<close>, the event types of \<open>events.rs\<close> and, from
  \<open>voice_api.rs\<close>, the way from a join response to the configuration of a voice session. Base64 is the
  argument \<open>b64\<close>, the \<open>Display\<close> text of an HTTP error the argument \<open>show_http\<close>.
\<close>

section \<open>Errors and configuration\<close>

datatype sdk_error =
    SHttp http_error
  | SRealtime realtime_error
  | SVoice voice_error
  | SCredentials credential_store_error
  | SServerCard server_card_error
  | SIdentifier id_error
  | SConfiguration string
  | NotConnected
  | ControlNotLive
  | VoiceControlUnavailable
  | CodecUnavailable
  | VoiceNegotiation string
  | SClosed

definition channel_mismatch :: "snowflake \<Rightarrow> sdk_error" where
  "channel_mismatch channel_id =
     VoiceNegotiation (''join response does not match channel '' @ snowflake_to_string channel_id)"

text \<open>Durations are in nanoseconds; the credential store is a type parameter.\<close>

record 's client_config =
  cf_server_card :: server_card
  cf_request_timeout :: nat
  cf_reconnect :: reconnect_policy
  cf_credential_store :: 's
  cf_auto_rejoin_voice :: bool

definition client_config_new :: "'s \<Rightarrow> server_card \<Rightarrow> 's client_config" where
  "client_config_new memory c =
     \<lparr>cf_server_card = c, cf_request_timeout = from_secs 15, cf_reconnect = default_policy,
      cf_credential_store = memory, cf_auto_rejoin_voice = False\<rparr>"

definition with_request_timeout :: "nat \<Rightarrow> 's client_config \<Rightarrow> ('s client_config, sdk_error) result" where
  "with_request_timeout t c =
     (if t = 0 then Err (SConfiguration ''request timeout must be non-zero'')
      else Ok (c\<lparr>cf_request_timeout := t\<rparr>))"

definition client_config_validate :: "'s client_config \<Rightarrow> (unit, sdk_error) result" where
  "client_config_validate c =
     (if cf_request_timeout c = 0 then Err (SConfiguration ''request timeout must be non-zero'') else Ok ())"

text \<open>The check of \<open>Client::with_api_client\<close>; \<open>api_card\<close> is the card of the injected HTTP client.\<close>

definition with_api_client_check :: "'s client_config \<Rightarrow> server_card \<Rightarrow> (unit, sdk_error) result" where
  "with_api_client_check c api_card =
     and_then (client_config_validate c) (\<lambda>_.
       if api_card \<noteq> cf_server_card c
       then Err (SConfiguration ''facade and HTTP client use different server cards'')
       else Ok ())"


section \<open>Media frames\<close>

datatype media_error =
    MediaClosed | UnsupportedCodec string | InvalidFrame string | AdapterFailed string

record pcm_frame =
  pf_stream_type :: stream_type_id
  pf_sample_rate :: "32 word"
  pf_channels :: u8
  pf_samples :: "16 word list"

definition pcm_frame_new ::
  "stream_type_id \<Rightarrow> 32 word \<Rightarrow> u8 \<Rightarrow> 16 word list \<Rightarrow> (pcm_frame, media_error) result" where
  "pcm_frame_new stream_type sample_rate channels samples =
     (if sample_rate = 0 then Err (InvalidFrame ''PCM sample rate must be positive'')
      else if channels = 0 then Err (InvalidFrame ''PCM channel count must be positive'')
      else if length samples mod unat channels \<noteq> 0
      then Err (InvalidFrame ''PCM samples must be interleaved by complete channels'')
      else Ok \<lparr>pf_stream_type = stream_type, pf_sample_rate = sample_rate, pf_channels = channels,
               pf_samples = samples\<rparr>)"


section \<open>The snapshot provider\<close>

fun map_http_error :: "(http_error \<Rightarrow> string) \<Rightarrow> http_error \<Rightarrow> realtime_error" where
  "map_http_error show_http AuthenticationRequired = RAuthenticationRequired"
| "map_http_error show_http AuthExpired = RAuthenticationExpired"
| "map_http_error show_http HClosed = RClosed"
| "map_http_error show_http (TlsPinMismatch expected actual) = RTlsPinMismatch expected actual"
| "map_http_error show_http TlsPeerCertificateInvalid = RTlsCertificateInvalid"
| "map_http_error show_http TlsPeerCertificateUnavailable = RTlsCertificateInvalid"
| "map_http_error show_http (ProtocolVersionMismatch expected actual) =
     RProvider (''protocol version mismatch: expected '' @ format_dec (unat expected) @ '', got ''
                @ format_dec (unat actual))"
| "map_http_error show_http e = RProvider (show_http e)"

definition provider_snapshot ::
  "(http_error \<Rightarrow> string) \<Rightarrow> (state_snapshot, http_error) result \<Rightarrow> (state_snapshot, realtime_error) result" where
  "provider_snapshot show_http r = map_err (map_http_error show_http) r"

definition provider_access_token ::
  "(http_error \<Rightarrow> string) \<Rightarrow> (token_pair option, http_error) result \<Rightarrow> (access_token, realtime_error) result" where
  "provider_access_token show_http loaded =
     and_then (map_err (map_http_error show_http) loaded) (\<lambda>tokens.
     and_then (ok_or tokens RAuthenticationRequired) (\<lambda>t.
     map_err (\<lambda>_. RProvider ''credential store returned an invalid access token'')
       (access_token_new (http_access_token_as_str (tp_access_token t)))))"


section \<open>Facade events\<close>

datatype voice_event = VoiceJoined snowflake voice_session_id | VoiceAuthorityLost voice_authority

datatype 'v sdk_event =
    SConnection connection_status
  | SReady control_connection_id int
  | SSyncRequired string
  | SState "'v state_event"
  | SVoiceEvent voice_event
  | SDisconnected string
  | SUnknown "'v unknown_frame"
  | SError string

fun sdk_event_from :: "'v client_event \<Rightarrow> 'v sdk_event" where
  "sdk_event_from (StatusChanged status) = SConnection status"
| "sdk_event_from (EReady i expires) = SReady i expires"
| "sdk_event_from (ESyncRequired reason) = SSyncRequired reason"
| "sdk_event_from (EState e) = SState e"
| "sdk_event_from (VoiceLost authority) = SVoiceEvent (VoiceAuthorityLost authority)"
| "sdk_event_from (EDisconnected reason) = SDisconnected reason"
| "sdk_event_from (EUnknown f) = SUnknown f"

text \<open>The three \<open>matches!\<close> of the relay.\<close>

fun stops_voice :: "'v client_event \<Rightarrow> bool" where
  "stops_voice (VoiceLost _) = True"
| "stops_voice (EDisconnected _) = True"
| "stops_voice (StatusChanged s) = (s = CReconnecting \<or> s = CClosed)"
| "stops_voice _ = False"

fun clears_intent :: "'v client_event \<Rightarrow> bool" where
  "clears_intent (VoiceLost _) = True"
| "clears_intent (StatusChanged s) = (s = CClosed)"
| "clears_intent _ = False"

fun rejoins_voice :: "'v client_event \<Rightarrow> bool" where
  "rejoins_voice (StatusChanged s) = (s = CLive)"
| "rejoins_voice _ = False"


section \<open>From a join response to a voice session\<close>

fun decode_session_key ::
  "(string \<Rightarrow> bytes option) \<Rightarrow> bool \<Rightarrow> bool \<Rightarrow> string option \<Rightarrow> (session_key option, sdk_error) result" where
  "decode_session_key b64 False created None = Ok None"
| "decode_session_key b64 False created (Some key) =
     Err (VoiceNegotiation ''plaintext voice negotiation included a session key'')"
| "decode_session_key b64 True True (Some key) =
     (case b64 key of
        None \<Rightarrow> Err (VoiceNegotiation ''voice session key is not valid base64'')
      | Some bs \<Rightarrow> map_ok Some (map_err SVoice (session_key_from_slice bs)))"
| "decode_session_key b64 True True None =
     Err (VoiceNegotiation ''new encrypted voice negotiation omitted its session key'')"
| "decode_session_key b64 True False None = Ok None"
| "decode_session_key b64 True False (Some key) =
     Err (VoiceNegotiation ''reused encrypted voice negotiation included a session key'')"

definition first_codec :: "metadata \<Rightarrow> (codec_capability, sdk_error) result" where
  "first_codec m = (case md_codecs m of [] \<Rightarrow> Err CodecUnavailable | c # _ \<Rightarrow> Ok c)"

text \<open>\<open>join_voice\<close> from the response to the configuration of the UDP session.\<close>

definition negotiated_config ::
  "(string \<Rightarrow> bytes option) \<Rightarrow> metadata \<Rightarrow> snowflake \<Rightarrow> voice_join_response
   \<Rightarrow> (voice_session_config, sdk_error) result" where
  "negotiated_config b64 m channel_id r =
     (let v = jr_voice r
      in if ch_id (jr_channel r) \<noteq> channel_id then Err (channel_mismatch channel_id)
         else and_then (decode_session_key b64 (vn_encrypted v) (vn_created v) (vn_key v)) (\<lambda>key.
              and_then (map_err SVoice
                (new_with_protocol_version (md_voice_endpoint m) (vn_session_id v) (vn_protocol_version v)
                   (vn_encrypted v) (vn_max_payload v) (vn_expires_at v) key)) (\<lambda>config.
              map_err SVoice (with_stream_types config (map vs_id (md_voice_stream_types m))))))"

definition cached_reuse_key :: "key_cache \<Rightarrow> voice_negotiation \<Rightarrow> session_key option" where
  "cached_reuse_key cache v =
     (if vn_encrypted v \<and> \<not> vn_created v \<and> vn_key v = None then cache_get cache (vn_session_id v) else None)"


section \<open>Validated responses are accepted\<close>

lemma stream_types_accepted:
  assumes "ts \<noteq> []" "\<forall>t \<in> set ts. \<not> is_heartbeat t"
  shows "\<exists>cfg'. with_stream_types cfg ts = Ok cfg'"
proof -
  have "sort_key (\<lambda>s. unat (stream_type_get s)) ts \<noteq> []" using assms(1) by (metis set_empty set_sort)
  then show ?thesis using assms(2) by (auto simp: with_stream_types_def Let_def list_ex_iff)
qed

lemma decoded_key:
  assumes "validate_voice_join b64 ch r tls = Ok ()"
  shows "\<exists>key. decode_session_key b64 (vn_encrypted (jr_voice r)) (vn_created (jr_voice r)) (vn_key (jr_voice r)) = Ok key
    \<and> (key \<noteq> None \<longleftrightarrow> vn_encrypted (jr_voice r) \<and> vn_created (jr_voice r))"
  using assms unfolding validate_voice_join_Ok_iff
  by (cases "vn_encrypted (jr_voice r)"; cases "vn_created (jr_voice r)")
     (auto simp: session_key_from_slice_def)

lemma config_from_validated:
  assumes m: "validate_metadata m = Ok ()" and r: "validate_voice_join b64 ch r tls = Ok ()"
  shows "\<exists>cfg. negotiated_config b64 m ch r = Ok cfg \<and> voice_config_wf cfg
    \<and> vc_endpoint cfg = md_voice_endpoint m \<and> vc_session_id cfg = vn_session_id (jr_voice r)
    \<and> vc_encrypted cfg = vn_encrypted (jr_voice r)
    \<and> (vc_session_key cfg \<noteq> None \<longleftrightarrow> vn_encrypted (jr_voice r) \<and> vn_created (jr_voice r))"
proof -
  let ?v = "jr_voice r"
  obtain key where key: "decode_session_key b64 (vn_encrypted ?v) (vn_created ?v) (vn_key ?v) = Ok key"
      "key \<noteq> None \<longleftrightarrow> vn_encrypted ?v \<and> vn_created ?v"
    using decoded_key [OF r] by blast
  have "validate_endpoint (md_voice_endpoint m) = Ok ()"
    using m metadata_endpoint_accepted by (simp add: validate_metadata_Ok_iff)
  then obtain c0 where c0: "new_with_protocol_version (md_voice_endpoint m) (vn_session_id ?v)
      (vn_protocol_version ?v) (vn_encrypted ?v) (vn_max_payload ?v) (vn_expires_at ?v) key = Ok c0"
    using r key(2) by (auto simp: new_with_protocol_version_def validate_voice_join_Ok_iff Let_def)
  obtain cfg where cfg: "with_stream_types c0 (map vs_id (md_voice_stream_types m)) = Ok cfg"
    using m stream_types_accepted [of "map vs_id (md_voice_stream_types m)" c0]
    by (auto simp: validate_metadata_Ok_iff bad_stream_def)
  have "negotiated_config b64 m ch r = Ok cfg"
    using r key(1) c0 cfg by (simp add: negotiated_config_def validate_voice_join_Ok_iff)
  moreover have "voice_config_wf cfg"
    by (rule with_stream_types_wf [OF conjunct1 [OF new_with_protocol_version_wf [OF c0]] cfg])
  moreover have "vc_endpoint cfg = md_voice_endpoint m" "vc_session_id cfg = vn_session_id ?v"
      "vc_encrypted cfg = vn_encrypted ?v" "vc_session_key cfg = key"
    using cfg c0
    by (auto simp: with_stream_types_def new_with_protocol_version_def Let_def res_simps split: if_splits)
  ultimately show ?thesis using key(2) by blast
qed

text \<open>
  Claim C15. What the HTTP layer validates, the voice layer accepts: for metadata and a join response that
  pass their validations, the facade always obtains a valid configuration for the voice session, with the
  advertised endpoint and the negotiated session. Behind a TLS card that session is encrypted, and it
  carries an inline key exactly when the server created it.
\<close>

theorem validated_join_is_usable:
  assumes "validate_metadata m = Ok ()" and "validate_voice_join b64 ch r (is_tls (sc_scheme scard)) = Ok ()"
  shows "\<exists>cfg. negotiated_config b64 m ch r = Ok cfg \<and> voice_config_wf cfg
    \<and> vc_endpoint cfg = md_voice_endpoint m \<and> vc_session_id cfg = vn_session_id (jr_voice r)
    \<and> (is_tls (sc_scheme scard) \<longrightarrow> vc_encrypted cfg)
    \<and> (vc_session_key cfg \<noteq> None \<longleftrightarrow> vn_encrypted (jr_voice r) \<and> vn_created (jr_voice r))"
  using config_from_validated [OF assms] assms(2) by (auto simp: validate_voice_join_Ok_iff)


definition sample_metadata :: metadata where
  "sample_metadata = \<lparr>md_protocol_version = 1,
     md_voice_endpoint = \<lparr>ve_host = ''voice.example.org'', ve_port = 4000\<rparr>,
     md_codecs = [\<lparr>cc_name = ''opus'', cc_clock_rate = 48000, cc_channels = 2, cc_ptime = [20]\<rparr>],
     md_voice_stream_types = [\<lparr>vs_id = StreamTypeId 1, vs_name = ''audio'', vs_mute_kind = ''mic''\<rparr>],
     md_features = []\<rparr>"

text \<open>A join of channel 7 in which the server creates an encrypted session.\<close>

definition sample_join :: voice_join_response where
  "sample_join = \<lparr>jr_channel = \<lparr>ch_id = Snowflake 7, ch_group_id = None, ch_name = ''lobby'', ch_mode = ''voice'',
       ch_temporary = False, ch_visibility = ''public'', ch_capacity = 0, ch_position = 0,
       ch_pinned = False, ch_version = ''1''\<rparr>,
     jr_members = [],
     jr_voice = \<lparr>vn_created = True, vn_session_id = FixedId (replicate 15 0 @ [1]), vn_key = Some ''key'',
       vn_encrypted = True, vn_warning = None, vn_max_payload = 100, vn_protocol_version = 1,
       vn_expires_at = 1000\<rparr>,
     jr_state_cursor = Cursor ''c'',
     jr_state_checkpoint = \<lparr>cp_stream_epoch = FixedId (replicate 15 0 @ [1]), cp_geid = Geid 1\<rparr>\<rparr>"

definition sample_b64 :: "string \<Rightarrow> bytes option" where
  "sample_b64 s = Some (replicate 32 5)"

lemma sample_metadata_valid: "validate_metadata sample_metadata = Ok ()"
proof -
  have "valid_metadata_host ''voice.example.org''" "\<not> bad_codec (hd (md_codecs sample_metadata))"
    "\<not> bad_stream (hd (md_voice_stream_types sample_metadata))"
    by code_simp+
  then show ?thesis by (simp add: validate_metadata_Ok_iff sample_metadata_def)
qed

lemma sample_join_valid: "validate_voice_join sample_b64 (Snowflake 7) sample_join tls = Ok ()"
  by (simp add: validate_voice_join_Ok_iff sample_join_def sample_b64_def PROTOCOL_VERSION_def
      max_payload_def size_defs)

theorem validated_join_is_usable_witness:
  "\<exists>cfg. negotiated_config sample_b64 sample_metadata (Snowflake 7) sample_join = Ok cfg
     \<and> vc_encrypted cfg \<and> vc_session_key cfg \<noteq> None"
  using validated_join_is_usable [where scard = sample_card, OF sample_metadata_valid sample_join_valid]
  by (auto simp: sample_join_def sample_card_def is_tls_def)

end
