(* ===== verification/Facade.thy ===== *)
theory Facade
  imports Negotiation VoiceSession
begin

text \<open>
  The client of \<open>crates/zephyrvox-sdk/src\<close> as a state machine: \<open>client.rs\<close>, \<open>lifecycle.rs\<close>,
  \<open>voice_api.rs\<close>, \<open>voice.rs\<close> and the relay of \<open>events.rs\<close>. The state is the shared \<open>ClientInner\<close> with
  its handles; a call is a task with a program counter. A step is the code between two points where the
  task waits or another thread may run: the locks, the network, the loads of shared flags. What the
  network and the other crates return is the label of the step.
\<close>

section \<open>State\<close>

text \<open>Control handles and voice handles are shared by clones; they are indexes into two lists.\<close>

record control_view =
  cv_status :: connection_status
  cv_id :: "control_connection_id option"

record voice_handle =
  vh_channel_id :: snowflake
  vh_codec :: codec_capability
  vh_session_id :: voice_session_id
  vh_control :: nat
  vh_generation :: u64
  vh_open :: bool
  vh_left :: bool
  vh_teardown :: "nat option"

record voice_intent =
  vi_channel_id :: snowflake
  vi_request :: voice_join_request
  vi_session_id :: voice_session_id

record join_call =
  jc_channel_id :: snowflake
  jc_request :: voice_join_request

datatype call_result =
    ConnectResult "(nat, sdk_error) result"
  | JoinResult "(nat, sdk_error) result"
  | LeaveResult "(unit, sdk_error) result"
  | CloseResult "(unit, sdk_error) result"
  | ShutdownResult "(unit, sdk_error) result"
  | Aborted

text \<open>
  Where a call is. \<open>Inactive\<close> is a task that has not run, \<open>Returned\<close> one that has; the flag of the
  leave states says whether the call came through \<open>leave_voice\<close>, which holds the voice gate.
\<close>

datatype pc =
    Inactive
  | Returned call_result
  | ConnectLock
  | ConnectDial
  | ConnectAbort nat
  | ConnectSpawn nat nat
  | JoinGate join_call
  | JoinControl join_call
  | JoinLock join_call
  | JoinDiscover join_call nat
  | JoinMetadata join_call nat
  | JoinHttp join_call nat metadata codec_capability control_connection_id u64
  | JoinUdp join_call nat codec_capability control_connection_id u64 voice_session_config "session_key option"
  | JoinAbort nat
  | JoinInstall join_call nat "session_key option"
  | JoinClosePrevious join_call nat "session_key option" nat
  | JoinFinish join_call nat "session_key option"
  | LeaveGate
  | LeaveClose bool nat
  | LeaveHttp bool nat "(unit, voice_error) result"
  | HandleClose nat
  | StopGate u64
  | StopClose nat
  | ShutGate
  | ShutVoice
  | ShutClose nat
  | ShutControl "sdk_error option"
  | ShutCloseControl nat "sdk_error option"
  | ShutClear "sdk_error option"
  | ShutTasks "sdk_error option"
  | RelayWait
  | RelayRejoin

record 'v facade =
  fc_stopped :: bool
  fc_generation :: u64
  fc_metadata :: "metadata option"
  fc_state_installed :: bool
  fc_control :: "nat option"
  fc_controls :: "control_view list"
  fc_voice :: "nat option"
  fc_sessions :: "voice_handle list"
  fc_intent :: "voice_intent option"
  fc_keys :: key_cache
  fc_tasks :: "nat list"
  fc_events :: "'v sdk_event list"
  fc_auto_rejoin :: bool
  fc_voice_gate :: "nat option"
  fc_control_lock :: "nat option"
  fc_shutdown_gate :: "nat option"
  fc_relay :: "nat \<rightharpoonup> u64"
  fc_pc :: "nat \<Rightarrow> pc"

definition client_from_api :: "bool \<Rightarrow> 'v facade" where
  "client_from_api auto_rejoin =
     \<lparr>fc_stopped = False, fc_generation = 0, fc_metadata = None, fc_state_installed = False,
      fc_control = None, fc_controls = [], fc_voice = None, fc_sessions = [], fc_intent = None,
      fc_keys = cache_new, fc_tasks = [], fc_events = [], fc_auto_rejoin = auto_rejoin,
      fc_voice_gate = None, fc_control_lock = None, fc_shutdown_gate = None,
      fc_relay = Map.empty, fc_pc = (\<lambda>_. Inactive)\<rparr>"

definition goto :: "nat \<Rightarrow> pc \<Rightarrow> 'v facade \<Rightarrow> 'v facade" where
  "goto t p s = s\<lparr>fc_pc := (fc_pc s)(t := p)\<rparr>"

definition send_event :: "'v sdk_event \<Rightarrow> 'v facade \<Rightarrow> 'v facade" where
  "send_event e s = s\<lparr>fc_events := fc_events s @ [e]\<rparr>"

definition clear_voice_intent :: "'v facade \<Rightarrow> 'v facade" where
  "clear_voice_intent s = s\<lparr>fc_intent := None\<rparr>"

text \<open>\<open>VoiceSession::clear_voice_intent\<close>: only the intent of this very session.\<close>

definition clear_own_intent :: "nat \<Rightarrow> 'v facade \<Rightarrow> 'v facade" where
  "clear_own_intent i s =
     (case fc_intent s of
        Some intent \<Rightarrow>
          if vi_session_id intent = vh_session_id (fc_sessions s ! i) then s\<lparr>fc_intent := None\<rparr> else s
      | None \<Rightarrow> s)"

definition set_session :: "nat \<Rightarrow> (voice_handle \<Rightarrow> voice_handle) \<Rightarrow> 'v facade \<Rightarrow> 'v facade" where
  "set_session i f s = s\<lparr>fc_sessions := (fc_sessions s)[i := f (fc_sessions s ! i)]\<rparr>"

definition remove_key :: "nat \<Rightarrow> 'v facade \<Rightarrow> 'v facade" where
  "remove_key i s = s\<lparr>fc_keys := cache_remove (vh_session_id (fc_sessions s ! i)) (fc_keys s)\<rparr>"

text \<open>The worker of a session ends once, and takes its key out of the cache then.\<close>

definition worker_ends :: "nat \<Rightarrow> 'v facade \<Rightarrow> 'v facade" where
  "worker_ends i s =
     (if vh_open (fc_sessions s ! i) then set_session i (\<lambda>h. h\<lparr>vh_open := False\<rparr>) (remove_key i s) else s)"

definition stop_transport :: "nat \<Rightarrow> 'v facade \<Rightarrow> 'v facade" where
  "stop_transport i s = remove_key i (worker_ends i s)"

text \<open>
  The end of a call: a host task returns, a relay goes back to its loop and reports an error. An
  automatic rejoin that fails forgets the intent.
\<close>

definition finish_call ::
  "(sdk_error \<Rightarrow> string) \<Rightarrow> nat \<Rightarrow> call_result \<Rightarrow> sdk_error option \<Rightarrow> 'v facade \<Rightarrow> 'v facade" where
  "finish_call show_err t r err s =
     (case fc_relay s t of
        None \<Rightarrow> goto t (Returned r) s
      | Some g \<Rightarrow>
          goto t RelayWait (case err of None \<Rightarrow> s | Some e \<Rightarrow> send_event (SError (show_err e)) s))"

definition finish_join ::
  "(sdk_error \<Rightarrow> string) \<Rightarrow> nat \<Rightarrow> (nat, sdk_error) result \<Rightarrow> 'v facade \<Rightarrow> 'v facade" where
  "finish_join show_err t r s =
     (case r of
        Ok i \<Rightarrow> finish_call show_err t (JoinResult r) None s
      | Err e \<Rightarrow>
          finish_call show_err t (JoinResult r) (Some e)
            (if fc_relay s t = None then s else clear_voice_intent s))"

definition fail_join :: "(sdk_error \<Rightarrow> string) \<Rightarrow> nat \<Rightarrow> sdk_error \<Rightarrow> 'v facade \<Rightarrow> 'v facade" where
  "fail_join show_err t e s = finish_join show_err t (Err e) (s\<lparr>fc_voice_gate := None\<rparr>)"


section \<open>Connecting\<close>

definition connect_start :: "nat \<Rightarrow> 'v facade \<Rightarrow> 'v facade" where
  "connect_start t s =
     goto t (if fc_stopped s then Returned (ConnectResult (Err SClosed)) else ConnectLock) s"

definition connect_locked :: "nat \<Rightarrow> 'v facade \<Rightarrow> 'v facade" where
  "connect_locked t s =
     (let dial = goto t ConnectDial (s\<lparr>fc_control := None, fc_control_lock := Some t\<rparr>)
      in case fc_control s of
           Some h \<Rightarrow>
             if cv_status (fc_controls s ! h) \<noteq> CClosed
             then goto t (Returned (ConnectResult (Ok h))) s
             else dial
         | None \<Rightarrow> dial)"

definition saturating_succ :: "u64 \<Rightarrow> u64" where
  "saturating_succ g = (if g = - 1 then g else g + 1)"

text \<open>
  The counter wraps while the local copy saturates. \<open>rt\<close> is the relay task that is spawned for the new
  connection; it is listed among the tasks only once their lock is taken.
\<close>

definition connect_dialed ::
  "nat \<Rightarrow> nat \<Rightarrow> (control_view, realtime_error) result \<Rightarrow> 'v facade \<Rightarrow> 'v facade" where
  "connect_dialed t rt r s =
     (case r of
        Err e \<Rightarrow> goto t (Returned (ConnectResult (Err (SRealtime e)))) (s\<lparr>fc_control_lock := None\<rparr>)
      | Ok view \<Rightarrow>
          let h = length (fc_controls s); s1 = s\<lparr>fc_controls := fc_controls s @ [view]\<rparr>
          in if fc_stopped s then goto t (ConnectAbort h) s1
             else goto t (ConnectSpawn h rt)
                    (goto rt RelayWait
                      (s1\<lparr>fc_generation := fc_generation s + 1, fc_state_installed := True,
                          fc_relay := (fc_relay s)(rt \<mapsto> saturating_succ (fc_generation s))\<rparr>)))"

definition close_control :: "nat \<Rightarrow> 'v facade \<Rightarrow> 'v facade" where
  "close_control h s = s\<lparr>fc_controls := (fc_controls s)[h := (fc_controls s ! h)\<lparr>cv_status := CClosed\<rparr>]\<rparr>"

definition connect_abort :: "nat \<Rightarrow> nat \<Rightarrow> 'v facade \<Rightarrow> 'v facade" where
  "connect_abort t h s =
     goto t (Returned (ConnectResult (Err SClosed))) ((close_control h s)\<lparr>fc_control_lock := None\<rparr>)"

definition connect_spawned :: "nat \<Rightarrow> nat \<Rightarrow> nat \<Rightarrow> 'v facade \<Rightarrow> 'v facade" where
  "connect_spawned t h rt s =
     goto t (Returned (ConnectResult (Ok h)))
       (s\<lparr>fc_tasks := fc_tasks s @ [rt], fc_control := Some h, fc_control_lock := None\<rparr>)"


section \<open>Joining a voice channel\<close>

definition join_start :: "(sdk_error \<Rightarrow> string) \<Rightarrow> nat \<Rightarrow> join_call \<Rightarrow> 'v facade \<Rightarrow> 'v facade" where
  "join_start show_err t c s =
     (if fc_stopped s then finish_join show_err t (Err SClosed) s else goto t (JoinGate c) s)"

definition join_gate :: "nat \<Rightarrow> join_call \<Rightarrow> 'v facade \<Rightarrow> 'v facade" where
  "join_gate t c s = goto t (JoinControl c) (s\<lparr>fc_voice_gate := Some t\<rparr>)"

text \<open>\<open>current_control\<close>: the flag is read before the lock of the control handle is awaited.\<close>

definition join_control :: "(sdk_error \<Rightarrow> string) \<Rightarrow> nat \<Rightarrow> join_call \<Rightarrow> 'v facade \<Rightarrow> 'v facade" where
  "join_control show_err t c s =
     (if fc_stopped s then fail_join show_err t SClosed s else goto t (JoinLock c) s)"

definition join_locked :: "(sdk_error \<Rightarrow> string) \<Rightarrow> nat \<Rightarrow> join_call \<Rightarrow> 'v facade \<Rightarrow> 'v facade" where
  "join_locked show_err t c s =
     (case fc_control s of
        Some h \<Rightarrow>
          if cv_status (fc_controls s ! h) = CClosed then fail_join show_err t NotConnected s
          else if cv_status (fc_controls s ! h) \<noteq> CLive then fail_join show_err t ControlNotLive s
          else goto t (JoinDiscover c h) s
      | None \<Rightarrow> fail_join show_err t NotConnected s)"

definition after_discover ::
  "(sdk_error \<Rightarrow> string) \<Rightarrow> nat \<Rightarrow> join_call \<Rightarrow> nat \<Rightarrow> metadata \<Rightarrow> 'v facade \<Rightarrow> 'v facade" where
  "after_discover show_err t c h m s =
     (case first_codec m of
        Err e \<Rightarrow> fail_join show_err t e s
      | Ok codec \<Rightarrow>
          if cv_status (fc_controls s ! h) \<noteq> CLive then fail_join show_err t ControlNotLive s
          else (case cv_id (fc_controls s ! h) of
                  None \<Rightarrow> fail_join show_err t VoiceControlUnavailable s
                | Some control_id \<Rightarrow> goto t (JoinHttp c h m codec control_id (fc_generation s)) s))"

text \<open>\<open>Client::discover\<close> in two steps: the cached metadata, or the answer of the server.\<close>

definition join_discover :: "(sdk_error \<Rightarrow> string) \<Rightarrow> nat \<Rightarrow> join_call \<Rightarrow> nat \<Rightarrow> 'v facade \<Rightarrow> 'v facade" where
  "join_discover show_err t c h s =
     (if fc_stopped s then fail_join show_err t SClosed s
      else case fc_metadata s of
             Some m \<Rightarrow> after_discover show_err t c h m s
           | None \<Rightarrow> goto t (JoinMetadata c h) s)"

definition join_metadata ::
  "(sdk_error \<Rightarrow> string) \<Rightarrow> nat \<Rightarrow> join_call \<Rightarrow> nat \<Rightarrow> (metadata, http_error) result \<Rightarrow> 'v facade \<Rightarrow> 'v facade" where
  "join_metadata show_err t c h r s =
     (case r of
        Err e \<Rightarrow> fail_join show_err t (SHttp e) s
      | Ok m \<Rightarrow> after_discover show_err t c h m (s\<lparr>fc_metadata := Some m\<rparr>))"

definition join_response ::
  "(sdk_error \<Rightarrow> string) \<Rightarrow> (string \<Rightarrow> bytes option) \<Rightarrow> nat \<Rightarrow> join_call \<Rightarrow> nat \<Rightarrow> metadata \<Rightarrow> codec_capability
   \<Rightarrow> control_connection_id \<Rightarrow> u64 \<Rightarrow> (voice_join_response, http_error) result \<Rightarrow> 'v facade \<Rightarrow> 'v facade" where
  "join_response show_err b64 t c h m codec control_id g r s =
     (case r of
        Err e \<Rightarrow> fail_join show_err t (SHttp e) s
      | Ok response \<Rightarrow>
          (case negotiated_config b64 m (jc_channel_id c) response of
             Err e \<Rightarrow> fail_join show_err t e s
           | Ok config \<Rightarrow>
               goto t (JoinUdp c h codec control_id g config
                         (cached_reuse_key (fc_keys s) (jr_voice response))) s))"

text \<open>
  The UDP session starts over the shared key cache; \<open>io\<close> is the outcome of its first write. Then the
  flag, the generation and the control identity are compared with what they were before the request.
\<close>

definition join_started ::
  "(sdk_error \<Rightarrow> string) \<Rightarrow> 'k aead \<Rightarrow> nat \<Rightarrow> join_call \<Rightarrow> nat \<Rightarrow> codec_capability \<Rightarrow> control_connection_id
   \<Rightarrow> u64 \<Rightarrow> voice_session_config \<Rightarrow> session_key option \<Rightarrow> (write_outcome \<times> nat, voice_error) result
   \<Rightarrow> 'v facade \<Rightarrow> 'v facade" where
  "join_started show_err A t c h codec control_id g config reuse r s =
     (case r of
        Err e \<Rightarrow> fail_join show_err t (SVoice e) s
      | Ok (io, now) \<Rightarrow>
          (case session_start A config (Some (fc_keys s)) io now of
             (cache, started) \<Rightarrow>
               let s1 = s\<lparr>fc_keys := (case cache of Some k \<Rightarrow> k | None \<Rightarrow> fc_keys s)\<rparr>
               in (case started of
                     Err e \<Rightarrow> fail_join show_err t (SVoice e) s1
                   | Ok _ \<Rightarrow>
                       let i = length (fc_sessions s);
                           handle = \<lparr>vh_channel_id = jc_channel_id c, vh_codec = codec,
                             vh_session_id = vc_session_id config, vh_control = h, vh_generation = g,
                             vh_open = True, vh_left = False, vh_teardown = None\<rparr>;
                           s2 = s1\<lparr>fc_sessions := fc_sessions s @ [handle]\<rparr>
                       in if fc_stopped s \<or> fc_generation s \<noteq> g
                             \<or> cv_id (fc_controls s ! h) \<noteq> Some control_id
                          then goto t (JoinAbort i) s2
                          else goto t (JoinInstall c i reuse) s2)))"

definition join_abort :: "(sdk_error \<Rightarrow> string) \<Rightarrow> nat \<Rightarrow> nat \<Rightarrow> 'v facade \<Rightarrow> 'v facade" where
  "join_abort show_err t i s =
     fail_join show_err t (if fc_stopped s then SClosed else VoiceControlUnavailable) (worker_ends i s)"

definition join_install :: "nat \<Rightarrow> join_call \<Rightarrow> nat \<Rightarrow> session_key option \<Rightarrow> 'v facade \<Rightarrow> 'v facade" where
  "join_install t c i reuse s =
     goto t (case fc_voice s of
               Some previous \<Rightarrow> JoinClosePrevious c i reuse previous
             | None \<Rightarrow> JoinFinish c i reuse)
       (s\<lparr>fc_voice := Some i\<rparr>)"

definition join_close_previous ::
  "nat \<Rightarrow> join_call \<Rightarrow> nat \<Rightarrow> session_key option \<Rightarrow> nat \<Rightarrow> 'v facade \<Rightarrow> 'v facade" where
  "join_close_previous t c i reuse previous s = goto t (JoinFinish c i reuse) (stop_transport previous s)"

definition join_finish ::
  "(sdk_error \<Rightarrow> string) \<Rightarrow> nat \<Rightarrow> join_call \<Rightarrow> nat \<Rightarrow> session_key option \<Rightarrow> 'v facade \<Rightarrow> 'v facade" where
  "join_finish show_err t c i reuse s =
     (let sid = vh_session_id (fc_sessions s ! i);
          s1 = (case reuse of Some key \<Rightarrow> s\<lparr>fc_keys := cache_insert sid key (fc_keys s)\<rparr> | None \<Rightarrow> s);
          s2 = s1\<lparr>fc_intent := (if fc_auto_rejoin s
                 then Some \<lparr>vi_channel_id = jc_channel_id c, vi_request = jc_request c, vi_session_id = sid\<rparr>
                 else None)\<rparr>
      in finish_join show_err t (Ok i)
           ((send_event (SVoiceEvent (VoiceJoined (jc_channel_id c) sid)) s2)\<lparr>fc_voice_gate := None\<rparr>))"


section \<open>Leaving and stopping\<close>

definition leave_start :: "nat \<Rightarrow> 'v facade \<Rightarrow> 'v facade" where
  "leave_start t s =
     (if fc_stopped s then goto t (Returned (LeaveResult (Err SClosed))) s
      else goto t LeaveGate (clear_voice_intent s))"

definition leave_gate :: "nat \<Rightarrow> 'v facade \<Rightarrow> 'v facade" where
  "leave_gate t s =
     (case fc_voice s of
        None \<Rightarrow> goto t (Returned (LeaveResult (Ok ()))) s
      | Some i \<Rightarrow>
          goto t (LeaveClose True i)
            (clear_own_intent i (s\<lparr>fc_voice := None, fc_voice_gate := Some t\<rparr>)))"

text \<open>
  The end of \<open>VoiceSession::leave\<close>: the teardown error comes first, then the error of the request.
  \<open>leave_voice\<close> puts the handle back when the result is an error, so that the host can try again.
\<close>

definition leave_done ::
  "nat \<Rightarrow> bool \<Rightarrow> nat \<Rightarrow> (unit, sdk_error) result \<Rightarrow> 'v facade \<Rightarrow> 'v facade" where
  "leave_done t via i r s =
     (let s1 = set_session i (\<lambda>h. h\<lparr>vh_left := (vh_left h \<or> is_ok r), vh_teardown := None\<rparr>) s;
          s2 = (if via then s1\<lparr>fc_voice := (if is_ok r then fc_voice s1 else Some i), fc_voice_gate := None\<rparr>
                else s1)
      in goto t (Returned (LeaveResult r)) s2)"

definition leave_result ::
  "(unit, voice_error) result \<Rightarrow> (unit, sdk_error) result \<Rightarrow> (unit, sdk_error) result" where
  "leave_result closed left = and_then (map_err SVoice closed) (\<lambda>_. left)"

definition leave_close :: "nat \<Rightarrow> bool \<Rightarrow> nat \<Rightarrow> (unit, voice_error) result \<Rightarrow> 'v facade \<Rightarrow> 'v facade" where
  "leave_close t via i closed s =
     (if vh_left (fc_sessions s ! i) then leave_done t via i (Ok ()) s
      else
        let s1 = set_session i (\<lambda>h. h\<lparr>vh_teardown := Some t\<rparr>) (stop_transport i s)
        in case cv_id (fc_controls s ! vh_control (fc_sessions s ! i)) of
             None \<Rightarrow> leave_done t via i (leave_result closed (Err VoiceControlUnavailable)) s1
           | Some control_id \<Rightarrow> goto t (LeaveHttp via i closed) s1)"

definition leave_answered ::
  "nat \<Rightarrow> bool \<Rightarrow> nat \<Rightarrow> (unit, voice_error) result \<Rightarrow> (unit, http_error) result \<Rightarrow> 'v facade \<Rightarrow> 'v facade" where
  "leave_answered t via i closed r s = leave_done t via i (leave_result closed (map_err SHttp r)) s"

text \<open>\<open>VoiceSession::close\<close> and \<open>VoiceSession::leave\<close> called on a handle of the host.\<close>

definition handle_close_start :: "nat \<Rightarrow> nat \<Rightarrow> 'v facade \<Rightarrow> 'v facade" where
  "handle_close_start t i s = goto t (HandleClose i) (clear_own_intent i s)"

definition handle_close :: "nat \<Rightarrow> nat \<Rightarrow> (unit, voice_error) result \<Rightarrow> 'v facade \<Rightarrow> 'v facade" where
  "handle_close t i closed s =
     goto t (Returned (CloseResult (map_err SVoice closed))) (stop_transport i s)"

definition handle_leave_start :: "nat \<Rightarrow> nat \<Rightarrow> 'v facade \<Rightarrow> 'v facade" where
  "handle_leave_start t i s = goto t (LeaveClose False i) (clear_own_intent i s)"

text \<open>\<open>stop_voice_transport_for\<close>: only a session of the expected generation is taken and stopped.\<close>

definition stop_gate :: "(sdk_error \<Rightarrow> string) \<Rightarrow> nat \<Rightarrow> u64 \<Rightarrow> 'v facade \<Rightarrow> 'v facade" where
  "stop_gate show_err t g s =
     (case fc_voice s of
        Some i \<Rightarrow>
          if vh_generation (fc_sessions s ! i) = g
          then goto t (StopClose i) (s\<lparr>fc_voice := None, fc_voice_gate := Some t\<rparr>)
          else finish_call show_err t Aborted None s
      | None \<Rightarrow> finish_call show_err t Aborted None s)"

definition err_of :: "('a, 'e) result \<Rightarrow> 'e option" where
  "err_of r = (case r of Ok _ \<Rightarrow> None | Err e \<Rightarrow> Some e)"

definition stop_close ::
  "(sdk_error \<Rightarrow> string) \<Rightarrow> nat \<Rightarrow> nat \<Rightarrow> (unit, voice_error) result \<Rightarrow> 'v facade \<Rightarrow> 'v facade" where
  "stop_close show_err t i closed s =
     finish_call show_err t Aborted (map_option SVoice (err_of closed))
       ((stop_transport i s)\<lparr>fc_voice_gate := None\<rparr>)"


section \<open>Shutting down\<close>

definition shut_gate :: "nat \<Rightarrow> 'v facade \<Rightarrow> 'v facade" where
  "shut_gate t s =
     (if fc_stopped s then goto t (Returned (ShutdownResult (Ok ()))) s
      else goto t ShutVoice (s\<lparr>fc_stopped := True, fc_shutdown_gate := Some t\<rparr>))"

definition shut_voice :: "nat \<Rightarrow> 'v facade \<Rightarrow> 'v facade" where
  "shut_voice t s =
     (case fc_voice s of
        None \<Rightarrow> goto t (ShutControl None) s
      | Some i \<Rightarrow> goto t (ShutClose i) (s\<lparr>fc_voice := None, fc_voice_gate := Some t\<rparr>))"

definition shut_close :: "nat \<Rightarrow> nat \<Rightarrow> (unit, voice_error) result \<Rightarrow> 'v facade \<Rightarrow> 'v facade" where
  "shut_close t i closed s =
     goto t (ShutControl (map_option SVoice (err_of closed))) ((stop_transport i s)\<lparr>fc_voice_gate := None\<rparr>)"

text \<open>The control handle is taken and closed under its lock; its \<open>close\<close> never fails.\<close>

definition shut_control :: "nat \<Rightarrow> sdk_error option \<Rightarrow> 'v facade \<Rightarrow> 'v facade" where
  "shut_control t err s =
     (case fc_control s of
        None \<Rightarrow> goto t (ShutClear err) s
      | Some h \<Rightarrow> goto t (ShutCloseControl h err) (s\<lparr>fc_control := None, fc_control_lock := Some t\<rparr>))"

definition shut_close_control :: "nat \<Rightarrow> nat \<Rightarrow> sdk_error option \<Rightarrow> 'v facade \<Rightarrow> 'v facade" where
  "shut_close_control t h err s =
     goto t (ShutClear err) ((close_control h s)\<lparr>fc_control_lock := None\<rparr>)"

definition shut_clear :: "nat \<Rightarrow> sdk_error option \<Rightarrow> 'v facade \<Rightarrow> 'v facade" where
  "shut_clear t err s =
     goto t (ShutTasks err)
       (s\<lparr>fc_keys := cache_clear (fc_keys s), fc_intent := None, fc_state_installed := False\<rparr>)"

text \<open>Aborting a task drops the guards it holds.\<close>

definition shut_tasks :: "nat \<Rightarrow> sdk_error option \<Rightarrow> 'v facade \<Rightarrow> 'v facade" where
  "shut_tasks t err s =
     s\<lparr>fc_tasks := [],
        fc_voice_gate := (case fc_voice_gate s of
                            Some u \<Rightarrow> if List.member (fc_tasks s) u then None else Some u
                          | None \<Rightarrow> None),
        fc_shutdown_gate := None,
        fc_pc := (\<lambda>u. if u = t
                      then Returned (ShutdownResult (case err of None \<Rightarrow> Ok () | Some e \<Rightarrow> Err e))
                      else if List.member (fc_tasks s) u then Returned Aborted
                      else fc_pc s u)\<rparr>"


section \<open>The event relay\<close>

definition relay_event :: "nat \<Rightarrow> u64 \<Rightarrow> 'v client_event \<Rightarrow> 'v facade \<Rightarrow> 'v facade" where
  "relay_event t g e s =
     (let s1 = send_event (sdk_event_from e) s
      in if fc_generation s \<noteq> g then goto t RelayWait s1
         else
           let s2 = (if clears_intent e then clear_voice_intent s1 else s1)
           in if stops_voice e then goto t (StopGate g) s2
              else goto t (if rejoins_voice e then RelayRejoin else RelayWait) s2)"

definition relay_lagged :: "nat \<Rightarrow> 'v facade \<Rightarrow> 'v facade" where
  "relay_lagged missed s =
     send_event (SError (''realtime event relay lagged by '' @ format_dec missed @ '' events'')) s"

definition relay_rejoin :: "(sdk_error \<Rightarrow> string) \<Rightarrow> nat \<Rightarrow> 'v facade \<Rightarrow> 'v facade" where
  "relay_rejoin show_err t s =
     (if \<not> fc_auto_rejoin s then goto t RelayWait s
      else case fc_intent s of
             None \<Rightarrow> goto t RelayWait s
           | Some intent \<Rightarrow>
               join_start show_err t
                 \<lparr>jc_channel_id = vi_channel_id intent, jc_request = vi_request intent\<rparr> s)"


section \<open>Steps\<close>

text \<open>
  A label names the task that runs and what it is given. \<open>Run\<close> is a step that needs no answer;
  \<open>RelayBreak\<close> ends a relay whose generation is over or whose channel is closed;
  \<open>ControlChanged\<close> and \<open>WorkerEnded\<close> are moves of the realtime engine and of a voice worker.
\<close>

datatype 'v label =
    StartConnect nat
  | StartJoin nat join_call
  | StartLeave nat
  | StartHandleClose nat nat
  | StartHandleLeave nat nat
  | StartShutdown nat
  | Run nat
  | Dialed nat nat "(control_view, realtime_error) result"
  | GotMetadata nat "(metadata, http_error) result"
  | GotJoin nat "(voice_join_response, http_error) result"
  | GotSocket nat "(write_outcome \<times> nat, voice_error) result"
  | GotClosed nat "(unit, voice_error) result"
  | GotLeave nat "(unit, http_error) result"
  | GotEvent nat "'v client_event"
  | GotLagged nat nat
  | RelayBreak nat
  | ControlChanged nat control_view
  | WorkerEnded nat

definition free :: "nat \<Rightarrow> 'v facade \<Rightarrow> bool" where
  "free i s \<longleftrightarrow> vh_teardown (fc_sessions s ! i) = None"

definition run_step :: "(sdk_error \<Rightarrow> string) \<Rightarrow> nat \<Rightarrow> 'v facade \<Rightarrow> 'v facade option" where
  "run_step show_err t s =
     (let gate = (\<lambda>s'. if fc_voice_gate s = None then Some s' else None);
          lock = (\<lambda>s'. if fc_control_lock s = None then Some s' else None)
      in case fc_pc s t of
           ConnectLock \<Rightarrow> lock (connect_locked t s)
         | ConnectAbort h \<Rightarrow> Some (connect_abort t h s)
         | ConnectSpawn h rt \<Rightarrow> Some (connect_spawned t h rt s)
         | JoinGate c \<Rightarrow> gate (join_gate t c s)
         | JoinControl c \<Rightarrow> Some (join_control show_err t c s)
         | JoinLock c \<Rightarrow> lock (join_locked show_err t c s)
         | JoinDiscover c h \<Rightarrow> Some (join_discover show_err t c h s)
         | JoinAbort i \<Rightarrow> Some (join_abort show_err t i s)
         | JoinInstall c i reuse \<Rightarrow> Some (join_install t c i reuse s)
         | JoinClosePrevious c i reuse p \<Rightarrow>
             if free p s then Some (join_close_previous t c i reuse p s) else None
         | JoinFinish c i reuse \<Rightarrow> Some (join_finish show_err t c i reuse s)
         | LeaveGate \<Rightarrow> gate (leave_gate t s)
         | StopGate g \<Rightarrow> gate (stop_gate show_err t g s)
         | ShutGate \<Rightarrow> if fc_shutdown_gate s = None then Some (shut_gate t s) else None
         | ShutVoice \<Rightarrow> gate (shut_voice t s)
         | ShutControl err \<Rightarrow> lock (shut_control t err s)
         | ShutCloseControl h err \<Rightarrow> Some (shut_close_control t h err s)
         | ShutClear err \<Rightarrow> Some (shut_clear t err s)
         | ShutTasks err \<Rightarrow> Some (shut_tasks t err s)
         | RelayRejoin \<Rightarrow> Some (relay_rejoin show_err t s)
         | _ \<Rightarrow> None)"

definition closed_step ::
  "(sdk_error \<Rightarrow> string) \<Rightarrow> nat \<Rightarrow> (unit, voice_error) result \<Rightarrow> 'v facade \<Rightarrow> 'v facade option" where
  "closed_step show_err t r s =
     (case fc_pc s t of
        LeaveClose via i \<Rightarrow> if free i s then Some (leave_close t via i r s) else None
      | HandleClose i \<Rightarrow> if free i s then Some (handle_close t i r s) else None
      | StopClose i \<Rightarrow> if free i s then Some (stop_close show_err t i r s) else None
      | ShutClose i \<Rightarrow> if free i s then Some (shut_close t i r s) else None
      | _ \<Rightarrow> None)"

text \<open>A call starts on a task that runs nothing and is no relay.\<close>

definition idle :: "nat \<Rightarrow> 'v facade \<Rightarrow> bool" where
  "idle t s \<longleftrightarrow> fc_relay s t = None \<and> (case fc_pc s t of Inactive \<Rightarrow> True | Returned _ \<Rightarrow> True | _ \<Rightarrow> False)"

fun facade_do ::
  "(sdk_error \<Rightarrow> string) \<Rightarrow> 'k aead \<Rightarrow> (string \<Rightarrow> bytes option) \<Rightarrow> 'v label \<Rightarrow> 'v facade \<Rightarrow> 'v facade option" where
  "facade_do show_err A b64 (StartConnect t) s = (if idle t s then Some (connect_start t s) else None)"
| "facade_do show_err A b64 (StartJoin t c) s = (if idle t s then Some (join_start show_err t c s) else None)"
| "facade_do show_err A b64 (StartLeave t) s = (if idle t s then Some (leave_start t s) else None)"
| "facade_do show_err A b64 (StartHandleClose t i) s =
     (if idle t s \<and> i < length (fc_sessions s) then Some (handle_close_start t i s) else None)"
| "facade_do show_err A b64 (StartHandleLeave t i) s =
     (if idle t s \<and> i < length (fc_sessions s) then Some (handle_leave_start t i s) else None)"
| "facade_do show_err A b64 (StartShutdown t) s = (if idle t s then Some (goto t ShutGate s) else None)"
| "facade_do show_err A b64 (Run t) s = run_step show_err t s"
| "facade_do show_err A b64 (Dialed t rt r) s =
     (case (fc_pc s t, fc_pc s rt) of
        (ConnectDial, Inactive) \<Rightarrow> Some (connect_dialed t rt r s)
      | _ \<Rightarrow> None)"
| "facade_do show_err A b64 (GotMetadata t r) s =
     (case fc_pc s t of JoinMetadata c h \<Rightarrow> Some (join_metadata show_err t c h r s) | _ \<Rightarrow> None)"
| "facade_do show_err A b64 (GotJoin t r) s =
     (case fc_pc s t of
        JoinHttp c h m codec cid g \<Rightarrow> Some (join_response show_err b64 t c h m codec cid g r s)
      | _ \<Rightarrow> None)"
| "facade_do show_err A b64 (GotSocket t r) s =
     (case fc_pc s t of
        JoinUdp c h codec cid g config reuse \<Rightarrow>
          Some (join_started show_err A t c h codec cid g config reuse r s)
      | _ \<Rightarrow> None)"
| "facade_do show_err A b64 (GotClosed t r) s = closed_step show_err t r s"
| "facade_do show_err A b64 (GotLeave t r) s =
     (case fc_pc s t of LeaveHttp via i closed \<Rightarrow> Some (leave_answered t via i closed r s) | _ \<Rightarrow> None)"
| "facade_do show_err A b64 (GotEvent t e) s =
     (case (fc_pc s t, fc_relay s t) of (RelayWait, Some g) \<Rightarrow> Some (relay_event t g e s) | _ \<Rightarrow> None)"
| "facade_do show_err A b64 (GotLagged t missed) s =
     (case fc_pc s t of RelayWait \<Rightarrow> Some (relay_lagged missed s) | _ \<Rightarrow> None)"
| "facade_do show_err A b64 (RelayBreak t) s =
     (case fc_pc s t of RelayWait \<Rightarrow> Some (goto t (Returned Aborted) s) | _ \<Rightarrow> None)"
| "facade_do show_err A b64 (ControlChanged h view) s =
     (if h < length (fc_controls s) \<and> cv_status (fc_controls s ! h) \<noteq> CClosed
      then Some (s\<lparr>fc_controls := (fc_controls s)[h := view]\<rparr>) else None)"
| "facade_do show_err A b64 (WorkerEnded i) s =
     (if i < length (fc_sessions s) then Some (worker_ends i s) else None)"


section \<open>What the helpers change\<close>

named_theorems facade_simps

lemma update_open_same: "\<not> vh_open (xs ! i) \<Longrightarrow> xs[i := (xs ! i)\<lparr>vh_open := False\<rparr>] = xs"
  by (cases "i < length xs") (simp_all add: list_eq_iff_nth_eq nth_list_update)

lemma goto_fields [facade_simps]:
  "fc_stopped (goto t p s) = fc_stopped s"
  "fc_generation (goto t p s) = fc_generation s"
  "fc_metadata (goto t p s) = fc_metadata s"
  "fc_state_installed (goto t p s) = fc_state_installed s"
  "fc_control (goto t p s) = fc_control s"
  "fc_controls (goto t p s) = fc_controls s"
  "fc_voice (goto t p s) = fc_voice s"
  "fc_sessions (goto t p s) = fc_sessions s"
  "fc_intent (goto t p s) = fc_intent s"
  "fc_keys (goto t p s) = fc_keys s"
  "fc_tasks (goto t p s) = fc_tasks s"
  "fc_auto_rejoin (goto t p s) = fc_auto_rejoin s"
  "fc_voice_gate (goto t p s) = fc_voice_gate s"
  "fc_control_lock (goto t p s) = fc_control_lock s"
  "fc_shutdown_gate (goto t p s) = fc_shutdown_gate s"
  "fc_relay (goto t p s) = fc_relay s"
  "fc_pc (goto t p s) = (fc_pc s)(t := p)"
  by (auto simp: goto_def split: option.splits result.splits)

lemma send_event_fields [facade_simps]:
  "fc_stopped (send_event e s) = fc_stopped s"
  "fc_generation (send_event e s) = fc_generation s"
  "fc_metadata (send_event e s) = fc_metadata s"
  "fc_state_installed (send_event e s) = fc_state_installed s"
  "fc_control (send_event e s) = fc_control s"
  "fc_controls (send_event e s) = fc_controls s"
  "fc_voice (send_event e s) = fc_voice s"
  "fc_sessions (send_event e s) = fc_sessions s"
  "fc_intent (send_event e s) = fc_intent s"
  "fc_keys (send_event e s) = fc_keys s"
  "fc_tasks (send_event e s) = fc_tasks s"
  "fc_auto_rejoin (send_event e s) = fc_auto_rejoin s"
  "fc_voice_gate (send_event e s) = fc_voice_gate s"
  "fc_control_lock (send_event e s) = fc_control_lock s"
  "fc_shutdown_gate (send_event e s) = fc_shutdown_gate s"
  "fc_relay (send_event e s) = fc_relay s"
  "fc_pc (send_event e s) = fc_pc s"
  by (auto simp: send_event_def split: option.splits result.splits)

lemma clear_intent_fields [facade_simps]:
  "fc_stopped (clear_voice_intent s) = fc_stopped s"
  "fc_generation (clear_voice_intent s) = fc_generation s"
  "fc_metadata (clear_voice_intent s) = fc_metadata s"
  "fc_state_installed (clear_voice_intent s) = fc_state_installed s"
  "fc_control (clear_voice_intent s) = fc_control s"
  "fc_controls (clear_voice_intent s) = fc_controls s"
  "fc_voice (clear_voice_intent s) = fc_voice s"
  "fc_sessions (clear_voice_intent s) = fc_sessions s"
  "fc_intent (clear_voice_intent s) = None"
  "fc_keys (clear_voice_intent s) = fc_keys s"
  "fc_tasks (clear_voice_intent s) = fc_tasks s"
  "fc_auto_rejoin (clear_voice_intent s) = fc_auto_rejoin s"
  "fc_voice_gate (clear_voice_intent s) = fc_voice_gate s"
  "fc_control_lock (clear_voice_intent s) = fc_control_lock s"
  "fc_shutdown_gate (clear_voice_intent s) = fc_shutdown_gate s"
  "fc_relay (clear_voice_intent s) = fc_relay s"
  "fc_pc (clear_voice_intent s) = fc_pc s"
  by (auto simp: clear_voice_intent_def split: option.splits result.splits)

lemma clear_own_fields [facade_simps]:
  "fc_stopped (clear_own_intent i s) = fc_stopped s"
  "fc_generation (clear_own_intent i s) = fc_generation s"
  "fc_metadata (clear_own_intent i s) = fc_metadata s"
  "fc_state_installed (clear_own_intent i s) = fc_state_installed s"
  "fc_control (clear_own_intent i s) = fc_control s"
  "fc_controls (clear_own_intent i s) = fc_controls s"
  "fc_voice (clear_own_intent i s) = fc_voice s"
  "fc_sessions (clear_own_intent i s) = fc_sessions s"
  "fc_keys (clear_own_intent i s) = fc_keys s"
  "fc_tasks (clear_own_intent i s) = fc_tasks s"
  "fc_auto_rejoin (clear_own_intent i s) = fc_auto_rejoin s"
  "fc_voice_gate (clear_own_intent i s) = fc_voice_gate s"
  "fc_control_lock (clear_own_intent i s) = fc_control_lock s"
  "fc_shutdown_gate (clear_own_intent i s) = fc_shutdown_gate s"
  "fc_relay (clear_own_intent i s) = fc_relay s"
  "fc_pc (clear_own_intent i s) = fc_pc s"
  by (auto simp: clear_own_intent_def split: option.splits result.splits)

lemma set_session_fields [facade_simps]:
  "fc_stopped (set_session i f s) = fc_stopped s"
  "fc_generation (set_session i f s) = fc_generation s"
  "fc_metadata (set_session i f s) = fc_metadata s"
  "fc_state_installed (set_session i f s) = fc_state_installed s"
  "fc_control (set_session i f s) = fc_control s"
  "fc_controls (set_session i f s) = fc_controls s"
  "fc_voice (set_session i f s) = fc_voice s"
  "fc_sessions (set_session i f s) = (fc_sessions s)[i := f (fc_sessions s ! i)]"
  "fc_intent (set_session i f s) = fc_intent s"
  "fc_keys (set_session i f s) = fc_keys s"
  "fc_tasks (set_session i f s) = fc_tasks s"
  "fc_auto_rejoin (set_session i f s) = fc_auto_rejoin s"
  "fc_voice_gate (set_session i f s) = fc_voice_gate s"
  "fc_control_lock (set_session i f s) = fc_control_lock s"
  "fc_shutdown_gate (set_session i f s) = fc_shutdown_gate s"
  "fc_relay (set_session i f s) = fc_relay s"
  "fc_pc (set_session i f s) = fc_pc s"
  by (auto simp: set_session_def split: option.splits result.splits)

lemma remove_key_fields [facade_simps]:
  "fc_stopped (remove_key i s) = fc_stopped s"
  "fc_generation (remove_key i s) = fc_generation s"
  "fc_metadata (remove_key i s) = fc_metadata s"
  "fc_state_installed (remove_key i s) = fc_state_installed s"
  "fc_control (remove_key i s) = fc_control s"
  "fc_controls (remove_key i s) = fc_controls s"
  "fc_voice (remove_key i s) = fc_voice s"
  "fc_sessions (remove_key i s) = fc_sessions s"
  "fc_intent (remove_key i s) = fc_intent s"
  "fc_keys (remove_key i s) = cache_remove (vh_session_id (fc_sessions s ! i)) (fc_keys s)"
  "fc_tasks (remove_key i s) = fc_tasks s"
  "fc_auto_rejoin (remove_key i s) = fc_auto_rejoin s"
  "fc_voice_gate (remove_key i s) = fc_voice_gate s"
  "fc_control_lock (remove_key i s) = fc_control_lock s"
  "fc_shutdown_gate (remove_key i s) = fc_shutdown_gate s"
  "fc_relay (remove_key i s) = fc_relay s"
  "fc_pc (remove_key i s) = fc_pc s"
  by (auto simp: remove_key_def split: option.splits result.splits)

lemma worker_ends_fields [facade_simps]:
  "fc_stopped (worker_ends i s) = fc_stopped s"
  "fc_generation (worker_ends i s) = fc_generation s"
  "fc_metadata (worker_ends i s) = fc_metadata s"
  "fc_state_installed (worker_ends i s) = fc_state_installed s"
  "fc_control (worker_ends i s) = fc_control s"
  "fc_controls (worker_ends i s) = fc_controls s"
  "fc_voice (worker_ends i s) = fc_voice s"
  "fc_sessions (worker_ends i s) = (fc_sessions s)[i := (fc_sessions s ! i)\<lparr>vh_open := False\<rparr>]"
  "fc_intent (worker_ends i s) = fc_intent s"
  "fc_tasks (worker_ends i s) = fc_tasks s"
  "fc_auto_rejoin (worker_ends i s) = fc_auto_rejoin s"
  "fc_voice_gate (worker_ends i s) = fc_voice_gate s"
  "fc_control_lock (worker_ends i s) = fc_control_lock s"
  "fc_shutdown_gate (worker_ends i s) = fc_shutdown_gate s"
  "fc_relay (worker_ends i s) = fc_relay s"
  "fc_pc (worker_ends i s) = fc_pc s"
  by (auto simp: worker_ends_def set_session_def remove_key_def update_open_same split: option.splits result.splits)

lemma stop_transport_fields [facade_simps]:
  "fc_stopped (stop_transport i s) = fc_stopped s"
  "fc_generation (stop_transport i s) = fc_generation s"
  "fc_metadata (stop_transport i s) = fc_metadata s"
  "fc_state_installed (stop_transport i s) = fc_state_installed s"
  "fc_control (stop_transport i s) = fc_control s"
  "fc_controls (stop_transport i s) = fc_controls s"
  "fc_voice (stop_transport i s) = fc_voice s"
  "fc_sessions (stop_transport i s) = (fc_sessions s)[i := (fc_sessions s ! i)\<lparr>vh_open := False\<rparr>]"
  "fc_intent (stop_transport i s) = fc_intent s"
  "fc_tasks (stop_transport i s) = fc_tasks s"
  "fc_auto_rejoin (stop_transport i s) = fc_auto_rejoin s"
  "fc_voice_gate (stop_transport i s) = fc_voice_gate s"
  "fc_control_lock (stop_transport i s) = fc_control_lock s"
  "fc_shutdown_gate (stop_transport i s) = fc_shutdown_gate s"
  "fc_relay (stop_transport i s) = fc_relay s"
  "fc_pc (stop_transport i s) = fc_pc s"
  by (auto simp: stop_transport_def remove_key_def worker_ends_fields split: option.splits result.splits)

lemma close_control_fields [facade_simps]:
  "fc_stopped (close_control h s) = fc_stopped s"
  "fc_generation (close_control h s) = fc_generation s"
  "fc_metadata (close_control h s) = fc_metadata s"
  "fc_state_installed (close_control h s) = fc_state_installed s"
  "fc_control (close_control h s) = fc_control s"
  "fc_controls (close_control h s) = (fc_controls s)[h := (fc_controls s ! h)\<lparr>cv_status := CClosed\<rparr>]"
  "fc_voice (close_control h s) = fc_voice s"
  "fc_sessions (close_control h s) = fc_sessions s"
  "fc_intent (close_control h s) = fc_intent s"
  "fc_keys (close_control h s) = fc_keys s"
  "fc_tasks (close_control h s) = fc_tasks s"
  "fc_auto_rejoin (close_control h s) = fc_auto_rejoin s"
  "fc_voice_gate (close_control h s) = fc_voice_gate s"
  "fc_control_lock (close_control h s) = fc_control_lock s"
  "fc_shutdown_gate (close_control h s) = fc_shutdown_gate s"
  "fc_relay (close_control h s) = fc_relay s"
  "fc_pc (close_control h s) = fc_pc s"
  by (auto simp: close_control_def split: option.splits result.splits)

lemma finish_call_fields [facade_simps]:
  "fc_stopped (finish_call sh t r e s) = fc_stopped s"
  "fc_generation (finish_call sh t r e s) = fc_generation s"
  "fc_metadata (finish_call sh t r e s) = fc_metadata s"
  "fc_state_installed (finish_call sh t r e s) = fc_state_installed s"
  "fc_control (finish_call sh t r e s) = fc_control s"
  "fc_controls (finish_call sh t r e s) = fc_controls s"
  "fc_voice (finish_call sh t r e s) = fc_voice s"
  "fc_sessions (finish_call sh t r e s) = fc_sessions s"
  "fc_intent (finish_call sh t r e s) = fc_intent s"
  "fc_keys (finish_call sh t r e s) = fc_keys s"
  "fc_tasks (finish_call sh t r e s) = fc_tasks s"
  "fc_auto_rejoin (finish_call sh t r e s) = fc_auto_rejoin s"
  "fc_voice_gate (finish_call sh t r e s) = fc_voice_gate s"
  "fc_control_lock (finish_call sh t r e s) = fc_control_lock s"
  "fc_shutdown_gate (finish_call sh t r e s) = fc_shutdown_gate s"
  "fc_relay (finish_call sh t r e s) = fc_relay s"
  "fc_pc (finish_call sh t r e s) = (fc_pc s)(t := (if fc_relay s t = None then Returned r else RelayWait))"
  by (auto simp: finish_call_def goto_def send_event_def split: option.splits result.splits)

lemma finish_join_fields [facade_simps]:
  "fc_stopped (finish_join sh t r s) = fc_stopped s"
  "fc_generation (finish_join sh t r s) = fc_generation s"
  "fc_metadata (finish_join sh t r s) = fc_metadata s"
  "fc_state_installed (finish_join sh t r s) = fc_state_installed s"
  "fc_control (finish_join sh t r s) = fc_control s"
  "fc_controls (finish_join sh t r s) = fc_controls s"
  "fc_voice (finish_join sh t r s) = fc_voice s"
  "fc_sessions (finish_join sh t r s) = fc_sessions s"
  "fc_keys (finish_join sh t r s) = fc_keys s"
  "fc_tasks (finish_join sh t r s) = fc_tasks s"
  "fc_auto_rejoin (finish_join sh t r s) = fc_auto_rejoin s"
  "fc_voice_gate (finish_join sh t r s) = fc_voice_gate s"
  "fc_control_lock (finish_join sh t r s) = fc_control_lock s"
  "fc_shutdown_gate (finish_join sh t r s) = fc_shutdown_gate s"
  "fc_relay (finish_join sh t r s) = fc_relay s"
  "fc_pc (finish_join sh t r s) = (fc_pc s)(t := (if fc_relay s t = None then Returned (JoinResult r) else RelayWait))"
  by (auto simp: finish_join_def finish_call_fields clear_voice_intent_def split: option.splits result.splits)

lemma fail_join_fields [facade_simps]:
  "fc_stopped (fail_join sh t e s) = fc_stopped s"
  "fc_generation (fail_join sh t e s) = fc_generation s"
  "fc_metadata (fail_join sh t e s) = fc_metadata s"
  "fc_state_installed (fail_join sh t e s) = fc_state_installed s"
  "fc_control (fail_join sh t e s) = fc_control s"
  "fc_controls (fail_join sh t e s) = fc_controls s"
  "fc_voice (fail_join sh t e s) = fc_voice s"
  "fc_sessions (fail_join sh t e s) = fc_sessions s"
  "fc_keys (fail_join sh t e s) = fc_keys s"
  "fc_tasks (fail_join sh t e s) = fc_tasks s"
  "fc_auto_rejoin (fail_join sh t e s) = fc_auto_rejoin s"
  "fc_voice_gate (fail_join sh t e s) = None"
  "fc_control_lock (fail_join sh t e s) = fc_control_lock s"
  "fc_shutdown_gate (fail_join sh t e s) = fc_shutdown_gate s"
  "fc_relay (fail_join sh t e s) = fc_relay s"
  "fc_pc (fail_join sh t e s) = (fc_pc s)(t := (if fc_relay s t = None then Returned (JoinResult (Err e)) else RelayWait))"
  by (auto simp: fail_join_def finish_join_fields split: option.splits result.splits)

end
