(* ===== verification/FacadeLocks.thy ===== *)
theory FacadeLocks
  imports Facade
begin

text \<open>
  The runs of the facade machine, a case analysis of its steps, and the invariant of its locks: who holds
  the voice gate, the lock of the control handle and the shutdown gate.
\<close>

section \<open>Runs\<close>

text \<open>One case per operation: where the task was and what it did.\<close>

fun actor :: "'v label \<Rightarrow> nat" where
  "actor (StartConnect t) = t"
| "actor (StartJoin t c) = t"
| "actor (StartLeave t) = t"
| "actor (StartHandleClose t i) = t"
| "actor (StartHandleLeave t i) = t"
| "actor (StartShutdown t) = t"
| "actor (Run t) = t"
| "actor (Dialed t rt r) = t"
| "actor (GotMetadata t mr) = t"
| "actor (GotJoin t jr) = t"
| "actor (GotSocket t sr) = t"
| "actor (GotClosed t cr) = t"
| "actor (GotLeave t lr) = t"
| "actor (GotEvent t e) = t"
| "actor (GotLagged t n) = t"
| "actor (RelayBreak t) = t"
| "actor (ControlChanged h view) = 0"
| "actor (WorkerEnded i) = 0"

lemma facade_do_cases:
  assumes "facade_do sh A b64 l s = Some s'" and "actor l = t"
  obtains (connect_start) "idle t s" "s' = connect_start t s"
  | (join_start) c where "idle t s" "s' = join_start sh t c s"
  | (leave_start) "idle t s" "s' = leave_start t s"
  | (handle_close_start) i where "idle t s" "i < length (fc_sessions s)" "s' = handle_close_start t i s"
  | (handle_leave_start) i where "idle t s" "i < length (fc_sessions s)" "s' = handle_leave_start t i s"
  | (shutdown_start) "idle t s" "s' = goto t ShutGate s"
  | (connect_locked) "fc_pc s t = ConnectLock" "fc_control_lock s = None" "s' = connect_locked t s"
  | (connect_dialed) rt r where "fc_pc s t = ConnectDial" "fc_pc s rt = Inactive" "s' = connect_dialed t rt r s"
  | (connect_abort) h where "fc_pc s t = ConnectAbort h" "s' = connect_abort t h s"
  | (connect_spawned) h rt where "fc_pc s t = ConnectSpawn h rt" "s' = connect_spawned t h rt s"
  | (join_gate) c where "fc_pc s t = JoinGate c" "fc_voice_gate s = None" "s' = join_gate t c s"
  | (join_control) c where "fc_pc s t = JoinControl c" "s' = join_control sh t c s"
  | (join_locked) c where "fc_pc s t = JoinLock c" "fc_control_lock s = None" "s' = join_locked sh t c s"
  | (join_discover) c h where "fc_pc s t = JoinDiscover c h" "s' = join_discover sh t c h s"
  | (join_metadata) c h r where "fc_pc s t = JoinMetadata c h" "s' = join_metadata sh t c h r s"
  | (join_response) c h m codec cid g r where "fc_pc s t = JoinHttp c h m codec cid g"
      "s' = join_response sh b64 t c h m codec cid g r s"
  | (join_started) c h codec cid g config reuse r where "fc_pc s t = JoinUdp c h codec cid g config reuse"
      "s' = join_started sh A t c h codec cid g config reuse r s"
  | (join_abort) i where "fc_pc s t = JoinAbort i" "s' = join_abort sh t i s"
  | (join_install) c i reuse where "fc_pc s t = JoinInstall c i reuse" "s' = join_install t c i reuse s"
  | (join_close_previous) c i reuse p where "fc_pc s t = JoinClosePrevious c i reuse p" "free p s"
      "s' = join_close_previous t c i reuse p s"
  | (join_finish) c i reuse where "fc_pc s t = JoinFinish c i reuse" "s' = join_finish sh t c i reuse s"
  | (leave_gate) "fc_pc s t = LeaveGate" "fc_voice_gate s = None" "s' = leave_gate t s"
  | (leave_close) via i r where "fc_pc s t = LeaveClose via i" "free i s" "s' = leave_close t via i r s"
  | (leave_answered) via i closed r where "fc_pc s t = LeaveHttp via i closed"
      "s' = leave_answered t via i closed r s"
  | (handle_close) i r where "fc_pc s t = HandleClose i" "free i s" "s' = handle_close t i r s"
  | (stop_gate) g where "fc_pc s t = StopGate g" "fc_voice_gate s = None" "s' = stop_gate sh t g s"
  | (stop_close) i r where "fc_pc s t = StopClose i" "free i s" "s' = stop_close sh t i r s"
  | (shut_gate) "fc_pc s t = ShutGate" "fc_shutdown_gate s = None" "s' = shut_gate t s"
  | (shut_voice) "fc_pc s t = ShutVoice" "fc_voice_gate s = None" "s' = shut_voice t s"
  | (shut_close) i r where "fc_pc s t = ShutClose i" "free i s" "s' = shut_close t i r s"
  | (shut_control) err where "fc_pc s t = ShutControl err" "fc_control_lock s = None" "s' = shut_control t err s"
  | (shut_close_control) h err where "fc_pc s t = ShutCloseControl h err" "s' = shut_close_control t h err s"
  | (shut_clear) err where "fc_pc s t = ShutClear err" "s' = shut_clear t err s"
  | (shut_tasks) err where "fc_pc s t = ShutTasks err" "s' = shut_tasks t err s"
  | (relay_event) g e where "fc_pc s t = RelayWait" "fc_relay s t = Some g" "s' = relay_event t g e s"
  | (relay_lagged) missed where "fc_pc s t = RelayWait" "s' = relay_lagged missed s"
  | (relay_break) "fc_pc s t = RelayWait" "s' = goto t (Returned Aborted) s"
  | (relay_rejoin) "fc_pc s t = RelayRejoin" "s' = relay_rejoin sh t s"
  | (control_changed) h view where "h < length (fc_controls s)" "cv_status (fc_controls s ! h) \<noteq> CClosed"
      "s' = s\<lparr>fc_controls := (fc_controls s)[h := view]\<rparr>"
  | (worker_ended) i where "i < length (fc_sessions s)" "s' = worker_ends i s"
proof (cases l)
  case (Run u)
  then have r: "run_step sh t s = Some s'" using assms by simp
  show thesis
  proof (cases "fc_pc s t")
    case ConnectLock
    with r show thesis by (auto simp: run_step_def Let_def split: if_splits intro: that(7))
  next
    case (ConnectAbort h)
    with r show thesis by (auto simp: run_step_def Let_def split: if_splits intro: that(9))
  next
    case (ConnectSpawn h rt)
    with r show thesis by (auto simp: run_step_def Let_def split: if_splits intro: that(10))
  next
    case (JoinGate c)
    with r show thesis by (auto simp: run_step_def Let_def split: if_splits intro: that(11))
  next
    case (JoinControl c)
    with r show thesis by (auto simp: run_step_def Let_def split: if_splits intro: that(12))
  next
    case (JoinLock c)
    with r show thesis by (auto simp: run_step_def Let_def split: if_splits intro: that(13))
  next
    case (JoinDiscover c h)
    with r show thesis by (auto simp: run_step_def Let_def split: if_splits intro: that(14))
  next
    case (JoinAbort i)
    with r show thesis by (auto simp: run_step_def Let_def split: if_splits intro: that(18))
  next
    case (JoinInstall c i reuse)
    with r show thesis by (auto simp: run_step_def Let_def split: if_splits intro: that(19))
  next
    case (JoinClosePrevious c i reuse p)
    with r show thesis by (auto simp: run_step_def Let_def split: if_splits intro: that(20))
  next
    case (JoinFinish c i reuse)
    with r show thesis by (auto simp: run_step_def Let_def split: if_splits intro: that(21))
  next
    case LeaveGate
    with r show thesis by (auto simp: run_step_def Let_def split: if_splits intro: that(22))
  next
    case (StopGate g)
    with r show thesis by (auto simp: run_step_def Let_def split: if_splits intro: that(26))
  next
    case ShutGate
    with r show thesis by (auto simp: run_step_def Let_def split: if_splits intro: that(28))
  next
    case ShutVoice
    with r show thesis by (auto simp: run_step_def Let_def split: if_splits intro: that(29))
  next
    case (ShutControl err)
    with r show thesis by (auto simp: run_step_def Let_def split: if_splits intro: that(31))
  next
    case (ShutCloseControl h err)
    with r show thesis by (auto simp: run_step_def Let_def split: if_splits intro: that(32))
  next
    case (ShutClear err)
    with r show thesis by (auto simp: run_step_def Let_def split: if_splits intro: that(33))
  next
    case (ShutTasks err)
    with r show thesis by (auto simp: run_step_def Let_def split: if_splits intro: that(34))
  next
    case RelayRejoin
    with r show thesis by (auto simp: run_step_def Let_def split: if_splits intro: that(38))
  qed (use r in \<open>simp_all add: run_step_def\<close>)
next
  case (GotClosed u r)
  then have r: "closed_step sh t r s = Some s'" using assms by simp
  show thesis
  proof (cases "fc_pc s t")
    case (LeaveClose via i)
    with r show thesis by (auto simp: closed_step_def split: if_splits intro: that(23))
  next
    case (HandleClose i)
    with r show thesis by (auto simp: closed_step_def split: if_splits intro: that(25))
  next
    case (StopClose i)
    with r show thesis by (auto simp: closed_step_def split: if_splits intro: that(27))
  next
    case (ShutClose i)
    with r show thesis by (auto simp: closed_step_def split: if_splits intro: that(30))
  qed (use r in \<open>simp_all add: closed_step_def\<close>)
next
  case (StartConnect u)
  with assms show thesis by (auto split: if_splits pc.splits option.splits intro: that(1))
next
  case (StartJoin u c)
  with assms show thesis by (auto split: if_splits pc.splits option.splits intro: that(2))
next
  case (StartLeave u)
  with assms show thesis by (auto split: if_splits pc.splits option.splits intro: that(3))
next
  case (StartHandleClose u i)
  with assms show thesis by (auto split: if_splits pc.splits option.splits intro: that(4))
next
  case (StartHandleLeave u i)
  with assms show thesis by (auto split: if_splits pc.splits option.splits intro: that(5))
next
  case (StartShutdown u)
  with assms show thesis by (auto split: if_splits pc.splits option.splits intro: that(6))
next
  case (Dialed u rt r)
  with assms show thesis by (auto split: if_splits pc.splits option.splits intro: that(8))
next
  case (GotMetadata u r)
  with assms show thesis by (auto split: if_splits pc.splits option.splits intro: that(15))
next
  case (GotJoin u r)
  with assms show thesis by (auto split: if_splits pc.splits option.splits intro: that(16))
next
  case (GotSocket u r)
  with assms show thesis by (auto split: if_splits pc.splits option.splits intro: that(17))
next
  case (GotLeave u r)
  with assms show thesis by (auto split: if_splits pc.splits option.splits intro: that(24))
next
  case (GotEvent u e)
  with assms show thesis by (auto split: if_splits pc.splits option.splits intro: that(35))
next
  case (GotLagged u k)
  with assms show thesis by (auto split: if_splits pc.splits option.splits intro: that(36))
next
  case (RelayBreak u)
  with assms show thesis by (auto split: if_splits pc.splits option.splits intro: that(37))
next
  case (ControlChanged h view)
  with assms show thesis by (auto split: if_splits pc.splits option.splits intro: that(39))
next
  case (WorkerEnded i)
  with assms show thesis by (auto split: if_splits pc.splits option.splits intro: that(40))
qed


inductive reachable ::
  "(sdk_error \<Rightarrow> string) \<Rightarrow> 'k aead \<Rightarrow> (string \<Rightarrow> bytes option) \<Rightarrow> 'v facade \<Rightarrow> bool"
  for sh A b64 where
  init: "reachable sh A b64 (client_from_api auto_rejoin)"
| step: "reachable sh A b64 s \<Longrightarrow> facade_do sh A b64 l s = Some s' \<Longrightarrow> reachable sh A b64 s'"

lemmas op_defs =
  connect_start_def connect_locked_def connect_dialed_def connect_abort_def connect_spawned_def
  join_start_def join_gate_def join_control_def join_locked_def join_discover_def join_metadata_def
  after_discover_def join_response_def join_started_def join_abort_def join_install_def
  join_close_previous_def join_finish_def leave_start_def leave_gate_def leave_close_def leave_done_def
  leave_answered_def handle_close_start_def handle_close_def handle_leave_start_def stop_gate_def
  stop_close_def shut_gate_def shut_voice_def shut_close_def shut_control_def shut_close_control_def
  shut_clear_def shut_tasks_def relay_event_def relay_lagged_def relay_rejoin_def Let_def facade_simps


section \<open>Locks\<close>

fun gate_pc :: "pc \<Rightarrow> bool" where
  "gate_pc (JoinControl c) = True"
| "gate_pc (JoinLock c) = True"
| "gate_pc (JoinDiscover c h) = True"
| "gate_pc (JoinMetadata c h) = True"
| "gate_pc (JoinHttp c h m codec cid g) = True"
| "gate_pc (JoinUdp c h codec cid g config reuse) = True"
| "gate_pc (JoinAbort i) = True"
| "gate_pc (JoinInstall c i reuse) = True"
| "gate_pc (JoinClosePrevious c i reuse p) = True"
| "gate_pc (JoinFinish c i reuse) = True"
| "gate_pc (LeaveClose via i) = via"
| "gate_pc (LeaveHttp via i closed) = via"
| "gate_pc (StopClose i) = True"
| "gate_pc (ShutClose i) = True"
| "gate_pc _ = False"

fun lock_pc :: "pc \<Rightarrow> bool" where
  "lock_pc ConnectDial = True"
| "lock_pc (ConnectAbort h) = True"
| "lock_pc (ConnectSpawn h rt) = True"
| "lock_pc (ShutCloseControl h err) = True"
| "lock_pc _ = False"

fun shut_pc :: "pc \<Rightarrow> bool" where
  "shut_pc ShutVoice = True"
| "shut_pc (ShutClose i) = True"
| "shut_pc (ShutControl err) = True"
| "shut_pc (ShutCloseControl h err) = True"
| "shut_pc (ShutClear err) = True"
| "shut_pc (ShutTasks err) = True"
| "shut_pc _ = False"

text \<open>Where a relay can be: it never waits in the code of a host call.\<close>

fun relay_pc :: "pc \<Rightarrow> bool" where
  "relay_pc (JoinGate c) = True"
| "relay_pc (JoinControl c) = True"
| "relay_pc (JoinLock c) = True"
| "relay_pc (JoinDiscover c h) = True"
| "relay_pc (JoinMetadata c h) = True"
| "relay_pc (JoinHttp c h m codec cid g) = True"
| "relay_pc (JoinUdp c h codec cid g config reuse) = True"
| "relay_pc (JoinAbort i) = True"
| "relay_pc (JoinInstall c i reuse) = True"
| "relay_pc (JoinClosePrevious c i reuse p) = True"
| "relay_pc (JoinFinish c i reuse) = True"
| "relay_pc (StopGate g) = True"
| "relay_pc (StopClose i) = True"
| "relay_pc RelayWait = True"
| "relay_pc RelayRejoin = True"
| "relay_pc (Returned r) = (r = Aborted)"
| "relay_pc _ = False"

fun relay_only :: "pc \<Rightarrow> bool" where
  "relay_only (StopGate g) = True"
| "relay_only (StopClose i) = True"
| "relay_only RelayWait = True"
| "relay_only RelayRejoin = True"
| "relay_only _ = False"

text \<open>
  Each lock is held by exactly the task that is inside its section, relays are where relays can be, and
  only relays are listed as tasks.
\<close>

definition locks_inv :: "'v facade \<Rightarrow> bool" where
  "locks_inv s \<longleftrightarrow>
     (\<forall>t. (fc_voice_gate s = Some t \<longleftrightarrow> gate_pc (fc_pc s t))
        \<and> (fc_control_lock s = Some t \<longleftrightarrow> lock_pc (fc_pc s t))
        \<and> (fc_shutdown_gate s = Some t \<longleftrightarrow> shut_pc (fc_pc s t)))"

definition relay_inv :: "'v facade \<Rightarrow> bool" where
  "relay_inv s \<longleftrightarrow>
     (\<forall>t. fc_relay s t \<noteq> None \<longrightarrow> relay_pc (fc_pc s t))
     \<and> (\<forall>t. relay_only (fc_pc s t) \<longrightarrow> fc_relay s t \<noteq> None)
     \<and> (\<forall>t \<in> set (fc_tasks s). fc_relay s t \<noteq> None)
     \<and> (\<forall>t h rt. fc_pc s t = ConnectSpawn h rt \<longrightarrow> fc_relay s rt \<noteq> None)"

lemma idle_pc: "idle t s \<Longrightarrow> fc_relay s t = None \<and> (fc_pc s t = Inactive \<or> (\<exists>r. fc_pc s t = Returned r))"
  by (auto simp: idle_def split: pc.splits)

lemma relay_inv_step:
  assumes "facade_do sh A b64 l s = Some s'" "relay_inv s"
  shows "relay_inv s'"
proof -
  define t where "t = actor l"
  have at: "\<not> relay_only (fc_pc s t)" if "fc_relay s t = None" using assms(2) that by (auto simp: relay_inv_def)
  show ?thesis
    using assms(1) t_def [symmetric] assms(2)
    by (cases rule: facade_do_cases; cases "fc_relay s t")
       (use at in \<open>auto simp: relay_inv_def op_defs dest!: idle_pc
         split: if_splits option.splits result.splits prod.splits\<close>)
qed

lemma relay_pc_locks: "relay_pc p \<Longrightarrow> \<not> lock_pc p \<and> \<not> shut_pc p"
  by (cases p) auto

lemma locks_inv_iff:
  assumes "locks_inv s"
  shows "gate_pc (fc_pc s u) \<longleftrightarrow> fc_voice_gate s = Some u"
    "lock_pc (fc_pc s u) \<longleftrightarrow> fc_control_lock s = Some u"
    "shut_pc (fc_pc s u) \<longleftrightarrow> fc_shutdown_gate s = Some u"
  using assms by (simp_all add: locks_inv_def)

lemma locks_inv_step:
  assumes "facade_do sh A b64 l s = Some s'" "relay_inv s" "locks_inv s"
  shows "locks_inv s'"
proof -
  define t where "t = actor l"
  note at = locks_inv_iff [OF assms(3)]
  have others: "gate_pc (fc_pc s u) \<longleftrightarrow> fc_voice_gate s = Some u" "lock_pc (fc_pc s u) \<longleftrightarrow> fc_control_lock s = Some u"
    "shut_pc (fc_pc s u) \<longleftrightarrow> fc_shutdown_gate s = Some u" if "u \<noteq> t" for u
    by (rule at)+
  have tasks: "fc_control_lock s \<noteq> Some u" if "u \<in> set (fc_tasks s)" for u
    using that assms(2) relay_pc_locks at(2) [of u] by (auto simp: relay_inv_def)
  have same: ?thesis if "fc_voice_gate s' = fc_voice_gate s" "fc_control_lock s' = fc_control_lock s"
      "fc_shutdown_gate s' = fc_shutdown_gate s" "fc_pc s' = fc_pc s"
    using that assms(3) by (simp add: locks_inv_def)
  show ?thesis
    using assms(1) t_def [symmetric]
  proof (cases rule: facade_do_cases)
    case (shut_tasks err)
    then show ?thesis
      using at [of t] tasks
      by (auto simp: locks_inv_def op_defs others split: if_splits option.splits)
  next
    case (connect_dialed rt r)
    then show ?thesis
      using at [of t] at [of rt]
      by (auto simp: locks_inv_def op_defs others split: if_splits result.splits)
  next
    case (relay_lagged missed)
    show ?thesis by (rule same) (simp_all add: relay_lagged(2) op_defs)
  next
    case (control_changed h view)
    show ?thesis by (rule same) (simp_all add: control_changed(3))
  next
    case (worker_ended i)
    show ?thesis by (rule same) (simp_all add: worker_ended(2) op_defs)
  qed ((use at [of t] in \<open>auto simp: locks_inv_def op_defs others dest!: idle_pc
      split: if_splits option.splits result.splits prod.splits\<close>)[1])+
qed

end
