(* ===== verification/FacadeOwners.thy ===== *)
theory FacadeOwners
  imports FacadeLocks
begin

text \<open>
  Who owns a running voice worker and an open control handle of the facade machine, and what it means for
  its parts to be down. The invariants are preserved by every step.
\<close>

section \<open>Owners of sessions and control handles\<close>

fun owns :: "pc \<Rightarrow> nat \<Rightarrow> bool" where
  "owns (JoinAbort j) i = (i = j)"
| "owns (JoinInstall c j reuse) i = (i = j)"
| "owns (JoinClosePrevious c j reuse p) i = (i = p)"
| "owns (LeaveClose via j) i = (via \<and> i = j)"
| "owns (StopClose j) i = (i = j)"
| "owns (ShutClose j) i = (i = j)"
| "owns _ i = False"

fun owns_control :: "pc \<Rightarrow> nat \<Rightarrow> bool" where
  "owns_control (ConnectAbort g) h = (h = g)"
| "owns_control (ConnectSpawn g rt) h = (h = g)"
| "owns_control (ShutCloseControl g err) h = (h = g)"
| "owns_control _ h = False"

text \<open>The sessions a task refers to.\<close>

fun session_refs :: "pc \<Rightarrow> nat set" where
  "session_refs (JoinAbort i) = {i}"
| "session_refs (JoinInstall c i reuse) = {i}"
| "session_refs (JoinClosePrevious c i reuse p) = {i, p}"
| "session_refs (JoinFinish c i reuse) = {i}"
| "session_refs (LeaveClose via i) = {i}"
| "session_refs (LeaveHttp via i closed) = {i}"
| "session_refs (HandleClose i) = {i}"
| "session_refs (StopClose i) = {i}"
| "session_refs (ShutClose i) = {i}"
| "session_refs _ = {}"

definition index_inv :: "'v facade \<Rightarrow> bool" where
  "index_inv s \<longleftrightarrow>
     (\<forall>t. \<forall>i \<in> session_refs (fc_pc s t). i < length (fc_sessions s))
     \<and> (\<forall>i. fc_voice s = Some i \<longrightarrow> i < length (fc_sessions s))"

definition left_inv :: "'v facade \<Rightarrow> bool" where
  "left_inv s \<longleftrightarrow>
     (\<forall>i < length (fc_sessions s). vh_left (fc_sessions s ! i) \<longrightarrow> \<not> vh_open (fc_sessions s ! i))
     \<and> (\<forall>t via i closed. fc_pc s t = LeaveHttp via i closed \<longrightarrow> \<not> vh_open (fc_sessions s ! i))"

text \<open>The task that took the current session out of its slot.\<close>

fun empties :: "pc \<Rightarrow> bool" where
  "empties (LeaveClose via i) = via"
| "empties (LeaveHttp via i closed) = via"
| "empties (StopClose i) = True"
| "empties (ShutClose i) = True"
| "empties _ = False"

text \<open>
  A running worker belongs to the current session or to the task in the voice section; an open control
  handle is the current one or belongs to the task that holds its lock. The shutting-down task has
  emptied the slot whose content it closes.
\<close>

definition held_by :: "nat option \<Rightarrow> (nat \<Rightarrow> pc) \<Rightarrow> (pc \<Rightarrow> bool) \<Rightarrow> bool" where
  "held_by lock pcs P = (case lock of None \<Rightarrow> False | Some t \<Rightarrow> P (pcs t))"

definition voice_owned :: "'v facade \<Rightarrow> bool" where
  "voice_owned s \<longleftrightarrow>
     (\<forall>i < length (fc_sessions s). vh_open (fc_sessions s ! i) \<longrightarrow>
        fc_voice s = Some i \<or> held_by (fc_voice_gate s) (fc_pc s) (\<lambda>p. owns p i))
     \<and> (held_by (fc_voice_gate s) (fc_pc s) empties \<longrightarrow> fc_voice s = None)"

definition control_owned :: "'v facade \<Rightarrow> bool" where
  "control_owned s \<longleftrightarrow>
     (\<forall>h < length (fc_controls s). cv_status (fc_controls s ! h) \<noteq> CClosed \<longrightarrow>
        fc_control s = Some h \<or> held_by (fc_control_lock s) (fc_pc s) (\<lambda>p. owns_control p h))
     \<and> (fc_control_lock s \<noteq> None \<longrightarrow> fc_control s = None)"

fun late_pc :: "pc \<Rightarrow> bool" where
  "late_pc (JoinControl c) = False"
| "late_pc p = gate_pc p"

definition voice_down :: "'v facade \<Rightarrow> bool" where
  "voice_down s \<longleftrightarrow>
     fc_voice s = None \<and> (\<forall>i < length (fc_sessions s). \<not> vh_open (fc_sessions s ! i))
     \<and> \<not> held_by (fc_voice_gate s) (fc_pc s) late_pc"

definition control_down :: "'v facade \<Rightarrow> bool" where
  "control_down s \<longleftrightarrow>
     fc_control s = None
     \<and> (\<forall>h < length (fc_controls s). cv_status (fc_controls s ! h) \<noteq> CClosed \<longrightarrow>
          held_by (fc_control_lock s) (fc_pc s) (\<lambda>p. p = ConnectAbort h))
     \<and> \<not> held_by (fc_control_lock s) (fc_pc s) (\<lambda>p. \<exists>h rt. p = ConnectSpawn h rt)"

definition cleared :: "'v facade \<Rightarrow> bool" where
  "cleared s \<longleftrightarrow> fc_keys s = Map.empty \<and> fc_intent s = None \<and> \<not> fc_state_installed s"

text \<open>How far the shutdown is: 0 when none is running.\<close>

fun shut_rank :: "pc \<Rightarrow> nat" where
  "shut_rank ShutVoice = 1"
| "shut_rank (ShutClose i) = 1"
| "shut_rank (ShutControl err) = 2"
| "shut_rank (ShutCloseControl h err) = 2"
| "shut_rank (ShutClear err) = 3"
| "shut_rank (ShutTasks err) = 4"
| "shut_rank _ = 0"

definition phase :: "'v facade \<Rightarrow> nat" where
  "phase s = (case fc_shutdown_gate s of None \<Rightarrow> 0 | Some t \<Rightarrow> shut_rank (fc_pc s t))"

lemma held_by_simps [simp]:
  "held_by None pcs P = False" "held_by (Some t) pcs P = P (pcs t)"
  by (simp_all add: held_by_def)

text \<open>What the acting task knows about the locks.\<close>

lemma not_holder:
  assumes "locks_inv s"
  shows "\<not> gate_pc (fc_pc s t) \<Longrightarrow> fc_voice_gate s \<noteq> Some t"
    "\<not> lock_pc (fc_pc s t) \<Longrightarrow> fc_control_lock s \<noteq> Some t"
    "\<not> shut_pc (fc_pc s t) \<Longrightarrow> fc_shutdown_gate s \<noteq> Some t"
  using locks_inv_iff [OF assms, of t] by auto

lemma held_by_upd:
  "lock \<noteq> Some t \<Longrightarrow> held_by lock (pcs(t := p)) P = held_by lock pcs P"
  by (cases lock) auto

lemma open_after [facade_simps]:
  "j < length xs \<Longrightarrow> vh_open (xs[i := (xs ! i)\<lparr>vh_open := False\<rparr>] ! j) \<longleftrightarrow> j \<noteq> i \<and> vh_open (xs ! j)"
  "j < length xs \<Longrightarrow> vh_open (xs[i := (xs ! i)\<lparr>vh_left := b, vh_teardown := o'\<rparr>] ! j) = vh_open (xs ! j)"
  "j < length xs \<Longrightarrow> vh_open (xs[i := (xs ! i)\<lparr>vh_teardown := o'\<rparr>] ! j) = vh_open (xs ! j)"
  "j < length xs \<Longrightarrow> vh_left (xs[i := (xs ! i)\<lparr>vh_open := False\<rparr>] ! j) = vh_left (xs ! j)"
  "j < length xs \<Longrightarrow> vh_left (xs[i := (xs ! i)\<lparr>vh_left := b, vh_teardown := o'\<rparr>] ! j) = (if j = i then b else vh_left (xs ! j))"
  "j < length xs \<Longrightarrow> vh_left (xs[i := (xs ! i)\<lparr>vh_teardown := o'\<rparr>] ! j) = vh_left (xs ! j)"
  by (cases "i < length xs"; auto simp: nth_list_update)+

lemmas step_defs = op_defs open_after held_by_upd nth_append

lemma index_bound:
  assumes "index_inv s"
  shows "i \<in> session_refs (fc_pc s t) \<Longrightarrow> i < length (fc_sessions s)"
    and "fc_voice s = Some i \<Longrightarrow> i < length (fc_sessions s)"
  using assms by (auto simp: index_inv_def)

text \<open>Starting the UDP session fails, or adds a running session that the task aborts or installs.\<close>

lemma join_started_cases:
  obtains (failed) e k where
    "join_started sh A t c h codec cid g config reuse r s = fail_join sh t e (s\<lparr>fc_keys := k\<rparr>)"
  | (added) p k handle where
    "join_started sh A t c h codec cid g config reuse r s
     = goto t p (s\<lparr>fc_keys := k, fc_sessions := fc_sessions s @ [handle]\<rparr>)"
    "p = JoinAbort (length (fc_sessions s))
     \<or> p = JoinInstall c (length (fc_sessions s)) reuse \<and> \<not> fc_stopped s \<and> fc_generation s = g
       \<and> cv_id (fc_controls s ! h) = Some cid"
    "vh_open handle" "\<not> vh_left handle" "vh_session_id handle = vc_session_id config"
proof (cases r)
  case (Err e)
  then show thesis using failed [of "SVoice e" "fc_keys s"] by (simp add: join_started_def)
next
  case (Ok x)
  obtain io now where x: "x = (io, now)" by fastforce
  obtain cache started where st: "session_start A config (Some (fc_keys s)) io now = (cache, started)" by fastforce
  show thesis
  proof (cases started)
    case started: (Err e)
    show thesis by (rule failed) (simp add: join_started_def Ok x st started)
  next
    case started: (Ok y)
    let ?handle = "\<lparr>vh_channel_id = jc_channel_id c, vh_codec = codec,
      vh_session_id = vc_session_id config, vh_control = h, vh_generation = g,
      vh_open = True, vh_left = False, vh_teardown = None\<rparr>"
    show thesis
      by (rule added [where p = "if fc_stopped s \<or> fc_generation s \<noteq> g \<or> cv_id (fc_controls s ! h) \<noteq> Some cid
              then JoinAbort (length (fc_sessions s)) else JoinInstall c (length (fc_sessions s)) reuse"
            and k = "case cache of Some k \<Rightarrow> k | None \<Rightarrow> fc_keys s" and handle = ?handle])
         (auto simp: join_started_def Ok x st started Let_def)
  qed
qed

lemma index_inv_step:
  assumes "facade_do sh A b64 l s = Some s'" "index_inv s"
  shows "index_inv s'"
proof -
  define t where "t = actor l"
  have at: "\<forall>i \<in> session_refs (fc_pc s t). i < length (fc_sessions s)"
    using index_bound(1) [OF assms(2)] by blast
  from assms(1) t_def [symmetric] show ?thesis
  proof (cases rule: facade_do_cases)
    case (join_started c h codec cid g config reuse r)
    show ?thesis
      by (rule join_started_cases [of sh A t c h codec cid g config reuse r s])
         (auto simp: join_started(2) index_inv_def step_defs intro: less_SucI dest: index_bound [OF assms(2)])
  qed ((use at in \<open>auto simp: index_inv_def step_defs dest!: idle_pc dest: index_bound [OF assms(2)]
      split: if_splits option.splits result.splits prod.splits\<close>)[1])+
qed

lemma left_inv_step:
  assumes "facade_do sh A b64 l s = Some s'" "index_inv s" "left_inv s"
  shows "left_inv s'"
proof -
  define t where "t = actor l"
  have at: "\<forall>i \<in> session_refs (fc_pc s t). i < length (fc_sessions s)"
    using index_bound(1) [OF assms(2)] by blast
  have refs: "i < length (fc_sessions s) \<and> \<not> vh_open (fc_sessions s ! i)"
    if "fc_pc s u = LeaveHttp via i closed" for u via i closed
    using that index_bound(1) [OF assms(2), of i u] assms(3) unfolding left_inv_def by simp blast
  have closed: "\<not> vh_open (fc_sessions s ! i)" if "i < length (fc_sessions s)" "vh_left (fc_sessions s ! i)" for i
    using that assms(3) by (simp add: left_inv_def)
  from assms(1) t_def [symmetric] show ?thesis
  proof (cases rule: facade_do_cases)
    case (leave_close via i r)
    with at show ?thesis
      by (auto simp: left_inv_def op_defs nth_list_update dest!: refs dest: closed split: if_splits option.splits)
  next
    case (join_started c h codec cid g config reuse r)
    show ?thesis
      by (rule join_started_cases [of sh A t c h codec cid g config reuse r s])
         (auto simp: join_started(2) left_inv_def step_defs less_Suc_eq dest!: refs dest: closed)
  qed ((use at in \<open>auto simp: left_inv_def step_defs less_Suc_eq simp del: list_update_overwrite
      dest!: idle_pc refs dest: closed split: if_splits option.splits result.splits prod.splits\<close>)[1])+
qed

lemma voice_owned_step:
  assumes "facade_do sh A b64 l s = Some s'" "locks_inv s" "index_inv s" "left_inv s" "voice_owned s"
    and "phase s = 4 \<Longrightarrow> voice_down s"
  shows "voice_owned s'"
proof -
  define t where "t = actor l"
  note at = locks_inv_iff [OF assms(2)]
  from assms(1) t_def [symmetric] show ?thesis
  proof (cases rule: facade_do_cases)
    case (shut_tasks err)
    then have "fc_shutdown_gate s = Some t" using at(3) [of t] by simp
    then have "voice_down s" using assms(6) shut_tasks by (simp add: phase_def)
    then show ?thesis
      using shut_tasks
      by (auto simp: voice_owned_def voice_down_def op_defs held_by_def split: option.splits if_splits)
  next
    case (connect_dialed rt r)
    then show ?thesis
      using assms(5) at(1) [of t] at(1) [of rt]
      by (auto simp: voice_owned_def step_defs split: if_splits result.splits)
  next
    case (leave_close via i r)
    then have "i < length (fc_sessions s)" using index_bound(1) [OF assms(3), of i t] by simp
    moreover from this have "vh_left (fc_sessions s ! i) \<longrightarrow> \<not> vh_open (fc_sessions s ! i)"
      using assms(4) by (simp add: left_inv_def)
    ultimately have "length (fc_sessions s') = length (fc_sessions s)"
      "\<forall>j < length (fc_sessions s'). vh_open (fc_sessions s' ! j) \<longrightarrow> vh_open (fc_sessions s ! j) \<and> j \<noteq> i"
      using leave_close by (auto simp: op_defs nth_list_update split: option.splits)
    moreover have "if via then fc_voice_gate s = Some t \<and> fc_voice s = None
          \<and> (fc_voice_gate s' = None \<or> fc_voice_gate s' = Some t \<and> fc_voice s' = None)
        else fc_voice_gate s \<noteq> Some t \<and> fc_voice_gate s' = fc_voice_gate s \<and> fc_voice s' = fc_voice s
          \<and> (\<exists>p. fc_pc s' = (fc_pc s)(t := p))"
      using leave_close assms(5) at(1) [of t]
      by (auto simp: voice_owned_def op_defs split: option.splits)
    ultimately show ?thesis
      using assms(5) leave_close(1)
      by (cases via) (auto simp: voice_owned_def held_by_upd)
  next
    case (join_started c h codec cid g config reuse r)
    show ?thesis
      by (rule join_started_cases [of sh A t c h codec cid g config reuse r s])
         (use assms(5) at(1) [of t] in
           \<open>auto simp: join_started voice_owned_def step_defs less_Suc_eq split: if_splits\<close>)
  qed ((use assms(5) at(1) [of t] in \<open>auto simp: voice_owned_def step_defs less_Suc_eq simp del: list_update_overwrite
      dest!: idle_pc split: if_splits option.splits result.splits prod.splits\<close>)[1])+
qed


lemma status_after [facade_simps]:
  "j < length xs \<Longrightarrow> cv_status (xs[h := (xs ! h)\<lparr>cv_status := CClosed\<rparr>] ! j)
     = (if j = h then CClosed else cv_status (xs ! j))"
  by (cases "h < length xs") (auto simp: nth_list_update)

lemma control_owned_step:
  assumes "facade_do sh A b64 l s = Some s'" "relay_inv s" "locks_inv s" "control_owned s"
  shows "control_owned s'"
proof -
  define t where "t = actor l"
  note at = locks_inv_iff [OF assms(3)]
  have tasks: "fc_control_lock s \<noteq> Some u" if "u \<in> set (fc_tasks s)" for u
    using that assms(2) relay_pc_locks at(2) [of u] by (auto simp: relay_inv_def)
  from assms(1) t_def [symmetric] show ?thesis
  proof (cases rule: facade_do_cases)
    case (shut_tasks err)
    then have "fc_control_lock s \<noteq> Some t" using at(2) [of t] by simp
    then have "held_by (fc_control_lock s) (fc_pc s') P = held_by (fc_control_lock s) (fc_pc s) P" for P
      using shut_tasks tasks by (cases "fc_control_lock s") (auto simp: op_defs)
    then show ?thesis using shut_tasks assms(4) by (simp add: control_owned_def op_defs)
  next
    case (connect_dialed rt r)
    then show ?thesis
      using assms(4) at(2) [of t] at(2) [of rt]
      by (auto simp: control_owned_def step_defs less_Suc_eq split: if_splits result.splits)
  next
    case (control_changed h view)
    then show ?thesis using assms(4) by (auto simp: control_owned_def nth_list_update split: if_splits)
  qed ((use assms(4) at(2) [of t] in \<open>auto simp: control_owned_def step_defs status_after less_Suc_eq
      dest!: idle_pc split: if_splits option.splits result.splits prod.splits\<close>)[1])+
qed

end
