(* ===== verification/FacadeLaws.thy ===== *)
theory FacadeLaws
  imports FacadeOwners
begin

text \<open>
  What holds of the facade over all interleavings of its calls: a shutdown that has returned is final.
\<close>

section \<open>Parts that are down stay down\<close>

lemma voice_down_stable:
  assumes "facade_do sh A b64 l s = Some s'" "locks_inv s" "fc_stopped s" "voice_down s"
  shows "voice_down s'"
proof -
  define t where "t = actor l"
  note at = locks_inv_iff [OF assms(2)]
  have late: "\<not> late_pc (fc_pc s t)"
    using assms(4) at(1) [of t] by (cases "fc_pc s t") (auto simp: voice_down_def)
  from assms(1) t_def [symmetric] show ?thesis
  proof (cases rule: facade_do_cases)
    case (shut_tasks err)
    then show ?thesis
      using assms(4) at(1) [of t]
      by (auto simp: voice_down_def op_defs held_by_def split: option.splits)
  next
    case (connect_dialed rt r)
    then show ?thesis
      using assms(3,4) at(1) [of t] at(1) [of rt]
      by (auto simp: voice_down_def step_defs split: if_splits result.splits)
  qed ((use assms(3,4) late at(1) [of t] in \<open>auto simp: voice_down_def step_defs simp del: list_update_overwrite
      dest!: idle_pc split: if_splits option.splits result.splits prod.splits\<close>)[1])+
qed

lemma control_down_stable:
  assumes "facade_do sh A b64 l s = Some s'" "relay_inv s" "locks_inv s" "fc_stopped s" "control_down s"
  shows "control_down s'"
proof -
  define t where "t = actor l"
  note at = locks_inv_iff [OF assms(3)]
  have tasks: "fc_control_lock s \<noteq> Some u" if "u \<in> set (fc_tasks s)" for u
    using that assms(2) relay_pc_locks at(2) [of u] by (auto simp: relay_inv_def)
  from assms(1) t_def [symmetric] show ?thesis
  proof (cases rule: facade_do_cases)
    case (shut_tasks err)
    then have "fc_control_lock s \<noteq> Some t" using at(2) [of t] by simp
    then have "held_by (fc_control_lock s) (fc_pc s') P = held_by (fc_control_lock s) (fc_pc s) P" for P
      using shut_tasks tasks by (cases "fc_control_lock s") (auto simp: op_defs)
    then show ?thesis using shut_tasks assms(5) by (simp add: control_down_def op_defs)
  next
    case (control_changed h view)
    then show ?thesis using assms(5) by (auto simp: control_down_def nth_list_update split: if_splits)
  qed ((use assms(4,5) at(2) [of t] in \<open>auto simp: control_down_def step_defs status_after less_Suc_eq
      dest!: idle_pc split: if_splits option.splits result.splits prod.splits\<close>)[1])+
qed


lemma cleared_fields [facade_simps]:
  "fc_intent s = None \<Longrightarrow> fc_intent (clear_own_intent i s) = None"
  "fc_intent s = None \<Longrightarrow> fc_intent (finish_join sh t r s) = None"
  "fc_intent s = None \<Longrightarrow> fc_intent (fail_join sh t e s) = None"
  "fc_keys s = Map.empty \<Longrightarrow> fc_keys (worker_ends i s) = Map.empty"
  "fc_keys s = Map.empty \<Longrightarrow> fc_keys (stop_transport i s) = Map.empty"
  by (auto simp: clear_own_intent_def finish_join_def fail_join_def clear_voice_intent_def stop_transport_def
      worker_ends_def remove_key_def set_session_def cache_remove_def finish_call_fields
      split: option.splits result.splits)

lemma cleared_stable:
  assumes "facade_do sh A b64 l s = Some s'" "locks_inv s" "fc_stopped s" "voice_down s" "cleared s"
  shows "cleared s'"
proof -
  define t where "t = actor l"
  have late: "\<not> late_pc (fc_pc s t)"
    using assms(4) locks_inv_iff(1) [OF assms(2), of t] by (cases "fc_pc s t") (auto simp: voice_down_def)
  from assms(1) t_def [symmetric] show ?thesis
    by (cases rule: facade_do_cases;
        use assms(3,4,5) late in \<open>auto simp: cleared_def voice_down_def step_defs cleared_fields cache_remove_def
          cache_clear_def split: if_splits option.splits result.splits\<close>)
qed


section \<open>The shutdown\<close>

definition down_inv :: "'v facade \<Rightarrow> bool" where
  "down_inv s \<longleftrightarrow>
     (fc_shutdown_gate s \<noteq> None \<longrightarrow> fc_stopped s)
     \<and> (fc_stopped s \<longrightarrow> phase s = 1 \<or> voice_down s)
     \<and> (fc_stopped s \<longrightarrow> phase s \<in> {1, 2} \<or> control_down s)
     \<and> (fc_stopped s \<longrightarrow> phase s \<in> {1, 2, 3} \<or> cleared s)
     \<and> (fc_stopped s \<longrightarrow> phase s \<noteq> 0 \<or> fc_tasks s = [])
     \<and> (\<forall>t r. fc_pc s t = Returned (ShutdownResult r) \<longrightarrow> fc_stopped s \<and> fc_shutdown_gate s = None)"

lemma tasks_stable:
  assumes "facade_do sh A b64 l s = Some s'" "locks_inv s" "control_down s" "fc_tasks s = []"
  shows "fc_tasks s' = []"
proof -
  define t where "t = actor l"
  from assms(1) t_def [symmetric] show ?thesis
    by (cases rule: facade_do_cases;
        use assms(3,4) locks_inv_iff(2) [OF assms(2), of t] in \<open>auto simp: control_down_def step_defs
          split: if_splits option.splits result.splits prod.splits\<close>)
qed

text \<open>A step that leaves the shutdown where it is.\<close>

definition same_shutdown :: "'v facade \<Rightarrow> 'v facade \<Rightarrow> bool" where
  "same_shutdown s s' \<longleftrightarrow>
     phase s' = phase s \<and> fc_stopped s' = fc_stopped s \<and> fc_shutdown_gate s' = fc_shutdown_gate s
     \<and> (\<forall>t r. fc_pc s' t = Returned (ShutdownResult r) \<longrightarrow> fc_pc s t = Returned (ShutdownResult r))"

lemma phase_upd: "fc_shutdown_gate s \<noteq> Some t \<Longrightarrow> fc_pc s' = (fc_pc s)(t := p)
    \<Longrightarrow> fc_shutdown_gate s' = fc_shutdown_gate s \<Longrightarrow> phase s' = phase s"
  by (auto simp: phase_def split: option.splits)

lemma down_inv_frame:
  assumes "facade_do sh A b64 l s = Some s'" "relay_inv s" "locks_inv s" "down_inv s" "same_shutdown s s'"
  shows "down_inv s'"
proof -
  have "fc_stopped s' \<longrightarrow> phase s' \<noteq> 0 \<or> fc_tasks s' = []"
    using assms(4,5) tasks_stable [OF assms(1,3)] by (auto simp: down_inv_def same_shutdown_def)
  moreover have "fc_stopped s' \<longrightarrow> phase s' \<in> {1, 2, 3} \<or> cleared s'"
    using assms(4,5) cleared_stable [OF assms(1,3)] by (auto simp: down_inv_def same_shutdown_def)
  ultimately show ?thesis
    using assms(4,5) voice_down_stable [OF assms(1,3)] control_down_stable [OF assms(1-3)]
    unfolding down_inv_def same_shutdown_def by metis
qed

lemma down_inv_step:
  assumes "facade_do sh A b64 l s = Some s'" "relay_inv s" "locks_inv s" "voice_owned s" "control_owned s" "down_inv s"
  shows "down_inv s'"
proof -
  define t where "t = actor l"
  note at = locks_inv_iff [OF assms(3)]
  note frame = down_inv_frame [OF assms(1,2,3,6)]
  note inv = assms(6) [unfolded down_inv_def]
  from assms(1) t_def [symmetric] show ?thesis
  proof (cases rule: facade_do_cases)
    case shut_gate
    show ?thesis
    proof (cases "fc_stopped s")
      case True
      then have "s' = goto t (Returned (ShutdownResult (Ok ()))) s" using shut_gate by (simp add: shut_gate_def)
      moreover have "fc_shutdown_gate s = None" using shut_gate by simp
      ultimately show ?thesis
        using True inv voice_down_stable [OF assms(1,3) True] control_down_stable [OF assms(1-3) True]
          cleared_stable [OF assms(1,3) True] tasks_stable [OF assms(1,3)]
        by (auto simp: down_inv_def phase_def facade_simps)
    next
      case False
      then have "s' = goto t ShutVoice (s\<lparr>fc_stopped := True, fc_shutdown_gate := Some t\<rparr>)"
        using shut_gate by (simp add: shut_gate_def)
      then show ?thesis using False inv by (auto simp: down_inv_def phase_def facade_simps)
    qed
  next
    case shut_voice
    then have st: "fc_shutdown_gate s = Some t" "fc_stopped s" using at(3) [of t] inv by auto
    show ?thesis
    proof (cases "fc_voice s")
      case None
      have "voice_down s'"
        using shut_voice None assms(4) by (auto simp: voice_down_def voice_owned_def op_defs)
      then show ?thesis using None shut_voice st inv by (auto simp: down_inv_def phase_def op_defs)
    next
      case (Some i)
      then show ?thesis using shut_voice st inv by (auto simp: down_inv_def phase_def op_defs)
    qed
  next
    case (shut_close i r)
    then have st: "fc_shutdown_gate s = Some t" "fc_stopped s" "fc_voice_gate s = Some t"
      using at [of t] inv by auto
    have "voice_down s'"
      using shut_close st assms(4) by (auto simp: voice_down_def voice_owned_def step_defs)
    then show ?thesis using shut_close st inv by (auto simp: down_inv_def phase_def op_defs)
  next
    case (shut_control err)
    then have st: "fc_shutdown_gate s = Some t" "fc_stopped s" using at(3) [of t] inv by auto
    then have "voice_down s'" using voice_down_stable [OF assms(1,3)] inv shut_control by (auto simp: phase_def)
    moreover have "control_down s'" if "fc_control s = None"
      using shut_control that assms(5) by (auto simp: control_down_def control_owned_def op_defs)
    ultimately show ?thesis
      using shut_control st inv by (cases "fc_control s") (auto simp: down_inv_def phase_def op_defs)
  next
    case (shut_close_control h err)
    then have st: "fc_shutdown_gate s = Some t" "fc_stopped s" "fc_control_lock s = Some t"
      using at [of t] inv by auto
    then have "voice_down s'" using voice_down_stable [OF assms(1,3)] inv shut_close_control by (auto simp: phase_def)
    moreover have "control_down s'"
      using shut_close_control st assms(5) by (auto simp: control_down_def control_owned_def step_defs status_after)
    ultimately show ?thesis using shut_close_control st inv by (auto simp: down_inv_def phase_def op_defs)
  next
    case (shut_clear err)
    then have st: "fc_shutdown_gate s = Some t" "fc_stopped s" using at(3) [of t] inv by auto
    then have "voice_down s'" "control_down s'"
      using voice_down_stable [OF assms(1,3)] control_down_stable [OF assms(1-3)] inv shut_clear
      by (auto simp: phase_def)
    moreover have "cleared s'" using shut_clear by (simp add: cleared_def op_defs cache_clear_def)
    ultimately show ?thesis using shut_clear st inv by (auto simp: down_inv_def phase_def op_defs)
  next
    case (shut_tasks err)
    then have st: "fc_shutdown_gate s = Some t" "fc_stopped s" using at(3) [of t] inv by auto
    then have "voice_down s'" "control_down s'" "cleared s'"
      using voice_down_stable [OF assms(1,3)] control_down_stable [OF assms(1-3)]
        cleared_stable [OF assms(1,3)] inv shut_tasks
      by (auto simp: phase_def)
    then show ?thesis using shut_tasks st by (auto simp: down_inv_def phase_def op_defs)
  next
    case (connect_dialed rt r)
    then have "same_shutdown s s'"
      using at(3) [of t] at(3) [of rt]
      by (auto simp: same_shutdown_def op_defs phase_def split: if_splits result.splits option.splits)
    then show ?thesis by (rule frame)
  next
    case (relay_lagged missed)
    show ?thesis by (rule frame) (simp add: relay_lagged same_shutdown_def op_defs phase_def split: option.split)
  next
    case (control_changed h view)
    show ?thesis by (rule frame) (simp add: control_changed same_shutdown_def op_defs phase_def split: option.split)
  next
    case (worker_ended i)
    show ?thesis by (rule frame) (simp add: worker_ended same_shutdown_def op_defs phase_def split: option.split)
  qed ((rule frame, use at(3) [of t] in \<open>auto simp: same_shutdown_def op_defs dest!: idle_pc intro: phase_upd
      split: if_splits option.splits result.splits prod.splits\<close>)[1])+
qed


definition facade_inv :: "'v facade \<Rightarrow> bool" where
  "facade_inv s \<longleftrightarrow> relay_inv s \<and> locks_inv s \<and> index_inv s \<and> left_inv s \<and> voice_owned s
     \<and> control_owned s \<and> down_inv s"

lemma phase_4_down: "locks_inv s \<Longrightarrow> down_inv s \<Longrightarrow> phase s = 4 \<Longrightarrow> voice_down s"
  by (auto simp: down_inv_def phase_def split: option.splits)

lemma facade_inv_step: "facade_do sh A b64 l s = Some s' \<Longrightarrow> facade_inv s \<Longrightarrow> facade_inv s'"
  unfolding facade_inv_def
  by (intro conjI) (blast intro: relay_inv_step locks_inv_step index_inv_step left_inv_step
      voice_owned_step control_owned_step down_inv_step phase_4_down)+

lemma facade_inv_init: "facade_inv (client_from_api auto_rejoin)"
  by (simp add: facade_inv_def client_from_api_def relay_inv_def locks_inv_def index_inv_def left_inv_def
      voice_owned_def control_owned_def down_inv_def)

lemma reachable_inv: "reachable sh A b64 s \<Longrightarrow> facade_inv s"
  by (induction rule: reachable.induct) (auto intro: facade_inv_init facade_inv_step)




section \<open>Runs of the machine\<close>

fun facade_run ::
  "(sdk_error \<Rightarrow> string) \<Rightarrow> 'k aead \<Rightarrow> (string \<Rightarrow> bytes option) \<Rightarrow> 'v label list \<Rightarrow> 'v facade \<Rightarrow> 'v facade option" where
  "facade_run sh A b64 [] s = Some s"
| "facade_run sh A b64 (l # ls) s = Option.bind (facade_do sh A b64 l s) (facade_run sh A b64 ls)"

lemma run_reachable:
  "facade_run sh A b64 ls s = Some s' \<Longrightarrow> reachable sh A b64 s \<Longrightarrow> reachable sh A b64 s'"
  by (induction ls arbitrary: s) (auto simp: bind_eq_Some_conv intro: reachable.step)

definition sample_control :: control_view where
  "sample_control = \<lparr>cv_status = CLive, cv_id = Some (FixedId (replicate 15 0 @ [9]))\<rparr>"

definition sample_call :: join_call where
  "sample_call = \<lparr>jc_channel_id = Snowflake 7,
     jc_request = \<lparr>vj_device_id = None, vj_force_new = False, vj_expected_voice_session_id = None\<rparr>\<rparr>"

definition no_text :: "sdk_error \<Rightarrow> string" where
  "no_text e = []"

definition sample_run :: "unit label list \<Rightarrow> unit facade option" where
  "sample_run ls = facade_run no_text tag_cipher sample_b64 ls (client_from_api True)"

text \<open>Task 0 connects, its relay is task 1, and task 2 joins a voice channel.\<close>

definition joined_labels :: "unit label list" where
  "joined_labels =
     [StartConnect 0, Run 0, Dialed 0 1 (Ok sample_control), Run 0,
      StartJoin 2 sample_call, Run 2, Run 2, Run 2, Run 2, GotMetadata 2 (Ok sample_metadata),
      GotJoin 2 (Ok sample_join), GotSocket 2 (Ok (Written, 0)), Run 2, Run 2]"

definition shutdown_labels :: "nat \<Rightarrow> unit label list" where
  "shutdown_labels t = [StartShutdown t, Run t, Run t, GotClosed t (Ok ()), Run t, Run t, Run t, Run t]"

definition has_shut :: "nat \<Rightarrow> 'v facade \<Rightarrow> bool" where
  "has_shut t s = (case fc_pc s t of Returned (ShutdownResult (Ok _)) \<Rightarrow> True | _ \<Rightarrow> False)"

lemma has_shutE: "has_shut t s \<Longrightarrow> \<exists>r. fc_pc s t = Returned (ShutdownResult r)"
  by (auto simp: has_shut_def split: pc.splits call_result.splits)

lemma sample_run_reachable: "sample_run ls = Some s \<Longrightarrow> reachable no_text tag_cipher sample_b64 s"
  unfolding sample_run_def using run_reachable [OF _ reachable.init] by blast



section \<open>Two gaps\<close>

text \<open>
  Dropping the future of a shutdown call releases the locks it holds and forgets the rest of it. The flag
  that it has set stays set.
\<close>

definition cancel_shutdown :: "nat \<Rightarrow> 'v facade \<Rightarrow> 'v facade" where
  "cancel_shutdown t s =
     (let release = (\<lambda>lock. if lock = Some t then None else lock)
      in goto t (Returned Aborted)
           (s\<lparr>fc_shutdown_gate := release (fc_shutdown_gate s), fc_voice_gate := release (fc_voice_gate s),
              fc_control_lock := release (fc_control_lock s)\<rparr>))"


text \<open>
  The control connection reconnects: the relay stops the session, then sees \<open>Live\<close> again and reads the
  remembered intent. Before it takes the voice gate, task 4 leaves.
\<close>

definition reconnect_labels :: "unit label list" where
  "reconnect_labels =
     [GotEvent 1 (StatusChanged CReconnecting), Run 1, GotClosed 1 (Ok ()),
      GotEvent 1 (StatusChanged CLive), Run 1]"

definition rejoin_labels :: "unit label list" where
  "rejoin_labels =
     [Run 1, Run 1, Run 1, Run 1, GotJoin 1 (Ok sample_join), GotSocket 1 (Ok (Written, 0)), Run 1, Run 1]"

definition has_left :: "nat \<Rightarrow> 'v facade \<Rightarrow> bool" where
  "has_left t s = (case fc_pc s t of Returned (LeaveResult (Ok _)) \<Rightarrow> True | _ \<Rightarrow> False)"


end
