(* ===== verification/FacadeProgress.thy ===== *)
theory FacadeProgress
  imports FacadeLaws
begin

text \<open>
  The facade machine does not block: its locks are taken in a fixed order, so a call that waits always
  waits for one that can go on, and every call ends after a bounded number of its own steps.
\<close>

section \<open>Waiting\<close>

text \<open>The steps that calls in progress take when the network answers; no new call, no new event.\<close>

fun proceeds :: "'v label \<Rightarrow> bool" where
  "proceeds (Run t) = True"
| "proceeds (Dialed t rt r) = True"
| "proceeds (GotMetadata t mr) = True"
| "proceeds (GotJoin t jr) = True"
| "proceeds (GotSocket t sr) = True"
| "proceeds (GotClosed t cr) = True"
| "proceeds (GotLeave t lr) = True"
| "proceeds _ = False"

text \<open>The most steps a task has before it returns, or before a relay is back in its loop.\<close>

fun remaining :: "pc \<Rightarrow> nat" where
  "remaining ConnectLock = 3"
| "remaining ConnectDial = 2"
| "remaining (ConnectAbort h) = 1"
| "remaining (ConnectSpawn h rt) = 1"
| "remaining RelayRejoin = 11"
| "remaining (JoinGate c) = 10"
| "remaining (JoinControl c) = 9"
| "remaining (JoinLock c) = 8"
| "remaining (JoinDiscover c h) = 7"
| "remaining (JoinMetadata c h) = 6"
| "remaining (JoinHttp c h m codec cid g) = 5"
| "remaining (JoinUdp c h codec cid g config reuse) = 4"
| "remaining (JoinAbort i) = 1"
| "remaining (JoinInstall c i reuse) = 3"
| "remaining (JoinClosePrevious c i reuse p) = 2"
| "remaining (JoinFinish c i reuse) = 1"
| "remaining LeaveGate = 3"
| "remaining (LeaveClose via i) = 2"
| "remaining (LeaveHttp via i closed) = 1"
| "remaining (HandleClose i) = 1"
| "remaining (StopGate g) = 2"
| "remaining (StopClose i) = 1"
| "remaining ShutGate = 7"
| "remaining ShutVoice = 6"
| "remaining (ShutClose i) = 5"
| "remaining (ShutControl err) = 4"
| "remaining (ShutCloseControl h err) = 3"
| "remaining (ShutClear err) = 2"
| "remaining (ShutTasks err) = 1"
| "remaining _ = 0"

text \<open>Where a task that runs no call is.\<close>

fun at_rest :: "pc \<Rightarrow> bool" where
  "at_rest Inactive = True"
| "at_rest RelayWait = True"
| "at_rest (Returned r) = True"
| "at_rest _ = False"

lemma remaining_at_rest: "remaining p = 0 \<longleftrightarrow> at_rest p" and remaining_le: "remaining p \<le> 11"
  by (cases p; simp)+

text \<open>The task that a waiting task waits for.\<close>

fun waits_on :: "pc \<Rightarrow> 'v facade \<Rightarrow> nat option" where
  "waits_on ShutGate s = fc_shutdown_gate s"
| "waits_on (JoinGate c) s = fc_voice_gate s"
| "waits_on LeaveGate s = fc_voice_gate s"
| "waits_on (StopGate g) s = fc_voice_gate s"
| "waits_on ShutVoice s = fc_voice_gate s"
| "waits_on ConnectLock s = fc_control_lock s"
| "waits_on (JoinLock c) s = fc_control_lock s"
| "waits_on (ShutControl err) s = fc_control_lock s"
| "waits_on (JoinClosePrevious c i reuse p) s = vh_teardown (fc_sessions s ! p)"
| "waits_on (LeaveClose via i) s = vh_teardown (fc_sessions s ! i)"
| "waits_on (HandleClose i) s = vh_teardown (fc_sessions s ! i)"
| "waits_on (StopClose i) s = vh_teardown (fc_sessions s ! i)"
| "waits_on (ShutClose i) s = vh_teardown (fc_sessions s ! i)"
| "waits_on _ s = None"

text \<open>The order of the locks: the shutdown gate, the voice gate, then the control lock and teardown locks.\<close>

fun lock_level :: "pc \<Rightarrow> nat" where
  "lock_level ShutGate = 3"
| "lock_level (JoinGate c) = 2"
| "lock_level LeaveGate = 2"
| "lock_level (StopGate g) = 2"
| "lock_level ShutVoice = 2"
| "lock_level ConnectLock = 1"
| "lock_level (JoinLock c) = 1"
| "lock_level (ShutControl err) = 1"
| "lock_level (JoinClosePrevious c i reuse p) = 1"
| "lock_level (LeaveClose via i) = 1"
| "lock_level (HandleClose i) = 1"
| "lock_level (StopClose i) = 1"
| "lock_level (ShutClose i) = 1"
| "lock_level _ = 0"

definition waits_for :: "'v facade \<Rightarrow> nat \<Rightarrow> nat \<Rightarrow> bool" where
  "waits_for s t u \<longleftrightarrow> waits_on (fc_pc s t) s = Some u"


section \<open>The tasks a step moves\<close>

text \<open>A step moves its own task, the relay it spawns, and the tasks it aborts.\<close>

lemma other_pc_connect:
  assumes "u \<noteq> t"
  shows "fc_pc (connect_start t s) u = fc_pc s u"
    "fc_pc (connect_locked t s) u = fc_pc s u"
    "fc_pc (connect_abort t h s) u = fc_pc s u"
    "fc_pc (connect_spawned t h rt s) u = fc_pc s u"
    "fc_pc (shut_gate t s) u = fc_pc s u"
    "fc_pc (shut_voice t s) u = fc_pc s u"
    "fc_pc (shut_close t i closed s) u = fc_pc s u"
    "fc_pc (shut_control t err s) u = fc_pc s u"
    "fc_pc (shut_close_control t h err s) u = fc_pc s u"
    "fc_pc (shut_clear t err s) u = fc_pc s u"
    "fc_pc (leave_start t s) u = fc_pc s u"
    "fc_pc (leave_gate t s) u = fc_pc s u"
    "fc_pc (leave_close t via i closed s) u = fc_pc s u"
    "fc_pc (leave_answered t via i closed answer s) u = fc_pc s u"
    "fc_pc (handle_close_start t i s) u = fc_pc s u"
    "fc_pc (handle_close t i closed s) u = fc_pc s u"
    "fc_pc (handle_leave_start t i s) u = fc_pc s u"
  using assms by (simp_all add: op_defs split: option.split)

lemma other_pc_join:
  assumes "u \<noteq> t"
  shows "fc_pc (join_start sh t c s) u = fc_pc s u"
    "fc_pc (join_gate t c s) u = fc_pc s u"
    "fc_pc (join_control sh t c s) u = fc_pc s u"
    "fc_pc (join_locked sh t c s) u = fc_pc s u"
    "fc_pc (after_discover sh t c h m s) u = fc_pc s u"
    "fc_pc (join_abort sh t i s) u = fc_pc s u"
    "fc_pc (join_install t c i reuse s) u = fc_pc s u"
    "fc_pc (join_close_previous t c i reuse p s) u = fc_pc s u"
    "fc_pc (join_finish sh t c i reuse s) u = fc_pc s u"
    "fc_pc (stop_gate sh t g s) u = fc_pc s u"
    "fc_pc (stop_close sh t i closed s) u = fc_pc s u"
    "fc_pc (relay_event t g e s) u = fc_pc s u"
    "fc_pc (relay_rejoin sh t s) u = fc_pc s u"
  using assms by (simp_all add: op_defs split: option.split result.split)

lemma other_pc_answers:
  assumes "u \<noteq> t"
  shows "fc_pc (join_discover sh t c h s) u = fc_pc s u"
    "fc_pc (join_metadata sh t c h mr s) u = fc_pc s u"
    "fc_pc (join_response sh b64 t c h m codec cid g jr s) u = fc_pc s u"
    "fc_pc (join_started sh A t c h codec cid g config reuse sr s) u = fc_pc s u"
proof -
  show "fc_pc (join_discover sh t c h s) u = fc_pc s u" "fc_pc (join_metadata sh t c h mr s) u = fc_pc s u"
    using assms
    by (simp_all add: join_discover_def join_metadata_def other_pc_join fail_join_fields goto_fields
        split: option.split result.split)
  show "fc_pc (join_response sh b64 t c h m codec cid g jr s) u = fc_pc s u"
    using assms by (simp add: join_response_def fail_join_fields goto_fields split: result.split)
  show "fc_pc (join_started sh A t c h codec cid g config reuse sr s) u = fc_pc s u"
    using assms
    by (simp add: join_started_def Let_def fail_join_fields goto_fields split: result.split prod.split)
qed

lemma same_pc: "fc_pc (relay_lagged missed s) = fc_pc s" "fc_pc (worker_ends i s) = fc_pc s"
  by (simp_all add: relay_lagged_def facade_simps)

lemmas other_pc = other_pc_connect other_pc_join other_pc_answers goto_fields(17) same_pc

lemma pc_frame:
  assumes "facade_do sh A b64 l s = Some s'" "u \<noteq> actor l"
  shows "fc_pc s' u = fc_pc s u \<or> (fc_pc s u = Inactive \<and> fc_pc s' u = RelayWait)
    \<or> (u \<in> set (fc_tasks s) \<and> fc_pc s' u = Returned Aborted)"
  using assms(1) refl [of "actor l"]
proof (cases rule: facade_do_cases)
  case (shut_tasks err)
  then show ?thesis using assms(2) by (simp add: shut_tasks_def)
next
  case (connect_dialed rt r)
  then show ?thesis
    using assms(2)
    by (cases "u = rt") (simp_all add: connect_dialed_def Let_def facade_simps split: result.split)
qed (simp_all add: other_pc assms(2))

lemma finite_busy_step:
  assumes "facade_do sh A b64 l s = Some s'" "finite {t. fc_pc s t \<noteq> Inactive}"
  shows "finite {t. fc_pc s' t \<noteq> Inactive}"
  using assms(1) refl [of "actor l"]
proof (cases rule: facade_do_cases)
  case (connect_dialed rt r)
  have "{t. fc_pc s' t \<noteq> Inactive} \<subseteq> {actor l, rt} \<union> {t. fc_pc s t \<noteq> Inactive}"
    using connect_dialed by (auto simp: connect_dialed_def Let_def facade_simps split: result.splits if_splits)
  then show ?thesis by (rule finite_subset) (simp add: assms(2))
next
  case (shut_tasks err)
  have "{t. fc_pc s' t \<noteq> Inactive} \<subseteq> insert (actor l) (set (fc_tasks s) \<union> {t. fc_pc s t \<noteq> Inactive})"
    using shut_tasks by (auto simp: shut_tasks_def split: if_splits)
  then show ?thesis by (rule finite_subset) (simp add: assms(2))
qed ((rule finite_subset [of _ "insert (actor l) {t. fc_pc s t \<noteq> Inactive}"],
     rule subsetI, rename_tac u, case_tac "u = actor l", simp_all add: other_pc assms(2))[1])+

text \<open>What a step leaves to its own task.\<close>

lemma own_pc_connect:
  "remaining (fc_pc (connect_locked t s) t) < 3"
  "remaining (fc_pc (connect_dialed t rt r s) t) < 2"
  "remaining (fc_pc (connect_abort t h s) t) = 0"
  "remaining (fc_pc (connect_spawned t h rt s) t) = 0"
  "remaining (fc_pc (shut_gate t s) t) < 7"
  "remaining (fc_pc (shut_voice t s) t) < 6"
  "remaining (fc_pc (shut_close t i closed s) t) < 5"
  "remaining (fc_pc (shut_control t err s) t) < 4"
  "remaining (fc_pc (shut_close_control t h err s) t) < 3"
  "remaining (fc_pc (shut_clear t err s) t) < 2"
  "remaining (fc_pc (shut_tasks t err s) t) = 0"
  "remaining (fc_pc (leave_gate t s) t) < 3"
  "remaining (fc_pc (leave_close t via i closed s) t) < 2"
  "remaining (fc_pc (leave_answered t via i closed answer s) t) = 0"
  "remaining (fc_pc (handle_close t i closed s) t) = 0"
  by (simp_all add: op_defs split: option.split result.split)

lemma own_pc_join:
  "remaining (fc_pc (join_gate t c s) t) < 10"
  "remaining (fc_pc (join_control sh t c s) t) < 9"
  "remaining (fc_pc (join_locked sh t c s) t) < 8"
  "remaining (fc_pc (after_discover sh t c h m s) t) < 6"
  "remaining (fc_pc (join_abort sh t i s) t) = 0"
  "remaining (fc_pc (join_install t c i reuse s) t) < 3"
  "remaining (fc_pc (join_close_previous t c i reuse p s) t) < 2"
  "remaining (fc_pc (join_finish sh t c i reuse s) t) = 0"
  "remaining (fc_pc (stop_gate sh t g s) t) < 2"
  "remaining (fc_pc (stop_close sh t i closed s) t) = 0"
  "remaining (fc_pc (relay_rejoin sh t s) t) < 11"
  by (simp_all add: op_defs split: option.split result.split)

lemma own_pc_answers:
  "remaining (fc_pc (join_discover sh t c h s) t) < 7"
  "remaining (fc_pc (join_metadata sh t c h mr s) t) < 6"
  "remaining (fc_pc (join_response sh b64 t c h m codec cid g jr s) t) < 5"
  "remaining (fc_pc (join_started sh A t c h codec cid g config reuse sr s) t) < 4"
proof -
  have after: "remaining (fc_pc (after_discover sh t c h m s) t) < 7" for m s
    using own_pc_join(4) [of sh t c h m s] by simp
  show "remaining (fc_pc (join_discover sh t c h s) t) < 7" "remaining (fc_pc (join_metadata sh t c h mr s) t) < 6"
    by (simp_all add: join_discover_def join_metadata_def own_pc_join after fail_join_fields goto_fields
        split: option.split result.split)
  show "remaining (fc_pc (join_response sh b64 t c h m codec cid g jr s) t) < 5"
    by (simp add: join_response_def fail_join_fields goto_fields split: result.split)
  show "remaining (fc_pc (join_started sh A t c h codec cid g config reuse sr s) t) < 4"
    by (simp add: join_started_def Let_def fail_join_fields goto_fields split: result.split prod.split)
qed

lemmas own_pc = own_pc_connect own_pc_join own_pc_answers

lemma remaining_run: "run_step sh t s = Some s' \<Longrightarrow> remaining (fc_pc s' t) < remaining (fc_pc s t)"
  by (cases "fc_pc s t") (auto simp: run_step_def Let_def own_pc split: if_splits)

lemma remaining_closed: "closed_step sh t r s = Some s' \<Longrightarrow> remaining (fc_pc s' t) < remaining (fc_pc s t)"
  by (cases "fc_pc s t") (auto simp: closed_step_def own_pc split: if_splits)

lemma remaining_step:
  assumes "facade_do sh A b64 l s = Some s'" "proceeds l"
  shows "remaining (fc_pc s' (actor l)) < remaining (fc_pc s (actor l))"
proof (cases l)
  case (Dialed t rt r)
  with assms show ?thesis by (cases "fc_pc s t"; cases "fc_pc s rt") (auto simp: own_pc)
next
  case (GotMetadata t r)
  with assms show ?thesis by (cases "fc_pc s t") (auto simp: own_pc)
next
  case (GotJoin t r)
  with assms show ?thesis by (cases "fc_pc s t") (auto simp: own_pc)
next
  case (GotSocket t r)
  with assms show ?thesis by (cases "fc_pc s t") (auto simp: own_pc)
next
  case (GotLeave t r)
  with assms show ?thesis by (cases "fc_pc s t") (auto simp: own_pc)
qed (use assms remaining_run remaining_closed in auto)

section \<open>Teardown locks\<close>

definition teardowns :: "'v facade \<Rightarrow> nat option list" where
  "teardowns s = map vh_teardown (fc_sessions s)"

lemma map_teardown_open:
  "map vh_teardown (xs[i := (xs ! i)\<lparr>vh_open := False\<rparr>]) = map vh_teardown xs"
  by (cases "i < length xs") (auto simp: list_eq_iff_nth_eq nth_list_update)

lemma teardowns_connect:
  "teardowns (goto t p s) = teardowns s"
  "teardowns (connect_start t s) = teardowns s"
  "teardowns (connect_locked t s) = teardowns s"
  "teardowns (connect_dialed t rt r s) = teardowns s"
  "teardowns (connect_abort t h s) = teardowns s"
  "teardowns (connect_spawned t h rt s) = teardowns s"
  "teardowns (shut_gate t s) = teardowns s"
  "teardowns (shut_voice t s) = teardowns s"
  "teardowns (shut_close t i closed s) = teardowns s"
  "teardowns (shut_control t err s) = teardowns s"
  "teardowns (shut_close_control t h err s) = teardowns s"
  "teardowns (shut_clear t err s) = teardowns s"
  "teardowns (shut_tasks t err s) = teardowns s"
  "teardowns (leave_start t s) = teardowns s"
  "teardowns (leave_gate t s) = teardowns s"
  "teardowns (handle_close_start t i s) = teardowns s"
  "teardowns (handle_close t i closed s) = teardowns s"
  "teardowns (handle_leave_start t i s) = teardowns s"
  "teardowns (worker_ends i s) = teardowns s"
  "teardowns (relay_lagged missed s) = teardowns s"
  "teardowns (relay_event t g e s) = teardowns s"
  by (simp_all add: teardowns_def op_defs map_teardown_open split: option.split result.split)

lemma teardowns_join:
  "teardowns (join_start sh t c s) = teardowns s"
  "teardowns (join_gate t c s) = teardowns s"
  "teardowns (join_control sh t c s) = teardowns s"
  "teardowns (join_locked sh t c s) = teardowns s"
  "teardowns (join_abort sh t i s) = teardowns s"
  "teardowns (join_install t c i reuse s) = teardowns s"
  "teardowns (join_close_previous t c i reuse p s) = teardowns s"
  "teardowns (join_finish sh t c i reuse s) = teardowns s"
  "teardowns (stop_gate sh t g s) = teardowns s"
  "teardowns (stop_close sh t i closed s) = teardowns s"
  "teardowns (relay_rejoin sh t s) = teardowns s"
  "teardowns (join_discover sh t c h s) = teardowns s"
  "teardowns (join_metadata sh t c h mr s) = teardowns s"
  "teardowns (join_response sh b64 t c h m codec cid g jr s) = teardowns s"
  by (simp_all add: teardowns_def op_defs map_teardown_open split: option.split result.split)

lemma teardowns_leave:
  "teardowns (leave_done t via i r s) = (teardowns s)[i := None]"
  "teardowns (leave_answered t via i closed answer s) = (teardowns s)[i := None]"
  "teardowns (leave_close t via i closed s) = (teardowns s)[i := None]
   \<or> teardowns (leave_close t via i closed s) = (teardowns s)[i := Some t]
     \<and> fc_pc (leave_close t via i closed s) t = LeaveHttp via i closed"
proof -
  show d: "teardowns (leave_done t via i r s) = (teardowns s)[i := None]" for r s
    by (simp add: teardowns_def leave_done_def Let_def facade_simps map_update)
  then show "teardowns (leave_answered t via i closed answer s) = (teardowns s)[i := None]"
    by (simp add: leave_answered_def)
  have stop: "teardowns (set_session i (\<lambda>h. h\<lparr>vh_teardown := Some t\<rparr>) (stop_transport i s)) = (teardowns s)[i := Some t]"
    by (simp add: teardowns_def facade_simps map_update map_teardown_open)
  show "teardowns (leave_close t via i closed s) = (teardowns s)[i := None]
   \<or> teardowns (leave_close t via i closed s) = (teardowns s)[i := Some t]
     \<and> fc_pc (leave_close t via i closed s) t = LeaveHttp via i closed"
    by (simp add: leave_close_def Let_def d stop teardowns_connect(1) goto_fields split: option.split)
qed

lemma teardowns_started:
  "teardowns (join_started sh A t c h codec cid g config reuse r s) = teardowns s
   \<or> teardowns (join_started sh A t c h codec cid g config reuse r s) = teardowns s @ [None]"
  by (simp add: teardowns_def join_started_def Let_def facade_simps split: result.split prod.split)

lemmas teardowns_same = teardowns_connect teardowns_join

text \<open>A teardown lock is held across a step only by the leave call that waits for its answer.\<close>

definition teardown_inv :: "'v facade \<Rightarrow> bool" where
  "teardown_inv s \<longleftrightarrow>
     (\<forall>i < length (teardowns s). \<forall>u. teardowns s ! i = Some u \<longrightarrow> (\<exists>via closed. fc_pc s u = LeaveHttp via i closed))"

lemma leaving_stays:
  assumes "facade_do sh A b64 l s = Some s'" "relay_inv s" "u \<noteq> actor l" "fc_pc s u = LeaveHttp via i closed"
  shows "fc_pc s' u = LeaveHttp via i closed"
proof -
  have "u \<notin> set (fc_tasks s)" using assms(2,4) by (force simp: relay_inv_def)
  then show ?thesis using pc_frame [OF assms(1,3)] assms(4) by auto
qed

lemma teardown_inv_upd:
  assumes "facade_do sh A b64 l s = Some s'" "relay_inv s" "teardown_inv s"
    and "teardowns s' = (teardowns s)[i := x]"
    and "x = None \<or> x = Some (actor l) \<and> (\<exists>via closed. fc_pc s' (actor l) = LeaveHttp via i closed)"
    and "\<And>via j closed. fc_pc s (actor l) = LeaveHttp via j closed \<Longrightarrow> j = i"
  shows "teardown_inv s'"
  unfolding teardown_inv_def
proof (intro allI impI)
  fix j u
  assume j: "j < length (teardowns s')" and u: "teardowns s' ! j = Some u"
  show "\<exists>via closed. fc_pc s' u = LeaveHttp via j closed"
  proof (cases "j = i")
    case True
    then show ?thesis using j u assms(4,5) by auto
  next
    case False
    then have "teardowns s ! j = Some u" "j < length (teardowns s)" using j u assms(4) by auto
    then obtain via closed where p: "fc_pc s u = LeaveHttp via j closed"
      using assms(3) unfolding teardown_inv_def by blast
    then have "u \<noteq> actor l" using assms(6) False by auto
    then show ?thesis using leaving_stays [OF assms(1,2) _ p] by blast
  qed
qed

lemma teardown_inv_same:
  assumes "facade_do sh A b64 l s = Some s'" "relay_inv s" "teardown_inv s"
    and "teardowns s' = teardowns s \<or> teardowns s' = teardowns s @ [None]"
    and "\<And>via j closed. fc_pc s (actor l) = LeaveHttp via j closed \<Longrightarrow> fc_pc s' (actor l) = LeaveHttp via j closed"
  shows "teardown_inv s'"
  unfolding teardown_inv_def
proof (intro allI impI)
  fix j u
  assume j: "j < length (teardowns s')" and u: "teardowns s' ! j = Some u"
  then have "teardowns s ! j = Some u" "j < length (teardowns s)"
    using assms(4) by (auto simp: nth_append split: if_splits)
  then obtain via closed where p: "fc_pc s u = LeaveHttp via j closed"
    using assms(3) unfolding teardown_inv_def by blast
  then show "\<exists>via closed. fc_pc s' u = LeaveHttp via j closed"
    using leaving_stays [OF assms(1,2) _ p] assms(5) by (cases "u = actor l") auto
qed

lemma teardown_inv_step:
  assumes "facade_do sh A b64 l s = Some s'" "relay_inv s" "teardown_inv s"
  shows "teardown_inv s'"
  using assms(1) refl [of "actor l"]
proof (cases rule: facade_do_cases)
  case (leave_close via i r)
  then consider "teardowns s' = (teardowns s)[i := None]"
    | "teardowns s' = (teardowns s)[i := Some (actor l)]" "fc_pc s' (actor l) = LeaveHttp via i r"
    using teardowns_leave(3) [of "actor l" via i r s] by auto
  then show ?thesis
  proof cases
    case 1
    then show ?thesis by (rule teardown_inv_upd [OF assms]) (simp_all add: leave_close)
  next
    case 2
    show ?thesis by (rule teardown_inv_upd [OF assms 2(1)]) (use 2 in \<open>simp_all add: leave_close\<close>)
  qed
next
  case (leave_answered via i closed r)
  then show ?thesis
    by (intro teardown_inv_upd [OF assms, of i None]) (simp_all add: teardowns_leave)
next
  case (join_started c h codec cid g config reuse r)
  then show ?thesis
    using teardowns_started [of sh A "actor l" c h codec cid g config reuse r s]
    by (intro teardown_inv_same [OF assms]) simp_all
next
  case (control_changed h view)
  show ?thesis by (rule teardown_inv_same [OF assms]) (simp_all add: control_changed(3) teardowns_def)
qed ((rule teardown_inv_same [OF assms]; auto simp: teardowns_same same_pc dest!: idle_pc)[1])+


section \<open>No deadlock\<close>

definition progress_inv :: "'v facade \<Rightarrow> bool" where
  "progress_inv s \<longleftrightarrow> facade_inv s \<and> teardown_inv s \<and> finite {t. fc_pc s t \<noteq> Inactive}"

lemma progress_inv_init: "progress_inv (client_from_api auto_rejoin)"
  using facade_inv_init by (auto simp: progress_inv_def teardown_inv_def teardowns_def client_from_api_def)

lemma progress_inv_step: "facade_do sh A b64 l s = Some s' \<Longrightarrow> progress_inv s \<Longrightarrow> progress_inv s'"
  unfolding progress_inv_def
  using facade_inv_step teardown_inv_step finite_busy_step by (metis facade_inv_def)

lemma reachable_progress: "reachable sh A b64 s \<Longrightarrow> progress_inv s"
  by (induction rule: reachable.induct) (auto intro: progress_inv_init progress_inv_step)

lemma holders_lower:
  "shut_pc p \<Longrightarrow> lock_level p < 3 \<and> 0 < remaining p"
  "gate_pc p \<Longrightarrow> lock_level p < 2 \<and> 0 < remaining p"
  "lock_pc p \<Longrightarrow> lock_level p < 1 \<and> 0 < remaining p"
  by (cases p; simp)+

lemma teardown_holder:
  assumes "teardown_inv s" "index_inv s" "i \<in> session_refs (fc_pc s t)" "vh_teardown (fc_sessions s ! i) = Some u"
  shows "lock_level (fc_pc s u) = 0 \<and> 0 < remaining (fc_pc s u)"
proof -
  have "i < length (fc_sessions s)" using assms(2,3) by (auto simp: index_inv_def)
  then have "\<exists>via closed. fc_pc s u = LeaveHttp via i closed"
    using assms(1,4) by (simp add: teardown_inv_def teardowns_def)
  then show ?thesis by auto
qed

text \<open>A task waits only for a task that is further down in the order of the locks.\<close>

lemma waits_for_lower:
  assumes "progress_inv s" "waits_for s t u"
  shows "lock_level (fc_pc s u) < lock_level (fc_pc s t) \<and> 0 < remaining (fc_pc s u)"
proof -
  have inv: "locks_inv s" "index_inv s" "teardown_inv s" using assms(1) by (simp_all add: progress_inv_def facade_inv_def)
  note holder = holders_lower [of "fc_pc s u"] locks_inv_iff [OF inv(1), of u] teardown_holder [OF inv(3,2), of _ t u]
  show ?thesis using assms(2) holder unfolding waits_for_def by (cases "fc_pc s t") auto
qed

text \<open>A task that waits for no other can take its next step.\<close>

lemma enabled_unless_waiting:
  fixes s :: "'v facade"
  assumes "finite {t. fc_pc s t \<noteq> Inactive}" "0 < remaining (fc_pc s t)" "waits_on (fc_pc s t) s = None"
  shows "\<exists>l. actor l = t \<and> proceeds l \<and> facade_do sh A b64 l s \<noteq> None"
proof -
  obtain rt where rt: "fc_pc s rt = Inactive" using ex_new_if_finite [OF infinite_UNIV_nat assms(1)] by auto
  have run: ?thesis if "run_step sh t s \<noteq> None"
    using that by (intro exI [of _ "Run t"]) simp
  have closed: ?thesis if "closed_step sh t (Ok ()) s \<noteq> None"
    using that by (intro exI [of _ "GotClosed t (Ok ())"]) simp
  show ?thesis
  proof (cases "fc_pc s t")
    case ConnectDial
    then show ?thesis using rt by (intro exI [of _ "Dialed t rt (Err undefined)"]) simp
  next
    case (JoinMetadata c h)
    then show ?thesis by (intro exI [of _ "GotMetadata t (Err undefined)"]) simp
  next
    case (JoinHttp c h m codec cid g)
    then show ?thesis by (intro exI [of _ "GotJoin t (Err undefined)"]) simp
  next
    case (JoinUdp c h codec cid g config reuse)
    then show ?thesis by (intro exI [of _ "GotSocket t (Err undefined)"]) simp
  next
    case (LeaveHttp via i closed)
    then show ?thesis by (intro exI [of _ "GotLeave t (Err undefined)"]) simp
  qed (use assms run closed in \<open>auto simp: run_step_def closed_step_def free_def Let_def\<close>)
qed

lemma waiting_ends:
  assumes "progress_inv s" "0 < remaining (fc_pc s t)"
  shows "\<exists>l. (waits_for s)\<^sup>*\<^sup>* t (actor l) \<and> proceeds l \<and> facade_do sh A b64 l s \<noteq> None"
  using assms(2)
proof (induction "lock_level (fc_pc s t)" arbitrary: t rule: less_induct)
  case less
  show ?case
  proof (cases "waits_on (fc_pc s t) s")
    case None
    then show ?thesis
      using enabled_unless_waiting [OF _ less.prems] assms(1) by (metis progress_inv_def rtranclp.rtrancl_refl)
  next
    case (Some v)
    then have v: "waits_for s t v" by (simp add: waits_for_def)
    then obtain l where "(waits_for s)\<^sup>*\<^sup>* v (actor l)" "proceeds l" "facade_do sh A b64 l s \<noteq> None"
      using waits_for_lower [OF assms(1) v] less.hyps [of v] by blast
    then show ?thesis using converse_rtranclp_into_rtranclp [of "waits_for s", OF v] by blast
  qed
qed


section \<open>Runs that end\<close>

text \<open>
  A machine each of whose steps uses up some of the work that is left, and that can take a step while work
  is left, finishes its work on every run.
\<close>

locale draining =
  fixes step :: "'l \<Rightarrow> 's \<Rightarrow> 's option"
    and run :: "'l list \<Rightarrow> 's \<Rightarrow> 's option"
    and ok :: "'l \<Rightarrow> bool"
    and inv :: "'s \<Rightarrow> bool"
    and work :: "'s \<Rightarrow> nat"
  assumes run_Nil: "run [] s = Some s"
    and run_Cons: "run (l # ls) s = Option.bind (step l s) (run ls)"
    and keeps: "\<lbrakk>inv s; step l s = Some s'\<rbrakk> \<Longrightarrow> inv s'"
    and uses: "\<lbrakk>inv s; ok l; step l s = Some s'\<rbrakk> \<Longrightarrow> work s' < work s"
    and goes_on: "\<lbrakk>inv s; 0 < work s\<rbrakk> \<Longrightarrow> \<exists>l. ok l \<and> step l s \<noteq> None"
begin

lemma run_keeps: "run ls s = Some s' \<Longrightarrow> inv s \<Longrightarrow> inv s'"
  by (induction ls arbitrary: s) (auto simp: run_Nil run_Cons bind_eq_Some_conv dest: keeps)

lemma bounded:
  "\<lbrakk>run ls s = Some s'; inv s; list_all ok ls\<rbrakk> \<Longrightarrow> length ls + work s' \<le> work s"
proof (induction ls arbitrary: s)
  case (Cons l ls)
  then obtain s1 where s1: "step l s = Some s1" "run ls s1 = Some s'"
    by (auto simp: run_Cons bind_eq_Some_conv)
  then have "length ls + work s' \<le> work s1" using Cons by (auto dest: keeps)
  moreover have "work s1 < work s" using uses [OF _ _ s1(1)] Cons.prems by simp
  ultimately show ?case by simp
qed (simp add: run_Nil)

lemma finishes:
  assumes "inv s"
  shows "\<exists>ls s'. list_all ok ls \<and> run ls s = Some s' \<and> work s' = 0"
  using assms
proof (induction "work s" arbitrary: s rule: less_induct)
  case less
  show ?case
  proof (cases "0 < work s")
    case True
    then obtain l s1 where s1: "ok l" "step l s = Some s1" using goes_on [OF less.prems] by auto
    then obtain ls s' where "list_all ok ls" "run ls s1 = Some s'" "work s' = 0"
      using less.hyps [OF uses [OF less.prems s1]] keeps [OF less.prems s1(2)] by blast
    then show ?thesis using s1 by (intro exI [of _ "l # ls"]) (auto simp: run_Cons)
  qed (use run_Nil in \<open>auto intro!: exI [of _ "[]"]\<close>)
qed

lemma completed:
  assumes "inv s" "run ls s = Some s'" "\<And>l. ok l \<Longrightarrow> step l s' = None"
  shows "work s' = 0"
  using goes_on [OF run_keeps [OF assms(2,1)]] assms(3) by (cases "work s'") auto

end

definition unfinished :: "'v facade \<Rightarrow> nat" where
  "unfinished s = (\<Sum>t \<in> {t. fc_pc s t \<noteq> Inactive}. remaining (fc_pc s t))"

lemma unfinished_superset:
  assumes "finite B" "{t. fc_pc s t \<noteq> Inactive} \<subseteq> B"
  shows "unfinished s = (\<Sum>t \<in> B. remaining (fc_pc s t))"
  unfolding unfinished_def using assms by (intro sum.mono_neutral_left) auto

lemma unfinished_zero:
  "progress_inv s \<Longrightarrow> unfinished s = 0 \<longleftrightarrow> (\<forall>t. remaining (fc_pc s t) = 0)"
  by (auto simp: unfinished_def progress_inv_def) (metis remaining.simps)

lemma unfinished_at_rest: "progress_inv s \<Longrightarrow> unfinished s = 0 \<longleftrightarrow> (\<forall>t. at_rest (fc_pc s t))"
  by (simp add: unfinished_zero remaining_at_rest)

lemma unfinished_step:
  assumes "progress_inv s" "proceeds l" "facade_do sh A b64 l s = Some s'"
  shows "unfinished s' < unfinished s"
proof -
  let ?B = "insert (actor l) ({t. fc_pc s t \<noteq> Inactive} \<union> {t. fc_pc s' t \<noteq> Inactive})"
  have fin: "finite ?B"
    using assms(1) finite_busy_step [OF assms(3)] by (simp add: progress_inv_def)
  have le: "remaining (fc_pc s' t) \<le> remaining (fc_pc s t)" for t
  proof (cases "t = actor l")
    case True
    then show ?thesis using remaining_step [OF assms(3,2)] by simp
  next
    case False
    then show ?thesis using pc_frame [OF assms(3) False] by auto
  qed
  have "(\<Sum>t \<in> ?B. remaining (fc_pc s' t)) < (\<Sum>t \<in> ?B. remaining (fc_pc s t))"
    using le remaining_step [OF assms(3,2)] by (intro sum_strict_mono_ex1 [OF fin]) auto
  moreover have "unfinished s = (\<Sum>t \<in> ?B. remaining (fc_pc s t))" "unfinished s' = (\<Sum>t \<in> ?B. remaining (fc_pc s' t))"
    by (rule unfinished_superset [OF fin], blast)+
  ultimately show ?thesis by simp
qed

interpretation facade_calls: draining "facade_do sh A b64" "facade_run sh A b64" proceeds progress_inv unfinished
proof unfold_locales
  fix s :: "'v facade"
  assume s: "progress_inv s" "0 < unfinished s"
  then obtain t where "0 < remaining (fc_pc s t)" using unfinished_zero [OF s(1)] by auto
  from waiting_ends [OF s(1) this] show "\<exists>l. proceeds l \<and> facade_do sh A b64 l s \<noteq> None" by blast
qed (auto intro: progress_inv_step unfinished_step)

lemma unfinished_le: "progress_inv s \<Longrightarrow> unfinished s \<le> 11 * card {t. \<not> at_rest (fc_pc s t)}"
proof -
  assume "progress_inv s"
  then have fin: "finite {t. fc_pc s t \<noteq> Inactive}" by (simp add: progress_inv_def)
  have "unfinished s = (\<Sum>t \<in> {t. \<not> at_rest (fc_pc s t)}. remaining (fc_pc s t))"
    unfolding unfinished_def by (rule sum.mono_neutral_right [OF fin]) (auto simp: remaining_at_rest)
  also have "\<dots> \<le> 11 * card {t. \<not> at_rest (fc_pc s t)}"
    using sum_bounded_above [of "{t. \<not> at_rest (fc_pc s t)}" "\<lambda>t. remaining (fc_pc s t)" 11] remaining_le by (simp add: mult.commute)
  finally show ?thesis .
qed


section \<open>Calls end\<close>

text \<open>
  Claim C9. The facade does not deadlock: in every reachable state, following from any call in progress
  the locks it waits for leads to a call that can take its next step. The shutdown gate, the voice gate
  and the control and teardown locks are taken in that order, so no two calls wait for each other.
\<close>

theorem facade_no_deadlock:
  assumes "reachable sh A b64 s" "\<not> at_rest (fc_pc s t)"
  shows "\<exists>l. (waits_for s)\<^sup>*\<^sup>* t (actor l) \<and> proceeds l \<and> facade_do sh A b64 l s \<noteq> None"
  using waiting_ends [OF reachable_progress [OF assms(1)], of t] assms(2) remaining_at_rest by blast

text \<open>Task 3 leaves the channel and has the voice gate; the shutdown of task 4 waits for it.\<close>

definition crossing_labels :: "unit label list" where
  "crossing_labels = joined_labels @ [StartLeave 3, Run 3, StartShutdown 4, Run 4]"

definition crossed :: "unit facade \<Rightarrow> bool" where
  "crossed s \<longleftrightarrow> waits_on (fc_pc s 4) s = Some 3 \<and> \<not> at_rest (fc_pc s 4)"

lemma crossing: "case sample_run crossing_labels of None \<Rightarrow> False | Some s \<Rightarrow> crossed s"
  by code_simp

theorem facade_no_deadlock_witness:
  "\<exists>s l. sample_run crossing_labels = Some s \<and> waits_for s 4 3 \<and> (waits_for s)\<^sup>*\<^sup>* 4 (actor l)
     \<and> proceeds l \<and> facade_do no_text tag_cipher sample_b64 l s \<noteq> None"
proof -
  obtain s where s: "sample_run crossing_labels = Some s" "crossed s"
    using crossing by (auto split: option.splits)
  then show ?thesis
    using facade_no_deadlock [OF sample_run_reachable [OF s(1)], of 4] by (auto simp: crossed_def waits_for_def)
qed


lemma crossing_goes_on:
  "case sample_run crossing_labels of None \<Rightarrow> False
   | Some s \<Rightarrow> \<not> Option.is_none (facade_run no_text tag_cipher sample_b64 [GotClosed 3 (Ok ())] s)"
  by code_simp


end
