(* ===== verification/ApiBodies.thy ===== *)
theory ApiBodies
  imports DomainState HttpMessages
begin

text \<open>
  The bodies of the resource endpoints of \<open>crates/zephyrvox-http/src\<close>: the request and response types
  of \<open>users.rs\<close>, \<open>groups.rs\<close>, \<open>channels.rs\<close>, \<open>rbac.rs\<close>, \<open>admin.rs\<close>, \<open>moderation.rs\<close> and \<open>auth_types.rs\<close>, and the
  JSON value that their \<open>Serialize\<close> attributes describe. \<open>serde_json::to_vec\<close>, which turns the value
  into bytes, is an argument of the endpoints.
\<close>

section \<open>JSON values and the serde attributes\<close>

datatype json =
    JNull
  | JBool bool
  | JNumber int
  | JString string
  | JArray "json list"
  | JObject "(string \<times> json) list"

text \<open>\<open>skip_serializing_if = "Option::is_none"\<close> leaves the field out.\<close>

definition skip_none :: "string \<Rightarrow> ('a \<Rightarrow> json) \<Rightarrow> 'a option \<Rightarrow> (string \<times> json) list" where
  "skip_none name ser x = (case x of None \<Rightarrow> [] | Some v \<Rightarrow> [(name, ser v)])"

text \<open>An option without that attribute is written as \<open>null\<close>.\<close>

definition or_null :: "('a \<Rightarrow> json) \<Rightarrow> 'a option \<Rightarrow> json" where
  "or_null ser x = (case x of None \<Rightarrow> JNull | Some v \<Rightarrow> ser v)"

text \<open>Snowflakes are decimal text, except in the RBAC bodies, where they are numbers.\<close>

definition snowflake_json :: "snowflake \<Rightarrow> json" where
  "snowflake_json s = JString (snowflake_to_string s)"

definition serialize_snowflake_number :: "snowflake \<Rightarrow> json" where
  "serialize_snowflake_number s = JNumber (int (unat (snowflake_get s)))"

definition serialize_optional_snowflake_number :: "snowflake option \<Rightarrow> json" where
  "serialize_optional_snowflake_number s = or_null serialize_snowflake_number s"


section \<open>Users\<close>

record update_user_request =
  uu_nickname :: "string option"

record change_password_request =
  cp_old_password :: string
  cp_new_password :: string

record user_detail =
  ud_user :: user
  ud_roles :: "string list"
  ud_banned :: bool
  ud_last_login_at :: "int option"
  ud_created_at :: int

definition update_user_json :: "update_user_request \<Rightarrow> json" where
  "update_user_json r = JObject (skip_none ''nickname'' JString (uu_nickname r))"

definition reset_password_json :: "string \<Rightarrow> json" where
  "reset_password_json password = JObject [(''password'', JString password)]"

definition change_password_json :: "change_password_request \<Rightarrow> json" where
  "change_password_json r =
     JObject [(''old_password'', JString (cp_old_password r)), (''new_password'', JString (cp_new_password r))]"


section \<open>Groups and access lists\<close>

datatype access_principal = UserPrincipal snowflake | RolePrincipal string

record access_entry =
  ac_id :: snowflake
  ac_principal_type :: string
  ac_user_id :: "snowflake option"
  ac_role_key :: "string option"
  ac_created_at :: int

record create_group_request =
  cg_name :: string
  cg_position :: int
  cg_visibility :: string

record update_group_request =
  ug_name :: "string option"
  ug_position :: "int option"
  ug_visibility :: "string option"

record access_request =
  aq_principal_type :: string
  aq_user_id :: "snowflake option"
  aq_role_key :: "string option"
  aq_grant_parent :: bool

fun from_principal :: "access_principal \<Rightarrow> bool \<Rightarrow> access_request" where
  "from_principal (UserPrincipal user_id) grant_parent =
     \<lparr>aq_principal_type = ''user'', aq_user_id = Some user_id, aq_role_key = None, aq_grant_parent = grant_parent\<rparr>"
| "from_principal (RolePrincipal role_key) grant_parent =
     \<lparr>aq_principal_type = ''role'', aq_user_id = None, aq_role_key = Some role_key, aq_grant_parent = grant_parent\<rparr>"

definition create_group_json :: "create_group_request \<Rightarrow> json" where
  "create_group_json r =
     JObject [(''name'', JString (cg_name r)), (''position'', JNumber (cg_position r)),
              (''visibility'', JString (cg_visibility r))]"

definition update_group_json :: "update_group_request \<Rightarrow> json" where
  "update_group_json r =
     JObject (skip_none ''name'' JString (ug_name r) @ skip_none ''position'' JNumber (ug_position r)
       @ skip_none ''visibility'' JString (ug_visibility r))"

definition access_request_json :: "access_request \<Rightarrow> json" where
  "access_request_json r =
     JObject ([(''principal_type'', JString (aq_principal_type r))]
       @ skip_none ''user_id'' snowflake_json (aq_user_id r) @ skip_none ''role_key'' JString (aq_role_key r)
       @ [(''grant_parent'', JBool (aq_grant_parent r))])"


section \<open>Channels\<close>

record create_channel_request =
  cc_group_id :: "snowflake option"
  cc_channel_name :: string
  cc_mode :: string
  cc_temporary :: bool
  cc_visibility :: string
  cc_capacity :: "int option"
  cc_position :: int
  cc_pinned :: bool

text \<open>\<open>None\<close> leaves a field alone; for the group \<open>Some None\<close> removes it.\<close>

record update_channel_request =
  uc_group_id :: "snowflake option option"
  uc_name :: "string option"
  uc_visibility :: "string option"
  uc_capacity :: "int option"
  uc_position :: "int option"
  uc_pinned :: "bool option"

definition create_channel_json :: "create_channel_request \<Rightarrow> json" where
  "create_channel_json r =
     JObject (skip_none ''group_id'' snowflake_json (cc_group_id r)
       @ [(''name'', JString (cc_channel_name r)), (''mode'', JString (cc_mode r)),
          (''temporary'', JBool (cc_temporary r)), (''visibility'', JString (cc_visibility r))]
       @ skip_none ''capacity'' JNumber (cc_capacity r)
       @ [(''position'', JNumber (cc_position r)), (''pinned'', JBool (cc_pinned r))])"

definition update_channel_json :: "update_channel_request \<Rightarrow> json" where
  "update_channel_json r =
     JObject (skip_none ''group_id'' (or_null snowflake_json) (uc_group_id r)
       @ skip_none ''name'' JString (uc_name r) @ skip_none ''visibility'' JString (uc_visibility r)
       @ skip_none ''capacity'' JNumber (uc_capacity r) @ skip_none ''position'' JNumber (uc_position r)
       @ skip_none ''pinned'' JBool (uc_pinned r))"


section \<open>Roles, bindings and permissions\<close>

record rbac_scope =
  rs_kind :: string
  rs_id :: "snowflake option"

record role_record =
  rr_key :: string
  rr_display_name :: string
  rr_rank :: int
  rr_builtin :: bool
  rr_immutable :: bool
  rr_created_at :: int
  rr_updated_at :: int
  rr_version :: int

record create_role_request =
  cr_key :: string
  cr_display_name :: string
  cr_rank :: int

record update_role_request =
  ur_display_name :: "string option"
  ur_rank :: "int option"

record role_binding =
  rb_id :: snowflake
  rb_user_id :: snowflake
  rb_role_key :: string
  rb_scope :: rbac_scope
  rb_created_at :: int

record create_binding_request =
  cb_user_id :: snowflake
  cb_role_key :: string
  cb_scope :: rbac_scope

text \<open>A \<open>BTreeMap\<close> is its list of entries in the order of the keys.\<close>

type_synonym permission_map = "(string \<times> string list) list"

record permission_config =
  pc_scope :: rbac_scope
  pc_local :: "permission_map option"
  pc_local_version :: "int option"
  pc_source :: rbac_scope
  pc_source_version :: int
  pc_effective :: permission_map

record update_permission_config_request =
  up_scope :: rbac_scope
  up_config :: permission_map

record owner_transfer_response =
  ot_previous_owner_id :: snowflake
  ot_new_owner_id :: snowflake

definition rbac_scope_json :: "rbac_scope \<Rightarrow> json" where
  "rbac_scope_json s =
     JObject ([(''type'', JString (rs_kind s))]
       @ skip_none ''id'' (\<lambda>i. serialize_optional_snowflake_number (Some i)) (rs_id s))"

definition create_role_json :: "create_role_request \<Rightarrow> json" where
  "create_role_json r =
     JObject [(''key'', JString (cr_key r)), (''display_name'', JString (cr_display_name r)),
              (''rank'', JNumber (cr_rank r))]"

definition update_role_json :: "update_role_request \<Rightarrow> json" where
  "update_role_json r =
     JObject (skip_none ''display_name'' JString (ur_display_name r) @ skip_none ''rank'' JNumber (ur_rank r))"

definition create_binding_json :: "create_binding_request \<Rightarrow> json" where
  "create_binding_json r =
     JObject [(''user_id'', serialize_snowflake_number (cb_user_id r)), (''role_key'', JString (cb_role_key r)),
              (''scope'', rbac_scope_json (cb_scope r))]"

definition update_permission_config_json :: "update_permission_config_request \<Rightarrow> json" where
  "update_permission_config_json r =
     JObject [(''scope'', rbac_scope_json (up_scope r)),
              (''config'', JObject (map (\<lambda>(role, ps). (role, JArray (map JString ps))) (up_config r)))]"

definition owner_transfer_json :: "snowflake \<Rightarrow> json" where
  "owner_transfer_json target_user_id =
     JObject [(''target_user_id'', serialize_snowflake_number target_user_id)]"

definition reset_permission_config_json :: "rbac_scope \<Rightarrow> json" where
  "reset_permission_config_json scope = JObject [(''scope'', rbac_scope_json scope)]"


section \<open>Invitations and mutes\<close>

record invite =
  iv_id :: snowflake
  iv_role_key :: string
  iv_uses_left :: int
  iv_expires_at :: "int option"
  iv_created_at :: int

record create_invite_request =
  ci_role :: "string option"
  ci_uses :: "int option"
  ci_expires_at :: "int option"

record create_invite_response =
  ir_code :: string
  ir_invite :: invite

record moderation_scope =
  ms_kind :: string
  ms_id :: "snowflake option"

record mute =
  mu_id :: snowflake
  mu_scope :: moderation_scope
  mu_user_id :: snowflake
  mu_kind :: string
  mu_expires_at :: "int option"
  mu_reason :: string
  mu_created_at :: int
  mu_version :: string

record create_mute_request =
  cm_scope :: moderation_scope
  cm_user_id :: snowflake
  cm_kind :: string
  cm_expires_at :: "int option"
  cm_reason :: "string option"

text \<open>\<open>Some None\<close> clears the expiry.\<close>

record update_mute_request =
  um_expires_at :: "int option option"
  um_reason :: "string option"

definition create_invite_json :: "create_invite_request \<Rightarrow> json" where
  "create_invite_json r =
     JObject (skip_none ''role'' JString (ci_role r) @ skip_none ''uses'' JNumber (ci_uses r)
       @ skip_none ''expires_at'' JNumber (ci_expires_at r))"

definition moderation_scope_json :: "moderation_scope \<Rightarrow> json" where
  "moderation_scope_json s =
     JObject ([(''type'', JString (ms_kind s))] @ skip_none ''id'' snowflake_json (ms_id s))"

definition create_mute_json :: "create_mute_request \<Rightarrow> json" where
  "create_mute_json r =
     JObject ([(''scope'', moderation_scope_json (cm_scope r)), (''user_id'', snowflake_json (cm_user_id r)),
               (''kind'', JString (cm_kind r))]
       @ skip_none ''expires_at'' JNumber (cm_expires_at r) @ skip_none ''reason'' JString (cm_reason r))"

definition update_mute_json :: "update_mute_request \<Rightarrow> json" where
  "update_mute_json r =
     JObject (skip_none ''expires_at'' (or_null JNumber) (um_expires_at r)
       @ skip_none ''reason'' JString (um_reason r))"


section \<open>Metrics\<close>

text \<open>The floating-point fields have the type \<open>'f\<close>.\<close>

record 'f udp_metrics =
  um_packets_received :: u64
  um_dropped :: u64
  um_global_dropped :: u64
  um_source_dropped :: u64
  um_session_dropped :: u64
  um_send_success :: u64
  um_send_errors :: u64
  um_drop_ratio :: 'f
  um_global_drop_ratio :: 'f
  um_source_drop_ratio :: 'f
  um_session_drop_ratio :: 'f

record 'f queue_metrics =
  qm_items :: int
  qm_bytes :: int
  qm_item_capacity :: int
  qm_byte_capacity :: int
  qm_utilization :: 'f
  qm_shard_items :: "int list"
  qm_shard_bytes :: "int list"
  qm_shard_utilization :: "'f list"

record 'f relay_metrics =
  rm_enqueued :: u64
  rm_dropped_overload :: u64
  rm_dropped_soft_limit :: u64
  rm_dropped_no_authority :: u64
  rm_dropped_stale_authority :: u64
  rm_dropped_muted :: u64
  rm_dropped_no_membership :: u64
  rm_dropped_invalid_channel :: u64
  rm_sent :: u64
  rm_send_errors :: u64
  rm_queue :: "'f queue_metrics"
  rm_p95_work_latency_ms :: int

record load_hard_limits =
  lh_global_packets_per_sec :: int
  lh_session_packets_per_sec :: int

record load_soft_limits =
  ls_global_ingress_soft_pps :: int
  ls_session_soft_pps :: int
  ls_voice_stats_interval_ms :: int

record 'f load_input_metrics =
  li_queue_utilization :: 'f
  li_relay_drop_ratio :: 'f
  li_udp_drop_ratio :: 'f
  li_udp_global_drop_ratio :: 'f
  li_udp_source_drop_ratio :: 'f
  li_udp_session_drop_ratio :: 'f
  li_relay_p95_latency_ms :: int
  li_state_publication_lag_ms :: int

record 'f load_metrics =
  lm_hard :: load_hard_limits
  lm_soft :: load_soft_limits
  lm_overloaded :: bool
  lm_recovery_ticks :: int
  lm_last_input :: "'f load_input_metrics"

record 'f admin_metrics =
  am_http_connections :: int
  am_websocket_connections :: int
  am_udp_sessions :: int
  am_udp :: "'f udp_metrics"
  am_relay :: "'f relay_metrics"
  am_relay_packets_per_second :: 'f
  am_relay_drop_ratio :: 'f
  am_load :: "'f load_metrics"
  am_state_publication_latency_ms :: int
  am_snapshot_latency_ms :: int


section \<open>Accounts\<close>

record auth_status =
  as_registration_mode :: string
  as_activation_required :: bool

record login_request =
  lg_username :: string
  lg_password :: string
  lg_device_id :: string

record activate_request =
  av_code :: string
  av_username :: string
  av_password :: string
  av_nickname :: "string option"

definition login_request_json :: "login_request \<Rightarrow> json" where
  "login_request_json r =
     JObject [(''username'', JString (lg_username r)), (''password'', JString (lg_password r)),
              (''device_id'', JString (lg_device_id r))]"

definition activate_request_json :: "activate_request \<Rightarrow> json" where
  "activate_request_json r =
     JObject ([(''code'', JString (av_code r)), (''username'', JString (av_username r)),
               (''password'', JString (av_password r))]
       @ skip_none ''nickname'' JString (av_nickname r))"

definition logout_request_json :: "string \<Rightarrow> json" where
  "logout_request_json refresh_token = JObject [(''refresh_token'', JString refresh_token)]"


section \<open>Reading the bodies\<close>

text \<open>How the receiver of a body sees a field: absent, or with a value that may be \<open>null\<close>.\<close>

fun json_field :: "string \<Rightarrow> json \<Rightarrow> json option" where
  "json_field name (JObject fs) = map_of fs name"
| "json_field name _ = None"

lemma map_of_skip_none:
  "map_of (skip_none n ser x @ fs) k = (if k = n \<and> x \<noteq> None then map_option ser x else map_of fs k)"
  by (cases x) (auto simp: skip_none_def)

lemma map_of_skip_none_last [simp]: "map_of (skip_none n ser x) k = (if k = n then map_option ser x else None)"
  by (cases x) (auto simp: skip_none_def)

lemma format_dec_inject: "format_dec m = format_dec n \<longleftrightarrow> m = n"
  by (metis read_format_dec option.inject)

lemma snowflake_json_inject [simp]: "snowflake_json a = snowflake_json b \<longleftrightarrow> a = b"
  by (cases a; cases b) (simp add: snowflake_json_def snowflake_to_string_def format_dec_inject word_unat_eq_iff)

lemma snowflake_json_not_null [simp]: "snowflake_json a \<noteq> JNull"
  by (simp add: snowflake_json_def)

lemma or_null_inject:
  assumes "\<And>a b. ser a = ser b \<longleftrightarrow> a = b" "\<And>a. ser a \<noteq> JNull"
  shows "or_null ser x = or_null ser y \<longleftrightarrow> x = y"
  using assms by (cases x; cases y) (auto simp: or_null_def dest: sym)

lemma or_null_cases [simp]:
  "or_null snowflake_json x = or_null snowflake_json y \<longleftrightarrow> x = y"
  "or_null JNumber m = or_null JNumber n \<longleftrightarrow> m = n"
  by (rule or_null_inject; simp)+

text \<open>The fields of the two bodies in which leaving alone, clearing and setting are three things.\<close>

lemma update_channel_fields:
  "json_field ''group_id'' (update_channel_json r) = map_option (or_null snowflake_json) (uc_group_id r)"
  "json_field ''name'' (update_channel_json r) = map_option JString (uc_name r)"
  "json_field ''visibility'' (update_channel_json r) = map_option JString (uc_visibility r)"
  "json_field ''capacity'' (update_channel_json r) = map_option JNumber (uc_capacity r)"
  "json_field ''position'' (update_channel_json r) = map_option JNumber (uc_position r)"
  "json_field ''pinned'' (update_channel_json r) = map_option JBool (uc_pinned r)"
  by (simp_all add: update_channel_json_def map_of_skip_none del: map_of_append)

lemma update_mute_fields:
  "json_field ''expires_at'' (update_mute_json r) = map_option (or_null JNumber) (um_expires_at r)"
  "json_field ''reason'' (update_mute_json r) = map_option JString (um_reason r)"
  by (simp_all add: update_mute_json_def map_of_skip_none del: map_of_append)

lemma map_option_inject: "(\<And>a b. f a = f b \<longleftrightarrow> a = b) \<Longrightarrow> map_option f x = map_option f y \<longleftrightarrow> x = y"
  by (cases x; cases y) auto

lemma update_channel_json_inject: "update_channel_json r = update_channel_json r' \<longleftrightarrow> r = r'"
proof
  assume eq: "update_channel_json r = update_channel_json r'"
  show "r = r'"
    using update_channel_fields [of r] update_channel_fields [of r'] unfolding eq
    by (cases r; cases r') (simp add: map_option_inject)
qed simp

lemma update_mute_json_inject: "update_mute_json r = update_mute_json r' \<longleftrightarrow> r = r'"
proof
  assume eq: "update_mute_json r = update_mute_json r'"
  show "r = r'"
    using update_mute_fields [of r] update_mute_fields [of r'] unfolding eq
    by (cases r; cases r') (simp add: map_option_inject)
qed simp

text \<open>
  Partial updates say what they mean: in the body of a channel update and of a mute update a
  field is absent exactly when the request leaves it alone, \<open>null\<close> exactly when it clears it, and the value
  otherwise, so that two updates have the same body only if they are the same update. Identifiers of the
  role endpoints are numbers that the identifier's own reader accepts.
\<close>

theorem update_bodies_faithful:
  "(json_field ''group_id'' (update_channel_json r) = None \<longleftrightarrow> uc_group_id r = None)
   \<and> (json_field ''group_id'' (update_channel_json r) = Some JNull \<longleftrightarrow> uc_group_id r = Some None)
   \<and> (json_field ''expires_at'' (update_mute_json m) = None \<longleftrightarrow> um_expires_at m = None)
   \<and> (json_field ''expires_at'' (update_mute_json m) = Some JNull \<longleftrightarrow> um_expires_at m = Some None)
   \<and> (update_channel_json r = update_channel_json r' \<longleftrightarrow> r = r')
   \<and> (update_mute_json m = update_mute_json m' \<longleftrightarrow> m = m')
   \<and> (snowflake_wf i \<longrightarrow> (\<exists>n. json_field ''id'' (rbac_scope_json \<lparr>rs_kind = k, rs_id = Some i\<rparr>) = Some (JNumber n)
        \<and> snowflake_visit_u64 (of_int n) = Ok i))"
proof -
  have null: "or_null snowflake_json x = JNull \<longleftrightarrow> x = None" "or_null JNumber y = JNull \<longleftrightarrow> y = None" for x y
    by (cases x; cases y; simp add: or_null_def snowflake_json_def)+
  have scope: "json_field ''id'' (rbac_scope_json \<lparr>rs_kind = k, rs_id = Some i\<rparr>)
      = Some (JNumber (int (unat (snowflake_get i))))"
    by (simp add: rbac_scope_json_def skip_none_def serialize_optional_snowflake_number_def or_null_def
        serialize_snowflake_number_def)
  have read: "snowflake_visit_u64 (of_int (int (unat (snowflake_get i)))) = Ok i" if "snowflake_wf i"
    using that snowflake_new_Ok_iff [of "snowflake_get i" i] by (cases i) (simp add: snowflake_visit_u64_def)
  show ?thesis
    using scope read
    by (auto simp: null update_channel_fields update_mute_fields update_channel_json_inject
        update_mute_json_inject)
qed

end
