(* ===== verification/Endpoints.thy ===== *)
theory Endpoints
  imports HttpClient ApiBodies WireConstants
begin

text \<open>
  The resource endpoints of \<open>crates/zephyrvox-http/src\<close>: \<open>users.rs\<close>, \<open>groups.rs\<close>, \<open>channels.rs\<close>, \<open>rbac.rs\<close>,
  \<open>admin.rs\<close>, \<open>moderation.rs\<close> and the rest of \<open>auth.rs\<close>. Every method builds one request and sends it with
  \<open>send_json\<close> or \<open>send_no_content\<close>; the outer \<open>option\<close> of a mutation is the panic of the key generator, as
  in \<open>with_ensured\<close>.
\<close>

section \<open>The shapes of a call\<close>

text \<open>
  What the endpoints take from \<open>serde_json\<close> and from the \<open>url\<close> crate: the bytes of a JSON value, the
  query text of a list of pairs, and the decoder of each response type.
\<close>

record ('v, 'f) api_codec =
  ac_ser :: "json \<Rightarrow> (bytes, string) result"
  ac_form :: "(string \<times> string) list \<Rightarrow> string"
  ac_user :: "'v \<Rightarrow> (user, string) result"
  ac_user_detail :: "'v \<Rightarrow> (user_detail, string) result"
  ac_user_details :: "'v \<Rightarrow> (user_detail list, string) result"
  ac_avatar :: "'v \<Rightarrow> (string, string) result"
  ac_group :: "'v \<Rightarrow> (group, string) result"
  ac_groups :: "'v \<Rightarrow> (group page, string) result"
  ac_access :: "'v \<Rightarrow> (access_entry, string) result"
  ac_accesses :: "'v \<Rightarrow> (access_entry page, string) result"
  ac_channel :: "'v \<Rightarrow> (channel, string) result"
  ac_channels :: "'v \<Rightarrow> (channel page, string) result"
  ac_role :: "'v \<Rightarrow> (role_record, string) result"
  ac_roles :: "'v \<Rightarrow> (role_record list, string) result"
  ac_binding :: "'v \<Rightarrow> (role_binding, string) result"
  ac_bindings :: "'v \<Rightarrow> (role_binding list, string) result"
  ac_transfer :: "'v \<Rightarrow> (owner_transfer_response, string) result"
  ac_config :: "'v \<Rightarrow> (permission_config, string) result"
  ac_invites :: "'v \<Rightarrow> (invite list, string) result"
  ac_new_invite :: "'v \<Rightarrow> (create_invite_response, string) result"
  ac_metrics :: "'v \<Rightarrow> ('f admin_metrics, string) result"
  ac_mute :: "'v \<Rightarrow> (mute, string) result"
  ac_mutes :: "'v \<Rightarrow> (mute page, string) result"
  ac_status :: "'v \<Rightarrow> (auth_status, string) result"

type_synonym ('u, 's, 'a) reply = "('u, 's) call_state \<times> ('a api_response, http_error) result"

text \<open>A read: a \<open>GET\<close> without options, under the access token.\<close>

definition fetch ::
  "('u, 's, 'v) http_env \<Rightarrow> ('v \<Rightarrow> ('a, string) result) \<Rightarrow> string \<Rightarrow> ('u, 's) call_state \<Rightarrow> ('u, 's, 'a) reply" where
  "fetch E dec path w =
     try_then (w, empty_request (he_join E) Get path request_options_new)
       (\<lambda>request w1. send_json E dec request (AccessTokenAuth True) w1)"

text \<open>Mutations: a JSON body answered with JSON, a JSON body without answer, neither.\<close>

definition mutate_json ::
  "('u, 's, 'v) http_env \<Rightarrow> ('v \<Rightarrow> ('a, string) result) \<Rightarrow> nat \<Rightarrow> http_method \<Rightarrow> string \<Rightarrow> (bytes, string) result
   \<Rightarrow> request_options \<Rightarrow> ('u, 's) call_state \<Rightarrow> ('u, 's, 'a) reply option" where
  "mutate_json E dec now method path body opts w =
     with_ensured now opts w (\<lambda>opts' w1.
       try_then (w1, json_request (he_join E) method path body opts')
         (\<lambda>request w2. send_json E dec request (AccessTokenAuth True) w2))"

definition mutate_quiet ::
  "('u, 's, 'v) http_env \<Rightarrow> nat \<Rightarrow> http_method \<Rightarrow> string \<Rightarrow> (bytes, string) result
   \<Rightarrow> request_options \<Rightarrow> ('u, 's) call_state \<Rightarrow> ('u, 's, unit) reply option" where
  "mutate_quiet E now method path body opts w =
     with_ensured now opts w (\<lambda>opts' w1.
       try_then (w1, json_request (he_join E) method path body opts')
         (\<lambda>request w2. send_no_content E request (AccessTokenAuth True) w2))"

definition mutate_empty ::
  "('u, 's, 'v) http_env \<Rightarrow> nat \<Rightarrow> http_method \<Rightarrow> string
   \<Rightarrow> request_options \<Rightarrow> ('u, 's) call_state \<Rightarrow> ('u, 's, unit) reply option" where
  "mutate_empty E now method path opts w =
     with_ensured now opts w (\<lambda>opts' w1.
       try_then (w1, empty_request (he_join E) method path opts')
         (\<lambda>request w2. send_no_content E request (AccessTokenAuth True) w2))"

text \<open>\<open>options.require_if_match()?\<close> and its like before anything else.\<close>

definition after_check ::
  "(unit, http_error) result \<Rightarrow> ('u, 's) call_state \<Rightarrow> ('u, 's, 'a) reply option \<Rightarrow> ('u, 's, 'a) reply option" where
  "after_check check w k = (case check of Err e \<Rightarrow> Some (w, Err e) | Ok _ \<Rightarrow> k)"


section \<open>Users\<close>

definition user_path :: "snowflake \<Rightarrow> string" where
  "user_path user_id = ''users/'' @ snowflake_to_string user_id"

definition user_list where
  "user_list E C limit offset w = fetch E (ac_user_details C) (page_path (ac_form C) ''users'' limit offset) w"

definition user_get where
  "user_get E C user_id w = fetch E (ac_user_detail C) (user_path user_id) w"

definition user_update where
  "user_update E C now user_id input opts w =
     mutate_json E (ac_user C) now Patch (user_path user_id) (ac_ser C (update_user_json input)) opts w"

definition reset_password where
  "reset_password E C now user_id password opts w =
     mutate_quiet E now Post (user_path user_id @ ''/password'') (ac_ser C (reset_password_json password)) opts w"

definition no_body_action where
  "no_body_action E now user_id action opts w =
     mutate_empty E now Post (user_path user_id @ ''/'' @ action) opts w"

definition user_kick where
  "user_kick E now user_id opts w = no_body_action E now user_id ''kick'' opts w"

definition user_ban where
  "user_ban E now user_id opts w = no_body_action E now user_id ''ban'' opts w"

definition user_unban where
  "user_unban E now user_id opts w = no_body_action E now user_id ''unban'' opts w"

definition user_delete where
  "user_delete E now user_id opts w = mutate_empty E now Delete (user_path user_id) opts w"

definition update_profile where
  "update_profile E C now input opts w =
     mutate_json E (ac_user C) now Patch ''me'' (ac_ser C (update_user_json input)) opts w"

definition change_password where
  "change_password E C now input opts w =
     mutate_quiet E now Post ''me/password'' (ac_ser C (change_password_json input)) opts w"

definition delete_avatar where
  "delete_avatar E now opts w = mutate_empty E now Delete ''me/avatar'' opts w"

text \<open>The multipart form of an upload; \<open>nanos\<close> is the clock.\<close>

definition CRLF :: string where
  "CRLF = [char_of (13 :: nat), char_of (10 :: nat)]"

definition multipart_boundary :: "nat \<Rightarrow> string" where
  "multipart_boundary nanos = ''zephyrvox-'' @ format_hex nanos"

definition is_ascii_control :: "char \<Rightarrow> bool" where
  "is_ascii_control c \<longleftrightarrow> code c < 32 \<or> code c = 127"

definition header_value :: "string \<Rightarrow> string \<Rightarrow> string" where
  "header_value v fallback =
     (let filtered = filter (\<lambda>c. \<not> is_ascii_control c \<and> c \<noteq> CHR 0x22) v
      in if filtered = [] then fallback else filtered)"

definition multipart_body :: "string \<Rightarrow> string \<Rightarrow> string \<Rightarrow> bytes \<Rightarrow> bytes" where
  "multipart_body boundary filename content_type bytes =
     bytes_of_string (''--'' @ boundary @ CRLF)
     @ bytes_of_string (''Content-Disposition: form-data; name='' @ [CHR 0x22] @ ''file'' @ [CHR 0x22] @ ''; filename=''
         @ [CHR 0x22] @ header_value filename ''upload.bin'' @ [CHR 0x22] @ CRLF)
     @ bytes_of_string (''Content-Type: '' @ header_value content_type ''application/octet-stream'' @ CRLF @ CRLF)
     @ bytes
     @ bytes_of_string (CRLF @ ''--'' @ boundary @ ''--'' @ CRLF)"

definition upload_avatar where
  "upload_avatar E C nanos now filename content_type bytes opts w =
     (let boundary = multipart_boundary nanos;
          body = multipart_body boundary filename content_type bytes
      in with_ensured now opts w (\<lambda>opts' w1.
           try_then (w1, empty_request (he_join E) Post ''me/avatar'' opts') (\<lambda>request w2.
           try_then (w2, set_header ''content-type'' (''multipart/form-data; boundary='' @ boundary) request)
             (\<lambda>request' w3.
               send_json E (ac_avatar C) (request'\<lparr>rq_body := Some body\<rparr>) (AccessTokenAuth True) w3))))"


section \<open>Groups\<close>

definition group_path :: "snowflake \<Rightarrow> string" where
  "group_path group_id = ''groups/'' @ snowflake_to_string group_id"

definition access_path :: "((string \<times> string) list \<Rightarrow> string) \<Rightarrow> string \<Rightarrow> nat \<Rightarrow> nat \<Rightarrow> string" where
  "access_path form resource limit offset =
     query_path form resource [(''limit'', format_dec limit), (''offset'', format_dec offset)]"

definition group_list where
  "group_list E C limit offset w = fetch E (ac_groups C) (page_path (ac_form C) ''groups'' limit offset) w"

definition group_get where
  "group_get E C group_id w = fetch E (ac_group C) (group_path group_id) w"

definition group_create where
  "group_create E C now input opts w =
     mutate_json E (ac_group C) now Post ''groups'' (ac_ser C (create_group_json input)) opts w"

definition group_update where
  "group_update E C now group_id input opts w =
     after_check (require_if_match opts) w
       (mutate_json E (ac_group C) now Patch (group_path group_id) (ac_ser C (update_group_json input)) opts w)"

definition group_delete where
  "group_delete E now group_id opts w =
     after_check (require_if_match opts) w (mutate_empty E now Delete (group_path group_id) opts w)"

definition group_list_access where
  "group_list_access E C group_id limit offset w =
     fetch E (ac_accesses C) (page_path (ac_form C) (group_path group_id @ ''/access'') limit offset) w"

definition mutate_access where
  "mutate_access E C now group_id subject opts grant_parent w =
     mutate_json E (ac_access C) now Post (group_path group_id @ ''/access'')
       (ac_ser C (access_request_json (from_principal subject grant_parent))) opts w"

definition group_add_access where
  "group_add_access E C now group_id subject opts w =
     after_check (require_if_match opts) w (mutate_access E C now group_id subject opts False w)"

definition group_delete_access where
  "group_delete_access E now group_id access_id opts w =
     after_check (require_if_match opts) w
       (mutate_empty E now Delete (group_path group_id @ ''/access/'' @ snowflake_to_string access_id) opts w)"


section \<open>Channels\<close>

definition channel_path :: "snowflake \<Rightarrow> string" where
  "channel_path channel_id = ''channels/'' @ snowflake_to_string channel_id"

definition channel_list where
  "channel_list E C group_id limit offset w =
     fetch E (ac_channels C)
       (case group_id of
          Some g \<Rightarrow> query_path (ac_form C) ''channels''
                      [(''group_id'', snowflake_to_string g), (''limit'', format_dec limit),
                       (''offset'', format_dec offset)]
        | None \<Rightarrow> page_path (ac_form C) ''channels'' limit offset) w"

definition channel_get where
  "channel_get E C channel_id w = fetch E (ac_channel C) (channel_path channel_id) w"

definition channel_create where
  "channel_create E C now input opts w =
     mutate_json E (ac_channel C) now Post ''channels'' (ac_ser C (create_channel_json input)) opts w"

definition channel_update where
  "channel_update E C now channel_id input opts w =
     after_check (require_if_match opts) w
       (mutate_json E (ac_channel C) now Patch (channel_path channel_id)
          (ac_ser C (update_channel_json input)) opts w)"

definition channel_delete where
  "channel_delete E now channel_id opts w =
     after_check (require_if_match opts) w (mutate_empty E now Delete (channel_path channel_id) opts w)"

definition channel_list_access where
  "channel_list_access E C channel_id limit offset w =
     fetch E (ac_accesses C) (access_path (ac_form C) (channel_path channel_id @ ''/access'') limit offset) w"

definition channel_add_access where
  "channel_add_access E C now channel_id subject grant_parent opts w =
     after_check (require_if_match opts) w
       (after_check (if grant_parent then require_parent_if_match opts else Ok ()) w
         (mutate_json E (ac_access C) now Post (channel_path channel_id @ ''/access'')
            (ac_ser C (access_request_json (from_principal subject grant_parent))) opts w))"

definition channel_delete_access where
  "channel_delete_access E now channel_id access_id opts w =
     after_check (require_if_match opts) w
       (mutate_empty E now Delete (channel_path channel_id @ ''/access/'' @ snowflake_to_string access_id) opts w)"


section \<open>Roles and permissions\<close>

definition valid_role_key :: "string \<Rightarrow> bool" where
  "valid_role_key key \<longleftrightarrow>
     1 \<le> length key \<and> length key \<le> 64 \<and> (case key of c # _ \<Rightarrow> is_ascii_lower c | [] \<Rightarrow> False)
     \<and> list_all (\<lambda>c. is_ascii_lower c \<or> is_ascii_digit c \<or> List.member ''_.-'' c) (drop 1 key)"

definition role_path :: "string \<Rightarrow> (string, http_error) result" where
  "role_path key =
     (if \<not> valid_role_key key then Err (HWire ''invalid role key'') else Ok (''rbac/roles/'' @ key))"

definition scope_query :: "((string \<times> string) list \<Rightarrow> string) \<Rightarrow> string \<Rightarrow> rbac_scope \<Rightarrow> string" where
  "scope_query form resource scope =
     query_path form resource
       ([(''scope_type'', rs_kind scope)]
        @ (case rs_id scope of Some i \<Rightarrow> [(''scope_id'', snowflake_to_string i)] | None \<Rightarrow> []))"

definition list_roles where
  "list_roles E C w = fetch E (ac_roles C) ''rbac/roles'' w"

definition create_role where
  "create_role E C now input opts w =
     mutate_json E (ac_role C) now Post ''rbac/roles'' (ac_ser C (create_role_json input)) opts w"

definition update_role where
  "update_role E C now key input opts w =
     with_ensured now opts w (\<lambda>opts' w1.
       try_then (w1, role_path key) (\<lambda>path w2.
       try_then (w2, json_request (he_join E) Patch path (ac_ser C (update_role_json input)) opts')
         (\<lambda>request w3. send_json E (ac_role C) request (AccessTokenAuth True) w3)))"

definition delete_role where
  "delete_role E now key opts w =
     with_ensured now opts w (\<lambda>opts' w1.
       try_then (w1, role_path key) (\<lambda>path w2.
       try_then (w2, empty_request (he_join E) Delete path opts')
         (\<lambda>request w3. send_no_content E request (AccessTokenAuth True) w3)))"

definition list_bindings where
  "list_bindings E C limit offset w =
     fetch E (ac_bindings C)
       (query_path (ac_form C) ''rbac/bindings''
          [(''limit'', format_dec limit), (''offset'', format_dec offset)]) w"

definition create_binding where
  "create_binding E C now input opts w =
     mutate_json E (ac_binding C) now Post ''rbac/bindings'' (ac_ser C (create_binding_json input)) opts w"

definition delete_binding where
  "delete_binding E now binding_id opts w =
     mutate_empty E now Delete (''rbac/bindings/'' @ snowflake_to_string binding_id) opts w"

definition transfer_owner where
  "transfer_owner E C now target_user_id opts w =
     mutate_json E (ac_transfer C) now Post ''owner/transfer''
       (ac_ser C (owner_transfer_json target_user_id)) opts w"

definition get_config where
  "get_config E C scope w = fetch E (ac_config C) (scope_query (ac_form C) ''rbac/config'' scope) w"

definition update_config where
  "update_config E C now input opts w =
     after_check (require_if_match opts) w
       (mutate_json E (ac_config C) now Put ''rbac/config''
          (ac_ser C (update_permission_config_json input)) opts w)"

definition reset_config where
  "reset_config E C now scope opts w =
     after_check (require_if_match opts) w
       (mutate_json E (ac_config C) now Post ''rbac/config/reset''
          (ac_ser C (reset_permission_config_json scope)) opts w)"


section \<open>Administration and moderation\<close>

text \<open>\<open>RequestOptions::mutation()\<close> as the argument of a call.\<close>

definition with_mutation ::
  "nat \<Rightarrow> ('u, 's) call_state \<Rightarrow> (request_options \<Rightarrow> ('u, 's) call_state \<Rightarrow> 'r option) \<Rightarrow> 'r option" where
  "with_mutation now w k =
     (case mutation_options now (cl_counter w) of
        (counter, None) \<Rightarrow> None
      | (counter, Some opts) \<Rightarrow> k opts (w\<lparr>cl_counter := counter\<rparr>))"

definition list_invites where
  "list_invites E C limit offset w =
     fetch E (ac_invites C) (page_path (ac_form C) ''admin/invites'' limit offset) w"

definition create_invite_with_options where
  "create_invite_with_options E C now input opts w =
     mutate_json E (ac_new_invite C) now Post ''admin/invites'' (ac_ser C (create_invite_json input)) opts w"

definition create_invite where
  "create_invite E C now input w = with_mutation now w (create_invite_with_options E C now input)"

definition delete_invite_with_options where
  "delete_invite_with_options E now invite_id opts w =
     mutate_empty E now Delete (''admin/invites/'' @ snowflake_to_string invite_id) opts w"

definition delete_invite where
  "delete_invite E now invite_id w = with_mutation now w (delete_invite_with_options E now invite_id)"

definition metrics where
  "metrics E C w = fetch E (ac_metrics C) ''admin/metrics'' w"

definition mute_list where
  "mute_list E C scope user_id kind limit offset w =
     fetch E (ac_mutes C)
       (query_path (ac_form C) ''mutes''
          ([(''scope_type'', ms_kind scope), (''limit'', format_dec limit), (''offset'', format_dec offset)]
           @ (case ms_id scope of Some i \<Rightarrow> [(''scope_id'', snowflake_to_string i)] | None \<Rightarrow> [])
           @ (case user_id of Some u \<Rightarrow> [(''user_id'', snowflake_to_string u)] | None \<Rightarrow> [])
           @ (case kind of Some k \<Rightarrow> [(''kind'', k)] | None \<Rightarrow> []))) w"

definition mute_create where
  "mute_create E C now input opts w =
     mutate_json E (ac_mute C) now Post ''mutes'' (ac_ser C (create_mute_json input)) opts w"

definition mute_path :: "snowflake \<Rightarrow> string" where
  "mute_path mute_id = ''mutes/'' @ snowflake_to_string mute_id"

definition mute_update where
  "mute_update E C now mute_id input opts w =
     after_check (require_if_match opts) w
       (mutate_json E (ac_mute C) now Patch (mute_path mute_id) (ac_ser C (update_mute_json input)) opts w)"

definition mute_delete where
  "mute_delete E now mute_id opts w =
     after_check (require_if_match opts) w (mutate_empty E now Delete (mute_path mute_id) opts w)"


section \<open>Accounts\<close>

definition fetch_auth_status where
  "fetch_auth_status E C w =
     try_then (w, empty_request (he_join E) Get ''auth/status'' request_options_new) (\<lambda>request w1.
     try_then (send_json E (ac_status C) request NoAuth w1) (\<lambda>response w2. (w2, Ok (ar_data response))))"

text \<open>\<open>Ok(call.await?.data)\<close>\<close>

definition data_of ::
  "('u, 's, 'a) reply option \<Rightarrow> (('u, 's) call_state \<times> ('a, http_error) result) option" where
  "data_of r = map_option (\<lambda>(w, x). (w, map_ok ar_data x)) r"

definition register_request_json :: "register_request \<Rightarrow> json" where
  "register_request_json r =
     JObject ([(''username'', JString (rg_username r)), (''password'', JString (rg_password r))]
       @ skip_none ''nickname'' JString (rg_nickname r) @ skip_none ''invite'' JString (rg_invite r))"

definition register_response where
  "register_response E C card_invite now input w =
     with_mutation now w
       (register_response_with_options E card_invite (\<lambda>r. ac_ser C (register_request_json r)) (ac_user C) now input)"

definition register_with_options where
  "register_with_options E C card_invite now input opts w =
     data_of (register_response_with_options E card_invite (\<lambda>r. ac_ser C (register_request_json r))
                (ac_user C) now input opts w)"

definition register where
  "register E C card_invite now input w = with_mutation now w (register_with_options E C card_invite now input)"

definition activate_response where
  "activate_response E C now input w =
     with_mutation now w
       (activate_response_with_options E (ac_user C) now (ac_ser C (activate_request_json input)))"

definition activate_with_options where
  "activate_with_options E C now input opts w =
     data_of (activate_response_with_options E (ac_user C) now (ac_ser C (activate_request_json input)) opts w)"

definition activate where
  "activate E C now input w = with_mutation now w (activate_with_options E C now input)"

definition auth_refresh ::
  "('u, 's, 'v) http_env \<Rightarrow> ('u, 's) call_state \<Rightarrow> ('u, 's) call_state \<times> outcome" where
  "auth_refresh E w = on_cell (he_refresh E) w"

definition logout where
  "logout E C now w =
     with_mutation now w (logout_with_options E (\<lambda>t. ac_ser C (logout_request_json t)) now)"

definition list_users where
  "list_users E C limit offset w =
     try_then (fetch E (ac_user_details C)
                 (''users?limit='' @ format_dec limit @ ''&offset='' @ format_dec offset) w)
       (\<lambda>response w1. (w1, Ok (ar_data response)))"

end
