(* ===== verification/EndpointLaws.thy ===== *)
theory EndpointLaws
  imports Endpoints
begin

text \<open>
  What the endpoints promise: every mutation carries a retry identity and the caller's preconditions in
  each request it sends, the endpoints that need an entity tag refuse to run without one, and the
  bodies they write can be read back.
\<close>

section \<open>The log of a mutation\<close>

text \<open>
  At most two requests, all with the method of the endpoint and with the headers that the options
  stand for, equal up to the bearer token.
\<close>

definition carries :: "http_method \<Rightarrow> request_options \<Rightarrow> 'u http_request \<Rightarrow> bool" where
  "carries m opts q \<longleftrightarrow>
     rq_method q = m
     \<and> (case ro_idempotency_key opts of
          Some k \<Rightarrow> request_header IDEMPOTENCY_KEY q = Some (idempotency_key_as_str k) | None \<Rightarrow> True)
     \<and> (case ro_if_match opts of
          Some t \<Rightarrow> request_header IF_MATCH q = Some (etag_as_str t) | None \<Rightarrow> True)
     \<and> (case ro_parent_if_match opts of
          Some t \<Rightarrow> request_header PARENT_IF_MATCH q = Some (etag_as_str t) | None \<Rightarrow> True)"

definition logged :: "http_method \<Rightarrow> request_options \<Rightarrow> ('u, 's) call_state \<Rightarrow> ('u, 's) call_state \<Rightarrow> bool" where
  "logged m opts w w' \<longleftrightarrow>
     (\<exists>extra. cl_sent w' = cl_sent w @ extra \<and> length extra \<le> 2 \<and> (\<forall>q \<in> set extra. carries m opts q)
        \<and> (\<forall>q \<in> set extra. \<forall>q' \<in> set extra. \<exists>t. q' = authorised q t))"

lemma set_optional_parts:
  assumes "set_optional name print x r = Ok r'"
  shows "rq_method r' = rq_method r \<and> rq_url r' = rq_url r \<and> rq_body r' = rq_body r
    \<and> (case x of Some v \<Rightarrow> rq_headers r' = (rq_headers r)(to_ascii_lowercase name \<mapsto> print v)
       | None \<Rightarrow> rq_headers r' = rq_headers r)"
  using assms by (cases x) (auto simp: set_optional_def set_header_Ok_iff)

lemma apply_options_carries:
  assumes "apply_options opts r = Ok r'" "rq_method r = m"
  shows "carries m opts r'"
proof -
  from assms(1) obtain r1 r2 r3 where
      a: "set_optional IDEMPOTENCY_KEY idempotency_key_as_str (ro_idempotency_key opts) r = Ok r1"
         "set_optional IF_MATCH etag_as_str (ro_if_match opts) r1 = Ok r2"
         "set_optional PARENT_IF_MATCH etag_as_str (ro_parent_if_match opts) r2 = Ok r3"
         "set_optional CONTROL_CONNECTION fixed_id_to_hex (ro_control_connection opts) r3 = Ok r'"
    by (auto simp: apply_options_def and_then_eq_Ok)
  note p = a [THEN set_optional_parts]
  have meth: "rq_method r' = m" using p assms(2) by simp
  show ?thesis
    unfolding carries_def
    using p meth by (auto simp: request_header_def option_names_lower split: option.splits)
qed

lemma carries_authorised [simp]: "carries m opts (authorised q t) \<longleftrightarrow> carries m opts q"
  by (simp add: carries_def authorised_def request_header_def option_names_lower split: option.split)

lemma empty_request_carries: "empty_request join m path opts = Ok q \<Longrightarrow> carries m opts q"
  by (auto simp: empty_request_def and_then_eq_Ok http_request_new_def intro: apply_options_carries)

lemma json_request_carries: "json_request join m path body opts = Ok q \<Longrightarrow> carries m opts q"
  by (auto simp: json_request_def and_then_eq_Ok http_request_new_def set_json_def set_header_Ok_iff
      intro: apply_options_carries)

lemma logged_nothing: "cl_sent w' = cl_sent w \<Longrightarrow> logged m opts w w'"
  by (simp add: logged_def)

lemma send_request_logged:
  assumes "carries m opts q" "cl_sent w1 = cl_sent w"
  shows "logged m opts w (fst (send_request E q (AccessTokenAuth retry) w1))"
proof -
  obtain extra where e: "cl_sent (fst (send_request E q (AccessTokenAuth retry) w1)) = cl_sent w1 @ extra"
    and c: "extra = [] \<or> (\<exists>t. extra = [authorised q t]) \<or> (\<exists>t t'. extra = [authorised q t, authorised q t'])"
    using send_request_log [of E q "AccessTokenAuth retry" w1] by auto
  have "\<forall>x \<in> set extra. carries m opts x" "length extra \<le> 2" using c assms(1) by auto
  moreover have "\<forall>x \<in> set extra. \<forall>x' \<in> set extra. \<exists>t. x' = authorised x t"
    using c by (elim disjE exE) (simp_all, blast+)
  ultimately show ?thesis using e assms(2) by (auto simp: logged_def)
qed

lemma fst_try_then_pure: "fst (try_then x (\<lambda>a w. (w, f a))) = fst x"
  by (cases x; cases "snd x") simp_all

lemma send_json_logged:
  "carries m opts q \<Longrightarrow> cl_sent w1 = cl_sent w \<Longrightarrow> logged m opts w (fst (send_json E dec q (AccessTokenAuth retry) w1))"
  by (simp add: send_json_def fst_try_then_pure send_request_logged)

lemma send_no_content_logged:
  "carries m opts q \<Longrightarrow> cl_sent w1 = cl_sent w
   \<Longrightarrow> logged m opts w (fst (send_no_content E q (AccessTokenAuth retry) w1))"
  by (simp add: send_no_content_def fst_try_then_pure send_request_logged)

lemma try_then_logged:
  assumes "cl_sent w1 = cl_sent w" "\<And>a. x = Ok a \<Longrightarrow> logged m opts w (fst (k a w1))"
  shows "logged m opts w (fst (try_then (w1, x) k))"
  using assms by (cases x) (simp_all add: logged_nothing)

text \<open>The state and the error a call ends with.\<close>

definition outcome_of ::
  "(('u, 's) call_state \<times> ('a, 'e) result) option \<Rightarrow> (('u, 's) call_state \<times> 'e option) option" where
  "outcome_of r = map_option (\<lambda>(w, x). (w, case x of Ok _ \<Rightarrow> None | Err e \<Rightarrow> Some e)) r"

text \<open>
  A call that does not panic and whose requests carry its options with one idempotency key: the
  caller's, or a generated one.
\<close>

definition identified ::
  "http_method \<Rightarrow> request_options \<Rightarrow> ('u, 's) call_state \<Rightarrow> (('u, 's) call_state \<times> 'e option) option \<Rightarrow> bool" where
  "identified m opts w res \<longleftrightarrow>
     (\<exists>w' e key. res = Some (w', e) \<and> logged m (with_idempotency_key key opts) w w'
        \<and> (\<forall>k. ro_idempotency_key opts = Some k \<longrightarrow> key = k))"

lemma with_ensured_identified:
  assumes "now < 2 ^ 128"
    and "\<And>opts' w1. cl_sent w1 = cl_sent w \<Longrightarrow> logged m opts' w (fst (k opts' w1))"
  shows "identified m opts w (outcome_of (with_ensured now opts w k))"
proof -
  obtain key counter where e: "ensure_idempotency now (cl_counter w) opts
      = (counter, Some (with_idempotency_key key opts))"
    "\<forall>k. ro_idempotency_key opts = Some k \<longrightarrow> key = k"
  proof (cases "ro_idempotency_key opts")
    case (Some k)
    then show ?thesis
      by (intro that [of "cl_counter w" k]) (auto simp: ensure_idempotency_def with_idempotency_key_def)
  next
    case None
    let ?text = "''sdk-'' @ pad_zero 16 (format_hex now) @ ''-'' @ pad_zero 16 (format_hex (unat (cl_counter w)))"
    have "idempotency_key_new ?text = Ok (IdempotencyKey ?text)"
      using generated_key_text [OF assms(1), of "cl_counter w"] by (simp add: idempotency_key_new_Ok_iff)
    with None show ?thesis
      by (intro that [of "cl_counter w + 1" "IdempotencyKey ?text"])
        (auto simp: ensure_idempotency_def generate_idempotency_key_def with_idempotency_key_def)
  qed
  have "logged m (with_idempotency_key key opts) w
      (fst (k (with_idempotency_key key opts) (w\<lparr>cl_counter := counter\<rparr>)))"
    by (rule assms(2)) simp
  then show ?thesis
    using e by (auto simp: identified_def outcome_of_def with_ensured_def split: prod.splits)
qed

lemma mutate_identified:
  assumes "now < 2 ^ 128"
  shows "identified m opts w (outcome_of (mutate_json E dec now m path body opts w))"
    and "identified m opts w (outcome_of (mutate_quiet E now m path body opts w))"
    and "identified m opts w (outcome_of (mutate_empty E now m path opts w))"
  unfolding mutate_json_def mutate_quiet_def mutate_empty_def
  by (intro with_ensured_identified [OF assms] try_then_logged send_json_logged send_no_content_logged
      json_request_carries empty_request_carries; assumption)+

lemma after_check_identified:
  assumes "identified m opts w (outcome_of k)"
  shows "identified m opts w (outcome_of (after_check check w k))"
proof (cases check)
  case (Err e)
  obtain key where "\<forall>k. ro_idempotency_key opts = Some k \<longrightarrow> key = k" by (cases "ro_idempotency_key opts") auto
  with Err show ?thesis by (auto simp: after_check_def identified_def outcome_of_def intro: logged_nothing)
qed (simp add: after_check_def assms)

lemma role_calls_identified:
  assumes "now < 2 ^ 128"
  shows "identified Patch opts w (outcome_of (update_role E C now key input opts w))"
    and "identified Delete opts w (outcome_of (delete_role E now key opts w))"
  unfolding update_role_def delete_role_def
  by (intro with_ensured_identified [OF assms] try_then_logged send_json_logged send_no_content_logged
      json_request_carries empty_request_carries; assumption)+

lemma set_header_carries:
  assumes "set_header ''content-type'' v q = Ok q'" "carries m opts q"
  shows "carries m opts (q'\<lparr>rq_body := body\<rparr>)"
proof -
  have "to_ascii_lowercase ''content-type'' = ''content-type''" by code_simp
  then show ?thesis
    using assms by (auto simp: set_header_Ok_iff carries_def request_header_def option_names_lower split: option.splits)
qed

lemma upload_identified:
  assumes "now < 2 ^ 128"
  shows "identified Post opts w (outcome_of (upload_avatar E C nanos now filename content_type bytes opts w))"
  unfolding upload_avatar_def Let_def
  by (intro with_ensured_identified [OF assms] try_then_logged send_json_logged set_header_carries
      empty_request_carries; assumption)


section \<open>All mutations\<close>

text \<open>The arguments of the mutations, one of each kind.\<close>

record api_input =
  ai_id :: snowflake
  ai_other :: snowflake
  ai_text :: string
  ai_label :: string
  ai_bytes :: bytes
  ai_nanos :: nat
  ai_user :: update_user_request
  ai_passwords :: change_password_request
  ai_new_group :: create_group_request
  ai_group :: update_group_request
  ai_subject :: access_principal
  ai_grant_parent :: bool
  ai_new_channel :: create_channel_request
  ai_channel :: update_channel_request
  ai_new_role :: create_role_request
  ai_role :: update_role_request
  ai_binding :: create_binding_request
  ai_scope :: rbac_scope
  ai_config :: update_permission_config_request
  ai_invite :: create_invite_request
  ai_new_mute :: create_mute_request
  ai_mute :: update_mute_request

type_synonym ('u, 's) mutation =
  "request_options \<Rightarrow> ('u, 's) call_state \<Rightarrow> (('u, 's) call_state \<times> http_error option) option"

definition plain_mutations ::
  "('u, 's, 'v) http_env \<Rightarrow> ('v, 'f) api_codec \<Rightarrow> nat \<Rightarrow> api_input \<Rightarrow> (http_method \<times> ('u, 's) mutation) list" where
  "plain_mutations E C now a =
     [(Patch, \<lambda>o' w. outcome_of (user_update E C now (ai_id a) (ai_user a) o' w)),
      (Post, \<lambda>o' w. outcome_of (reset_password E C now (ai_id a) (ai_text a) o' w)),
      (Post, \<lambda>o' w. outcome_of (user_kick E now (ai_id a) o' w)),
      (Post, \<lambda>o' w. outcome_of (user_ban E now (ai_id a) o' w)),
      (Post, \<lambda>o' w. outcome_of (user_unban E now (ai_id a) o' w)),
      (Delete, \<lambda>o' w. outcome_of (user_delete E now (ai_id a) o' w)),
      (Patch, \<lambda>o' w. outcome_of (update_profile E C now (ai_user a) o' w)),
      (Post, \<lambda>o' w. outcome_of (change_password E C now (ai_passwords a) o' w)),
      (Post, \<lambda>o' w. outcome_of (upload_avatar E C (ai_nanos a) now (ai_text a) (ai_label a) (ai_bytes a) o' w)),
      (Delete, \<lambda>o' w. outcome_of (delete_avatar E now o' w)),
      (Post, \<lambda>o' w. outcome_of (group_create E C now (ai_new_group a) o' w)),
      (Post, \<lambda>o' w. outcome_of (channel_create E C now (ai_new_channel a) o' w)),
      (Post, \<lambda>o' w. outcome_of (create_role E C now (ai_new_role a) o' w)),
      (Patch, \<lambda>o' w. outcome_of (update_role E C now (ai_text a) (ai_role a) o' w)),
      (Delete, \<lambda>o' w. outcome_of (delete_role E now (ai_text a) o' w)),
      (Post, \<lambda>o' w. outcome_of (create_binding E C now (ai_binding a) o' w)),
      (Delete, \<lambda>o' w. outcome_of (delete_binding E now (ai_id a) o' w)),
      (Post, \<lambda>o' w. outcome_of (transfer_owner E C now (ai_id a) o' w)),
      (Post, \<lambda>o' w. outcome_of (create_invite_with_options E C now (ai_invite a) o' w)),
      (Delete, \<lambda>o' w. outcome_of (delete_invite_with_options E now (ai_id a) o' w)),
      (Post, \<lambda>o' w. outcome_of (mute_create E C now (ai_new_mute a) o' w))]"

text \<open>The mutations of versioned resources, which need the current entity tag.\<close>

definition conditional_mutations ::
  "('u, 's, 'v) http_env \<Rightarrow> ('v, 'f) api_codec \<Rightarrow> nat \<Rightarrow> api_input \<Rightarrow> (http_method \<times> ('u, 's) mutation) list" where
  "conditional_mutations E C now a =
     [(Patch, \<lambda>o' w. outcome_of (group_update E C now (ai_id a) (ai_group a) o' w)),
      (Delete, \<lambda>o' w. outcome_of (group_delete E now (ai_id a) o' w)),
      (Post, \<lambda>o' w. outcome_of (group_add_access E C now (ai_id a) (ai_subject a) o' w)),
      (Delete, \<lambda>o' w. outcome_of (group_delete_access E now (ai_id a) (ai_other a) o' w)),
      (Patch, \<lambda>o' w. outcome_of (channel_update E C now (ai_id a) (ai_channel a) o' w)),
      (Delete, \<lambda>o' w. outcome_of (channel_delete E now (ai_id a) o' w)),
      (Post, \<lambda>o' w. outcome_of (channel_add_access E C now (ai_id a) (ai_subject a) (ai_grant_parent a) o' w)),
      (Delete, \<lambda>o' w. outcome_of (channel_delete_access E now (ai_id a) (ai_other a) o' w)),
      (Put, \<lambda>o' w. outcome_of (update_config E C now (ai_config a) o' w)),
      (Post, \<lambda>o' w. outcome_of (reset_config E C now (ai_scope a) o' w)),
      (Patch, \<lambda>o' w. outcome_of (mute_update E C now (ai_id a) (ai_mute a) o' w)),
      (Delete, \<lambda>o' w. outcome_of (mute_delete E now (ai_id a) o' w))]"

lemma plain_mutations_identified:
  assumes "(m, call) \<in> set (plain_mutations E C now a)" "now < 2 ^ 128"
  shows "identified m opts w (call opts w)"
  using assms(1) unfolding plain_mutations_def
  by (auto simp: user_update_def reset_password_def user_kick_def user_ban_def user_unban_def no_body_action_def
      user_delete_def update_profile_def change_password_def delete_avatar_def group_create_def
      channel_create_def create_role_def create_binding_def delete_binding_def transfer_owner_def
      create_invite_with_options_def delete_invite_with_options_def mute_create_def
      intro: mutate_identified [OF assms(2)] role_calls_identified [OF assms(2)] upload_identified [OF assms(2)])

lemmas conditional_defs = group_update_def group_delete_def group_add_access_def mutate_access_def
  group_delete_access_def channel_update_def channel_delete_def channel_add_access_def
  channel_delete_access_def update_config_def reset_config_def mute_update_def mute_delete_def

lemma conditional_mutations_identified:
  assumes "(m, call) \<in> set (conditional_mutations E C now a)" "now < 2 ^ 128"
  shows "identified m opts w (call opts w)"
  using assms(1) unfolding conditional_mutations_def conditional_defs
  by (auto intro!: after_check_identified mutate_identified [OF assms(2)])

lemma conditional_mutations_refused:
  assumes "(m, call) \<in> set (conditional_mutations E C now a)" "ro_if_match opts = None"
  shows "call opts w = Some (w, Some (MissingPrecondition IF_MATCH))"
  using assms unfolding conditional_mutations_def conditional_defs
  by (auto simp: after_check_def outcome_of_def require_if_match_def fail_if_def)


section \<open>Properties\<close>


definition sample_codec :: "(unit, unit) api_codec" where
  "sample_codec =
     \<lparr>ac_ser = \<lambda>_. Ok [], ac_form = \<lambda>_. [], ac_user = \<lambda>_. Err ''no data'', ac_user_detail = \<lambda>_. Err ''no data'',
          ac_user_details = \<lambda>_. Err ''no data'', ac_avatar = \<lambda>_. Err ''no data'', ac_group = \<lambda>_. Err ''no data'',
          ac_groups = \<lambda>_. Err ''no data'', ac_access = \<lambda>_. Err ''no data'', ac_accesses = \<lambda>_. Err ''no data'',
          ac_channel = \<lambda>_. Err ''no data'', ac_channels = \<lambda>_. Err ''no data'', ac_role = \<lambda>_. Err ''no data'',
          ac_roles = \<lambda>_. Err ''no data'', ac_binding = \<lambda>_. Err ''no data'', ac_bindings = \<lambda>_. Err ''no data'',
          ac_transfer = \<lambda>_. Err ''no data'', ac_config = \<lambda>_. Err ''no data'', ac_invites = \<lambda>_. Err ''no data'',
          ac_new_invite = \<lambda>_. Err ''no data'', ac_metrics = \<lambda>_. Err ''no data'', ac_mute = \<lambda>_. Err ''no data'',
          ac_mutes = \<lambda>_. Err ''no data'', ac_status = \<lambda>_. Err ''no data''\<rparr>"

definition sample_input :: api_input where
  "sample_input =
     (let scope = \<lparr>rs_kind = ''server'', rs_id = None\<rparr>; lobby = Snowflake 7
      in \<lparr>ai_id = lobby, ai_other = Snowflake 9, ai_text = ''member'', ai_label = ''image/png'', ai_bytes = [],
          ai_nanos = 5, ai_user = \<lparr>uu_nickname = None\<rparr>,
          ai_passwords = \<lparr>cp_old_password = ''a'', cp_new_password = ''b''\<rparr>,
          ai_new_group = \<lparr>cg_name = ''g'', cg_position = 0, cg_visibility = ''public''\<rparr>,
          ai_group = \<lparr>ug_name = None, ug_position = None, ug_visibility = None\<rparr>,
          ai_subject = RolePrincipal ''member'', ai_grant_parent = False,
          ai_new_channel = \<lparr>cc_group_id = None, cc_channel_name = ''lobby'', cc_mode = ''voice'', cc_temporary = False,
            cc_visibility = ''public'', cc_capacity = None, cc_position = 0, cc_pinned = False\<rparr>,
          ai_channel = \<lparr>uc_group_id = Some None, uc_name = None, uc_visibility = None, uc_capacity = None,
            uc_position = None, uc_pinned = None\<rparr>,
          ai_new_role = \<lparr>cr_key = ''member'', cr_display_name = ''Member'', cr_rank = 1\<rparr>,
          ai_role = \<lparr>ur_display_name = None, ur_rank = None\<rparr>,
          ai_binding = \<lparr>cb_user_id = Snowflake 9, cb_role_key = ''member'', cb_scope = scope\<rparr>,
          ai_scope = scope, ai_config = \<lparr>up_scope = scope, up_config = []\<rparr>,
          ai_invite = \<lparr>ci_role = None, ci_uses = None, ci_expires_at = None\<rparr>,
          ai_new_mute = \<lparr>cm_scope = \<lparr>ms_kind = ''channel'', ms_id = Some lobby\<rparr>, cm_user_id = Snowflake 9,
            cm_kind = ''voice'', cm_expires_at = None, cm_reason = None\<rparr>,
          ai_mute = \<lparr>um_expires_at = None, um_reason = None\<rparr>\<rparr>)"



section \<open>Role paths\<close>

text \<open>A role key that passes the grammar stays one segment of the path, whatever the URL library does.\<close>

lemma role_path_segment:
  assumes "role_path key = Ok p"
  shows "p = ''rbac/roles/'' @ key \<and> set key \<inter> set ''/?#%'' = {} \<and> key \<notin> {''.'', ''..''}"
proof -
  have key: "valid_role_key key" "p = ''rbac/roles/'' @ key"
    using assms by (auto simp: role_path_def split: if_splits)
  then obtain c cs where k: "key = c # cs" "is_ascii_lower c"
    "list_all (\<lambda>c. is_ascii_lower c \<or> is_ascii_digit c \<or> List.member ''_.-'' c) cs"
    by (cases key) (auto simp: valid_role_key_def)
  have bad: "\<not> is_ascii_lower x \<and> \<not> is_ascii_digit x \<and> \<not> List.member ''_.-'' x" if "x \<in> set ''/?#%''" for x
    using that by (auto simp: is_ascii_lower_def is_ascii_digit_def)
  have "\<not> is_ascii_lower CHR ''.''" by code_simp
  then show ?thesis using key k bad by (fastforce simp: list_all_iff)
qed


section \<open>Reading an upload\<close>

text \<open>
  A reader of multipart forms with one part: lines end at the first \<open>CRLF\<close>, the content at the first
  delimiter line.
\<close>

fun split_first :: "'a list \<Rightarrow> 'a list \<Rightarrow> ('a list \<times> 'a list) option" where
  "split_first pat xs =
     (if take (length pat) xs = pat then Some ([], drop (length pat) xs)
      else case xs of [] \<Rightarrow> None | x # r \<Rightarrow> map_option (\<lambda>(a, b). (x # a, b)) (split_first pat r))"

declare split_first.simps [simp del]

definition strip_prefix :: "'a list \<Rightarrow> 'a list \<Rightarrow> 'a list option" where
  "strip_prefix pat xs = (if take (length pat) xs = pat then Some (drop (length pat) xs) else None)"

definition DISPOSITION :: string where
  "DISPOSITION = ''Content-Disposition: form-data; name='' @ [CHR 0x22] @ ''file'' @ [CHR 0x22] @ ''; filename='' @ [CHR 0x22]"

definition read_upload :: "bytes \<Rightarrow> bytes \<Rightarrow> (bytes \<times> bytes \<times> bytes) option" where
  "read_upload boundary body =
     (let line = split_first (bytes_of_string CRLF); dash = bytes_of_string ''--''
      in Option.bind (line body) (\<lambda>(first, r1).
         Option.bind (line r1) (\<lambda>(disposition, r2).
         Option.bind (line r2) (\<lambda>(content_type, r3).
         Option.bind (line r3) (\<lambda>(blank, r4).
         Option.bind (split_first (bytes_of_string CRLF @ dash @ boundary) r4) (\<lambda>(content, r5).
         Option.bind (strip_prefix (bytes_of_string DISPOSITION) disposition) (\<lambda>filename.
         Option.bind (strip_prefix (bytes_of_string ''Content-Type: '') content_type) (\<lambda>type.
           if first = dash @ boundary \<and> blank = [] \<and> r5 = dash @ bytes_of_string CRLF
           then Some (takeWhile (\<lambda>b. b \<noteq> 34) filename, type, content) else None))))))))"

lemma strip_prefix_append: "strip_prefix pat (pat @ xs) = Some xs"
  by (simp add: strip_prefix_def)

text \<open>Where the pattern cannot overlap itself and does not occur, it is found where it was put.\<close>

lemma split_first_append:
  assumes "p \<notin> set ps" "\<And>l r. xs \<noteq> l @ (p # ps) @ r"
  shows "split_first (p # ps) (xs @ (p # ps) @ ys) = Some (xs, ys)"
  using assms(2)
proof (induction xs)
  case Nil
  then show ?case by (subst split_first.simps) simp
next
  case (Cons x xs)
  have "take (length (p # ps)) (x # xs @ (p # ps) @ ys) \<noteq> p # ps"
  proof
    assume eq: "take (length (p # ps)) (x # xs @ (p # ps) @ ys) = p # ps"
    show False
    proof (cases "length (p # ps) \<le> length (x # xs)")
      case True
      then have "x # xs = [] @ (p # ps) @ drop (length (p # ps)) (x # xs)"
        using eq by (metis append.left_neutral append_Cons append_take_drop_id take_append diff_is_0_eq take0 append_Nil2)
      then show False using Cons.prems by blast
    next
      case False
      then obtain k where k: "length (p # ps) - length (x # xs) = Suc k" by (metis Suc_diff_Suc not_le)
      have "p # ps = (x # xs) @ take (Suc k) ((p # ps) @ ys)"
        using eq False by (simp add: k [symmetric] take_Cons')
      then have "ps = xs @ p # take k (ps @ ys)" by (metis append_Cons list.inject take_Suc_Cons)
      then have "p \<in> set ps" by (metis in_set_conv_decomp)
      then show False using assms(1) by simp
    qed
  qed
  moreover have "split_first (p # ps) (xs @ (p # ps) @ ys) = Some (xs, ys)"
    by (rule Cons.IH) (metis Cons.prems append_Cons)
  ultimately show ?case by (subst split_first.simps) simp
qed

lemma split_line:
  assumes "(13 :: u8) \<notin> set xs"
  shows "split_first (bytes_of_string CRLF) (xs @ bytes_of_string CRLF @ ys) = Some (xs, ys)"
proof -
  have c: "bytes_of_string CRLF = 13 # [10]" by code_simp
  show ?thesis unfolding c by (rule split_first_append) (use assms in auto)
qed

lemma bytes_of_string_append [simp]: "bytes_of_string (s @ t) = bytes_of_string s @ bytes_of_string t"
  by (simp add: bytes_of_string_def)

lemma byte_of_char_iff: "(of_nat (code c) :: u8) = of_nat n \<longleftrightarrow> code c = n" if "n < 256"
proof -
  have "code c < 256" by (metis nat_of_char_less_256)
  then show ?thesis using that by (simp add: word_unat_eq_iff unat_of_nat)
qed

text \<open>A text without control characters and quotes.\<close>

definition clean_text :: "string \<Rightarrow> bool" where
  "clean_text s \<longleftrightarrow> list_all (\<lambda>c. \<not> is_ascii_control c \<and> c \<noteq> CHR 0x22) s"

lemma clean_text_append: "clean_text (s @ t) \<longleftrightarrow> clean_text s \<and> clean_text t"
  by (simp add: clean_text_def)

lemma header_value_clean: "clean_text fallback \<Longrightarrow> clean_text (header_value v fallback)"
  by (auto simp: clean_text_def header_value_def Let_def list_all_iff)

lemma clean_text_bytes:
  assumes "clean_text s"
  shows "13 \<notin> set (bytes_of_string s) \<and> 34 \<notin> set (bytes_of_string s)"
proof -
  have "(of_nat (code c) :: u8) \<noteq> 13 \<and> (of_nat (code c) :: u8) \<noteq> 34" if "c \<in> set s" for c
  proof -
    have "\<not> is_ascii_control c" "c \<noteq> CHR 0x22" using assms that by (auto simp: clean_text_def list_all_iff)
    moreover have "CHR 0x22 = char_of (34 :: nat)" by code_simp
    ultimately have "code c \<noteq> 13" "code c \<noteq> 34"
      by (auto simp: is_ascii_control_def) (metis char_of_char)
    then show ?thesis using byte_of_char_iff [of 13 c] byte_of_char_iff [of 34 c] by simp
  qed
  then show ?thesis by (auto simp: bytes_of_string_def)
qed

lemma token_text_clean: "list_all is_token_char s \<Longrightarrow> clean_text s"
  by (auto simp: clean_text_def list_all_iff is_token_char_def is_ascii_alphanumeric_def is_ascii_upper_def is_ascii_lower_def
      is_ascii_digit_def is_ascii_control_def)

lemma boundary_clean: "clean_text (multipart_boundary nanos)"
proof -
  have "clean_text ''zephyrvox-''" by code_simp
  then show ?thesis
    unfolding multipart_boundary_def clean_text_append by (simp add: token_text_clean format_hex_valid)
qed

lemma takeWhile_quote: "34 \<notin> set xs \<Longrightarrow> takeWhile (\<lambda>b. b \<noteq> 34) (xs @ [34 :: u8]) = xs"
  by (induction xs) auto

lemma read_upload_lines:
  assumes "13 \<notin> set l1" "13 \<notin> set l2" "13 \<notin> set l3" "l1 = bytes_of_string ''--'' @ boundary"
    and "\<And>ys. split_first (bytes_of_string CRLF @ bytes_of_string ''--'' @ boundary)
          (content @ (bytes_of_string CRLF @ bytes_of_string ''--'' @ boundary) @ ys) = Some (content, ys)"
    and "strip_prefix (bytes_of_string DISPOSITION) l2 = Some f"
    and "strip_prefix (bytes_of_string ''Content-Type: '') l3 = Some t"
  shows "read_upload boundary (l1 @ bytes_of_string CRLF @ l2 @ bytes_of_string CRLF @ l3 @ bytes_of_string CRLF
      @ bytes_of_string CRLF @ content @ (bytes_of_string CRLF @ bytes_of_string ''--'' @ boundary)
      @ bytes_of_string ''--'' @ bytes_of_string CRLF)
    = Some (takeWhile (\<lambda>b. b \<noteq> 34) f, t, content)"
proof -
  have blank: "split_first (bytes_of_string CRLF) (bytes_of_string CRLF @ ys) = Some ([], ys)" for ys
    using split_line [of "[]" ys] by simp
  show ?thesis
    unfolding read_upload_def Let_def
    by (simp only: split_line [OF assms(1)] split_line [OF assms(2)] split_line [OF assms(3)] blank assms(5-7)
        bind.simps prod.case) (simp add: assms(4))
qed

text \<open>
  Claim C38. An avatar upload is read back as it was given: for every file name, media type and content
  in which the delimiter of the form does not occur, the reader of the form finds the cleaned file name,
  the cleaned media type and exactly the content. The two texts lose their control characters and
  quotes, so no file name can end its header line or start another part.
\<close>

theorem upload_roundtrip:
  assumes "\<And>l r. content \<noteq> l @ bytes_of_string (CRLF @ ''--'' @ multipart_boundary nanos) @ r"
  shows "read_upload (bytes_of_string (multipart_boundary nanos))
      (multipart_body (multipart_boundary nanos) filename content_type content)
    = Some (bytes_of_string (header_value filename ''upload.bin''),
            bytes_of_string (header_value content_type ''application/octet-stream''), content)"
proof -
  let ?b = "multipart_boundary nanos" and ?crlf = "bytes_of_string CRLF"
  let ?f = "header_value filename ''upload.bin''" and ?t = "header_value content_type ''application/octet-stream''"
  let ?line1 = "bytes_of_string (''--'' @ ?b)"
    and ?line2 = "bytes_of_string (DISPOSITION @ ?f @ [CHR 0x22])"
    and ?line3 = "bytes_of_string (''Content-Type: '' @ ?t)"
  have clean: "clean_text ''upload.bin''"
    "clean_text ''application/octet-stream''"
    "clean_text ''--''"
    "clean_text ''Content-Type: ''"
    by code_simp+
  have lit: "13 \<notin> set (bytes_of_string DISPOSITION)" "bytes_of_string [CHR 0x22] = [34]"
    "?crlf = 13 # [10]" by code_simp+
  note texts = clean(1,2) [THEN header_value_clean, THEN clean_text_bytes] clean(3,4) [THEN clean_text_bytes]
    boundary_clean [THEN clean_text_bytes]
  have lines: "13 \<notin> set ?line1" "13 \<notin> set ?line2" "13 \<notin> set ?line3"
    using texts lit unfolding bytes_of_string_append set_append by simp_all
  have body: "multipart_body ?b filename content_type content
      = ?line1 @ ?crlf @ ?line2 @ ?crlf @ ?line3 @ ?crlf @ ?crlf
        @ content @ (?crlf @ bytes_of_string ''--'' @ bytes_of_string ?b) @ bytes_of_string ''--'' @ ?crlf"
    by (simp only: multipart_body_def DISPOSITION_def bytes_of_string_append append_assoc append_Nil)
  have cut: "split_first (bytes_of_string (CRLF @ ''--'' @ ?b))
      (content @ bytes_of_string (CRLF @ ''--'' @ ?b) @ ys) = Some (content, ys)" for ys
    using split_first_append [of 13 "10 # bytes_of_string (''--'' @ ?b)" content ys] assms lines(1)
    by (simp add: lit(3))
  have cut': "split_first (?crlf @ bytes_of_string ''--'' @ bytes_of_string ?b)
      (content @ (?crlf @ bytes_of_string ''--'' @ bytes_of_string ?b) @ ys) = Some (content, ys)" for ys
    using cut by (simp only: bytes_of_string_append)
  have names: "strip_prefix (bytes_of_string DISPOSITION) ?line2 = Some (bytes_of_string ?f @ [34])"
    "strip_prefix (bytes_of_string ''Content-Type: '') ?line3 = Some (bytes_of_string ?t)"
    by (simp_all only: bytes_of_string_append lit(2) strip_prefix_append)
  have quoted: "takeWhile (\<lambda>b. b \<noteq> 34) (bytes_of_string ?f @ [34]) = bytes_of_string ?f"
    using texts by (intro takeWhile_quote) simp
  show ?thesis
    unfolding body by (subst read_upload_lines [OF lines _ cut' names]) (simp_all only: quoted bytes_of_string_append)
qed

theorem upload_roundtrip_witness:
  "read_upload (bytes_of_string ''zephyrvox-5'')
     (multipart_body ''zephyrvox-5'' [CHR ''a'', CHR 0x22, char_of (13 :: nat), CHR ''b''] ''image/png'' [13, 10, 45, 45, 255])
   = Some (bytes_of_string ''ab'', bytes_of_string ''image/png'', [13, 10, 45, 45, 255])"
proof -
  let ?d = "bytes_of_string (CRLF @ ''--'' @ multipart_boundary 5)"
  have b: "multipart_boundary 5 = ''zephyrvox-5''" by code_simp
  have len: "length ?d = 15" unfolding b by code_simp
  have "([13, 10, 45, 45, 255] :: bytes) \<noteq> l @ ?d @ r" for l r
  proof
    assume "([13, 10, 45, 45, 255] :: bytes) = l @ ?d @ r"
    then have "length ([13, 10, 45, 45, 255] :: bytes) = length (l @ ?d @ r)" by simp
    then show False unfolding length_append len by simp
  qed
  note r = upload_roundtrip [OF this, of "[CHR ''a'', CHR 0x22, char_of (13 :: nat), CHR ''b'']" "''image/png''"]
  have "header_value [CHR ''a'', CHR 0x22, char_of (13 :: nat), CHR ''b''] ''upload.bin'' = ''ab''"
    "header_value ''image/png'' ''application/octet-stream'' = ''image/png''" by code_simp+
  with r show ?thesis unfolding b by simp
qed

end
