(* ===== verification/IdSerde.thy ===== *)
theory IdSerde
  imports Ids
begin

text \<open>
  The serde implementations of the identifiers (\<open>ids.rs\<close>, \<open>fixed_ids.rs\<close>, \<open>opaque.rs\<close> of \<open>zephyrvox-types\<close>):
  what they are written as and which wire values they are read from.
\<close>

section \<open>Wire values\<close>

text \<open>
  The scalars a self-describing format hands to a visitor; a JSON reader reports a non-negative integer as
  \<open>u64\<close> and a negative one as \<open>i64\<close>. A visitor without a method for a kind reports an invalid type.
\<close>

datatype 'f serde_value = SvStr string | SvU64 u64 | SvI64 int | SvF64 'f

datatype serde_error = Custom de_error | InvalidType

definition deserialize_string :: "'f serde_value \<Rightarrow> (string, serde_error) result" where
  "deserialize_string v = (case v of SvStr s \<Rightarrow> Ok s | _ \<Rightarrow> Err InvalidType)"

definition snowflake_deserialize :: "'f serde_value \<Rightarrow> (snowflake, serde_error) result" where
  "snowflake_deserialize v = map_err Custom
     (case v of
        SvStr s \<Rightarrow> snowflake_visit_str s
      | SvU64 n \<Rightarrow> snowflake_visit_u64 n
      | SvI64 i \<Rightarrow> snowflake_visit_i64 i
      | SvF64 f \<Rightarrow> snowflake_visit_f64 f)"

definition snowflake_serialize :: "snowflake \<Rightarrow> 'f serde_value" where
  "snowflake_serialize s = SvStr (snowflake_to_string s)"

definition snowflake_try_from :: "u64 \<Rightarrow> (snowflake, id_error) result" where
  "snowflake_try_from v = snowflake_new v"

definition geid_visit_str :: "string \<Rightarrow> (geid, de_error) result" where
  "geid_visit_str s = map_err CustomId (geid_from_str s)"

definition geid_visit_u64 :: "u64 \<Rightarrow> (geid, de_error) result" where
  "geid_visit_u64 v = Ok (Geid v)"

definition geid_visit_f64 :: "'f \<Rightarrow> (geid, de_error) result" where
  "geid_visit_f64 v = Err (CustomMessage ''floating-point GEIDs are not accepted'')"

definition geid_deserialize :: "'f serde_value \<Rightarrow> (geid, serde_error) result" where
  "geid_deserialize v = map_err Custom
     (case v of
        SvStr s \<Rightarrow> geid_visit_str s
      | SvU64 n \<Rightarrow> geid_visit_u64 n
      | SvI64 i \<Rightarrow> geid_visit_i64 i
      | SvF64 f \<Rightarrow> geid_visit_f64 f)"

definition geid_serialize :: "geid \<Rightarrow> 'f serde_value" where
  "geid_serialize g = SvStr (geid_to_string g)"

definition cursor_serialize :: "cursor \<Rightarrow> 'f serde_value" where
  "cursor_serialize c = SvStr (cursor_as_str c)"

definition cursor_deserialize :: "'f serde_value \<Rightarrow> (cursor, serde_error) result" where
  "cursor_deserialize v =
     and_then (deserialize_string v) (\<lambda>s. map_err (\<lambda>e. Custom (CustomId e)) (cursor_new s))"

definition etag_serialize :: "etag \<Rightarrow> 'f serde_value" where
  "etag_serialize e = SvStr (etag_as_str e)"

definition etag_deserialize :: "'f serde_value \<Rightarrow> (etag, serde_error) result" where
  "etag_deserialize v =
     and_then (deserialize_string v) (\<lambda>s. map_err (\<lambda>e. Custom (CustomId e)) (etag_new s))"

definition fixed_id_serialize :: "fixed_id \<Rightarrow> 'f serde_value" where
  "fixed_id_serialize i = SvStr (fixed_id_to_hex i)"

definition fixed_id_deserialize :: "'f serde_value \<Rightarrow> (fixed_id, serde_error) result" where
  "fixed_id_deserialize v =
     and_then (deserialize_string v) (\<lambda>s. map_err (\<lambda>e. Custom (CustomId e)) (fixed_id_parse_hex s))"


section \<open>Identifiers on the wire\<close>

text \<open>What a writer and a reader of wire values owe each other.\<close>

locale serde_codec =
  fixes valid :: "'a \<Rightarrow> bool"
    and ser :: "'a \<Rightarrow> 'f serde_value"
    and de :: "'f serde_value \<Rightarrow> ('a, serde_error) result"
  assumes de_ser: "valid x \<Longrightarrow> de (ser x) = Ok x"
    and de_valid: "de v = Ok x \<Longrightarrow> valid x"
begin

lemma ser_inject: "valid x \<Longrightarrow> valid y \<Longrightarrow> ser x = ser y \<longleftrightarrow> x = y"
  by (metis de_ser result.inject(1))

lemma normalises: "de v = Ok x \<Longrightarrow> de (ser x) = Ok x"
  by (simp add: de_ser de_valid)

end

context text_codec
begin

lemma string_serde: "serde_codec valid (\<lambda>x. SvStr (print x))
    (\<lambda>v. and_then (deserialize_string v) (\<lambda>s. map_err f (parse s)))"
  by unfold_locales (auto simp: deserialize_string_def res_simps parse_print parse_valid split: serde_value.splits)

end

interpretation snowflake_serde: serde_codec snowflake_wf snowflake_serialize snowflake_deserialize
proof
  fix x :: snowflake
  show "snowflake_wf x \<Longrightarrow> snowflake_deserialize (snowflake_serialize x) = Ok x"
    by (simp add: snowflake_serialize_def snowflake_deserialize_def snowflake_visit_str_def snowflake_text.parse_print)
next
  fix v :: "'f serde_value" and x
  assume v: "snowflake_deserialize v = Ok x"
  show "snowflake_wf x"
  proof (cases v)
    case (SvStr s)
    then have "snowflake_from_str s = Ok x"
      using v by (simp add: snowflake_deserialize_def snowflake_visit_str_def res_simps)
    then show ?thesis by (rule snowflake_text.parse_valid)
  next
    case (SvU64 n)
    then show ?thesis using v by (auto simp: snowflake_deserialize_def snowflake_visit_u64_def res_simps snowflake_new_Ok_iff)
  next
    case (SvI64 i)
    then show ?thesis
      using v by (auto simp: snowflake_deserialize_def snowflake_visit_i64_def res_simps snowflake_new_Ok_iff split: if_splits)
  qed (use v in \<open>simp add: snowflake_deserialize_def snowflake_visit_f64_def\<close>)
qed

interpretation geid_serde: serde_codec "\<lambda>_. True" geid_serialize geid_deserialize
  by unfold_locales (auto simp: geid_serialize_def geid_deserialize_def geid_visit_str_def geid_text.parse_print)

interpretation cursor_serde: serde_codec cursor_wf cursor_serialize cursor_deserialize
  using cursor_text.string_serde by (simp add: cursor_serialize_def [abs_def] cursor_deserialize_def [abs_def])

interpretation etag_serde: serde_codec "\<lambda>e. etag_as_str e \<noteq> []" etag_serialize etag_deserialize
  using etag_text.string_serde by (simp add: etag_serialize_def [abs_def] etag_deserialize_def [abs_def])

interpretation fixed_id_serde: serde_codec fixed_id_wf fixed_id_serialize fixed_id_deserialize
  using fixed_id_text.string_serde by (simp add: fixed_id_serialize_def [abs_def] fixed_id_deserialize_def [abs_def])



end
