(* ===== verification/Redaction.thy ===== *)
theory Redaction
  imports ApiBodies Negotiation PacketCodec
begin

text \<open>
  The hand-written \<open>Debug\<close> implementations of all crates: what a log line shows of a value that carries a
  secret. The output is kept as the tree of calls on the formatter; the layout of \<open>debug_struct\<close> is the
  standard library's. The last section shows that secrets have no influence on it.
\<close>

section \<open>Debug output\<close>

text \<open>
  \<open>DRaw\<close> is \<open>write_str\<close>, \<open>DStruct\<close> a \<open>debug_struct\<close> and \<open>DMap\<close> a \<open>debug_map\<close>; the other constructors
  stand for the derived \<open>Debug\<close> of a type, which shows every field.
\<close>

datatype debug_value =
    DRaw string
  | DText string
  | DNat nat
  | DInt int
  | DBool bool
  | DOption "debug_value option"
  | DStruct string "(string \<times> debug_value) list"
  | DMap "string \<rightharpoonup> string"
  | DMethod http_method
  | DScheme transport_scheme
  | DId fixed_id
  | DEndpoint voice_endpoint
  | DFingerprint fingerprint
  | DPolicy reconnect_policy
  | DUser user
  | DInvite invite
  | DStreams "stream_type_id list"

definition hidden :: debug_value where
  "hidden = DText ''<redacted>''"

definition hidden_option :: "'a option \<Rightarrow> debug_value" where
  "hidden_option x = DOption (map_option (\<lambda>_. hidden) x)"

definition shown_option :: "('a \<Rightarrow> debug_value) \<Rightarrow> 'a option \<Rightarrow> debug_value" where
  "shown_option f x = DOption (map_option f x)"

text \<open>The setters and the printer of the \<open>url\<close> crate.\<close>

record url_ops =
  uo_set_username :: "string \<Rightarrow> url \<Rightarrow> url"
  uo_set_password :: "string option \<Rightarrow> url \<Rightarrow> url"
  uo_show :: "url \<Rightarrow> string"

definition redacted_url :: "url_ops \<Rightarrow> url \<Rightarrow> string" where
  "redacted_url U u =
     (let u1 = (if url_username u \<noteq> [] then uo_set_username U ''<redacted>'' u else u);
          u2 = (if url_password u1 \<noteq> None then uo_set_password U (Some ''<redacted>'') u1 else u1)
      in uo_show U u2)"

definition debug_http_request :: "url_ops \<Rightarrow> url http_request \<Rightarrow> debug_value" where
  "debug_http_request U r = DStruct ''HttpRequest''
     [(''method'', DMethod (rq_method r)), (''url'', DText (redacted_url U (rq_url r))),
      (''headers'', DMap (redacted_headers (rq_headers r))),
      (''body_len'', shown_option (\<lambda>b. DNat (length b)) (rq_body r))]"

definition debug_http_response :: "http_response \<Rightarrow> debug_value" where
  "debug_http_response r = DStruct ''HttpResponse''
     [(''status'', DNat (rp_status r)), (''headers'', DMap (redacted_headers (rp_headers r))),
      (''body_len'', DNat (length (rp_body r)))]"

definition debug_http_access_token :: "http_access_token \<Rightarrow> debug_value" where
  "debug_http_access_token t = DRaw ''<redacted-access-token>''"

definition debug_refresh_token :: "refresh_token \<Rightarrow> debug_value" where
  "debug_refresh_token t = DRaw ''<redacted-refresh-token>''"

definition debug_token_pair :: "token_pair \<Rightarrow> debug_value" where
  "debug_token_pair p = DStruct ''TokenPair''
     [(''access_token'', debug_http_access_token (tp_access_token p)),
      (''refresh_token'', debug_refresh_token (tp_refresh_token p)), (''expires_in'', DNat (tp_expires_in p))]"

definition debug_access_token :: "access_token \<Rightarrow> debug_value" where
  "debug_access_token t = DRaw ''<redacted-access-token>''"

definition debug_login_request :: "login_request \<Rightarrow> debug_value" where
  "debug_login_request r = DStruct ''LoginRequest''
     [(''username'', DText (lg_username r)), (''password'', hidden), (''device_id'', DText (lg_device_id r))]"

definition debug_register_request :: "register_request \<Rightarrow> debug_value" where
  "debug_register_request r = DStruct ''RegisterRequest''
     [(''username'', DText (rg_username r)), (''password'', hidden),
      (''nickname'', shown_option DText (rg_nickname r)), (''invite'', hidden_option (rg_invite r))]"

definition debug_activate_request :: "activate_request \<Rightarrow> debug_value" where
  "debug_activate_request r = DStruct ''ActivateRequest''
     [(''code'', hidden), (''username'', DText (av_username r)), (''password'', hidden),
      (''nickname'', shown_option DText (av_nickname r))]"

definition debug_login_result :: "login_result \<Rightarrow> debug_value" where
  "debug_login_result r = DStruct ''LoginResult''
     [(''tokens'', debug_token_pair (lr_tokens r)), (''user'', DUser (lr_user r))]"

definition debug_update_user_request :: "update_user_request \<Rightarrow> debug_value" where
  "debug_update_user_request r = DStruct ''UpdateUserRequest'' [(''nickname'', shown_option DText (uu_nickname r))]"

definition debug_reset_password_request :: "string \<Rightarrow> debug_value" where
  "debug_reset_password_request password = DStruct ''ResetPasswordRequest'' [(''password'', hidden)]"

definition debug_change_password_request :: "change_password_request \<Rightarrow> debug_value" where
  "debug_change_password_request r =
     DStruct ''ChangePasswordRequest'' [(''old_password'', hidden), (''new_password'', hidden)]"

definition debug_create_invite_response :: "create_invite_response \<Rightarrow> debug_value" where
  "debug_create_invite_response r =
     DStruct ''CreateInviteResponse'' [(''code'', hidden), (''invite'', DInvite (ir_invite r))]"

definition debug_voice_negotiation :: "voice_negotiation \<Rightarrow> debug_value" where
  "debug_voice_negotiation v = DStruct ''VoiceNegotiation''
     [(''created'', DBool (vn_created v)), (''session_id'', DId (vn_session_id v)),
      (''key'', hidden_option (vn_key v)), (''encrypted'', DBool (vn_encrypted v)),
      (''warning'', shown_option DText (vn_warning v)), (''max_payload'', DNat (vn_max_payload v)),
      (''protocol_version'', DNat (unat (vn_protocol_version v))), (''expires_at'', DInt (vn_expires_at v))]"

definition debug_session_key :: "session_key \<Rightarrow> debug_value" where
  "debug_session_key k = DRaw ''<redacted-voice-session-key>''"

text \<open>The number of entries of a key cache; the map in the model has finitely many.\<close>

definition cache_len :: "key_cache \<Rightarrow> nat" where
  "cache_len c = card (dom c)"

definition cache_is_empty :: "key_cache \<Rightarrow> bool" where
  "cache_is_empty c \<longleftrightarrow> cache_len c = 0"

definition debug_session_key_cache :: "key_cache \<Rightarrow> debug_value" where
  "debug_session_key_cache c = DStruct ''SessionKeyCache'' [(''entries'', DNat (cache_len c))]"

definition debug_voice_session_config :: "voice_session_config \<Rightarrow> debug_value" where
  "debug_voice_session_config c = DStruct ''VoiceSessionConfig''
     [(''endpoint'', DEndpoint (vc_endpoint c)), (''session_id'', DId (vc_session_id c)),
      (''protocol_version'', DNat (unat (vc_protocol_version c))), (''encrypted'', DBool (vc_encrypted c)),
      (''max_payload'', DNat (vc_max_payload c)), (''expires_at'', DInt (vc_expires_at c)),
      (''session_key'', hidden_option (vc_session_key c)),
      (''allowed_stream_types'', shown_option DStreams (vc_allowed_stream_types c))]"

definition debug_packet_codec :: "'k packet_codec \<Rightarrow> debug_value" where
  "debug_packet_codec c = DStruct ''PacketCodec''
     [(''session_id'', DId (pc_session_id c)), (''encrypted'', DBool (pc_encrypted c)),
      (''max_payload'', DNat (pc_max_payload c))]"

definition debug_server_card :: "server_card \<Rightarrow> debug_value" where
  "debug_server_card c = DStruct ''ServerCard''
     [(''scheme'', DScheme (sc_scheme c)), (''host'', DText (sc_host c)), (''port'', DNat (unat (sc_port c))),
      (''fingerprint'', shown_option DFingerprint (sc_fingerprint c)), (''invite'', hidden_option (sc_invite c)),
      (''protocol_version'', DNat (unat (sc_protocol_version c)))]"

definition debug_client_config :: "'s client_config \<Rightarrow> debug_value" where
  "debug_client_config c = DStruct ''ClientConfig''
     [(''server_card'', debug_server_card (cf_server_card c)), (''request_timeout'', DNat (cf_request_timeout c)),
      (''reconnect'', DPolicy (cf_reconnect c)), (''credential_store'', DText ''<custom-store>''),
      (''auto_rejoin_voice'', DBool (cf_auto_rejoin_voice c))]"


section \<open>Secrets do not show\<close>

text \<open>What the setters of the \<open>url\<close> crate do to a URL with a host: they write the percent-encoded text.\<close>

definition url_setters :: "(string \<Rightarrow> string) \<Rightarrow> url_ops \<Rightarrow> bool" where
  "url_setters enc U \<longleftrightarrow>
     (\<forall>s u. uo_set_username U s u = u\<lparr>url_username := enc s\<rparr>)
     \<and> (\<forall>s u. uo_set_password U (Some s) u = u\<lparr>url_password := Some (enc s)\<rparr>)"

text \<open>Two URLs that agree but for the contents of their user information.\<close>

definition same_but_userinfo :: "url \<Rightarrow> url \<Rightarrow> bool" where
  "same_but_userinfo u v \<longleftrightarrow>
     (url_username u = [] \<longleftrightarrow> url_username v = []) \<and> (url_password u = None \<longleftrightarrow> url_password v = None)
     \<and> v = u\<lparr>url_username := url_username v, url_password := url_password v\<rparr>"

text \<open>Two header maps that agree but for the values of sensitive headers.\<close>

definition same_but_sensitive :: "(string \<rightharpoonup> string) \<Rightarrow> (string \<rightharpoonup> string) \<Rightarrow> bool" where
  "same_but_sensitive h k \<longleftrightarrow>
     (\<forall>n. (h n = None \<longleftrightarrow> k n = None) \<and> (\<not> is_sensitive_header n \<longrightarrow> h n = k n))"

lemma redacted_url_cong:
  assumes "url_setters enc U" "same_but_userinfo u v"
  shows "redacted_url U u = redacted_url U v"
proof -
  obtain x y where v: "v = u\<lparr>url_username := x, url_password := y\<rparr>"
    "url_username u = [] \<longleftrightarrow> x = []" "url_password u = None \<longleftrightarrow> y = None"
    using that [of "url_password v" "url_username v"] assms(2) by (simp add: same_but_userinfo_def)
  show ?thesis
    using assms(1) v(2,3)
    by (cases "x = []"; cases y; cases u) (auto simp: redacted_url_def url_setters_def Let_def v(1))
qed

lemma redacted_headers_eq_iff: "redacted_headers h = redacted_headers k \<longleftrightarrow> same_but_sensitive h k"
proof
  assume eq: "redacted_headers h = redacted_headers k"
  have "(h n = None \<longleftrightarrow> k n = None) \<and> (\<not> is_sensitive_header n \<longrightarrow> h n = k n)" for n
    using fun_cong [OF eq, of n] by (cases "h n"; cases "k n") (auto simp: redacted_headers_def)
  then show "same_but_sensitive h k" by (simp add: same_but_sensitive_def)
next
  assume same: "same_but_sensitive h k"
  show "redacted_headers h = redacted_headers k"
  proof
    fix n
    show "redacted_headers h n = redacted_headers k n"
      using same unfolding same_but_sensitive_def
      by (cases "is_sensitive_header n"; cases "h n"; cases "k n") (auto simp: redacted_headers_def dest: spec [of _ n])
  qed
qed

lemma option_value_eq_iff [simp]:
  "hidden_option x = hidden_option y \<longleftrightarrow> (x = None \<longleftrightarrow> y = None)"
  "inj f \<Longrightarrow> shown_option f x = shown_option f y \<longleftrightarrow> x = y"
  by (cases x; cases y; simp add: hidden_option_def shown_option_def inj_eq)+

lemma body_len_eq_iff:
  "shown_option (\<lambda>b. DNat (length b)) x = shown_option (\<lambda>b. DNat (length b)) y
   \<longleftrightarrow> map_option length x = map_option length y"
  by (cases x; cases y) (simp_all add: shown_option_def)

lemma unat_eq_iff [simp]: "unat a = unat b \<longleftrightarrow> a = b"
  by (simp add: word_unat_eq_iff)

lemma inj_debug [simp]: "inj DText" "inj DFingerprint" "inj DStreams"
  by (simp_all add: inj_def)


lemmas debug_defs = debug_http_request_def debug_http_response_def debug_token_pair_def
  debug_http_access_token_def debug_refresh_token_def debug_access_token_def debug_login_request_def
  debug_register_request_def debug_activate_request_def debug_login_result_def debug_reset_password_request_def
  debug_change_password_request_def debug_create_invite_response_def debug_voice_negotiation_def
  debug_session_key_def debug_session_key_cache_def debug_voice_session_config_def debug_packet_codec_def
  debug_server_card_def debug_client_config_def redacted_headers_eq_iff body_len_eq_iff

lemma authorization_sensitive: "is_sensitive_header ''authorization''"
  by (simp add: is_sensitive_header_def)

text \<open>
  Claim C22. Log output of the SDK does not depend on secrets. The \<open>Debug\<close> form of a request does not change
  with the user information of its URL, the values of sensitive headers (the bearer token in particular) and
  the contents of its body; two responses, login results, account requests, invitations, voice negotiations,
  voice configurations or server cards have the same form exactly when they agree in everything but their
  secrets, so that besides hiding these nothing else is lost; passwords to set and session keys all look the same.
\<close>

theorem debug_output_hides_secrets:
  assumes "url_setters enc U"
  shows "(same_but_userinfo (rq_url q) (rq_url q') \<and> same_but_sensitive (rq_headers q) (rq_headers q')
      \<and> rq_method q = rq_method q' \<and> map_option length (rq_body q) = map_option length (rq_body q') \<longrightarrow>
        debug_http_request U q = debug_http_request U q')
    \<and> debug_http_request U (authorised q t) = debug_http_request U (authorised q t')
    \<and> (debug_http_response p = debug_http_response p' \<longleftrightarrow>
        rp_status p = rp_status p' \<and> same_but_sensitive (rp_headers p) (rp_headers p')
        \<and> length (rp_body p) = length (rp_body p'))
    \<and> (debug_login_result l = debug_login_result l' \<longleftrightarrow>
        lr_user l = lr_user l' \<and> tp_expires_in (lr_tokens l) = tp_expires_in (lr_tokens l'))
    \<and> (debug_login_request a = debug_login_request a' \<longleftrightarrow> a' = a\<lparr>lg_password := lg_password a'\<rparr>)
    \<and> (debug_register_request g = debug_register_request g' \<longleftrightarrow>
        g' = g\<lparr>rg_password := rg_password g', rg_invite := rg_invite g'\<rparr> \<and> (rg_invite g = None \<longleftrightarrow> rg_invite g' = None))
    \<and> (debug_activate_request v = debug_activate_request v' \<longleftrightarrow>
        v' = v\<lparr>av_code := av_code v', av_password := av_password v'\<rparr>)
    \<and> debug_change_password_request c = debug_change_password_request c'
    \<and> debug_reset_password_request w = debug_reset_password_request w'
    \<and> (debug_create_invite_response i = debug_create_invite_response i' \<longleftrightarrow> ir_invite i = ir_invite i')
    \<and> (debug_voice_negotiation n = debug_voice_negotiation n' \<longleftrightarrow>
        n' = n\<lparr>vn_key := vn_key n'\<rparr> \<and> (vn_key n = None \<longleftrightarrow> vn_key n' = None))
    \<and> (debug_voice_session_config f = debug_voice_session_config f' \<longleftrightarrow>
        f' = f\<lparr>vc_session_key := vc_session_key f'\<rparr> \<and> (vc_session_key f = None \<longleftrightarrow> vc_session_key f' = None))
    \<and> debug_session_key k = debug_session_key k'
    \<and> (debug_server_card d = debug_server_card d' \<longleftrightarrow>
        d' = d\<lparr>sc_invite := sc_invite d'\<rparr> \<and> (sc_invite d = None \<longleftrightarrow> sc_invite d' = None))"
proof (intro conjI impI)
  assume same: "same_but_userinfo (rq_url q) (rq_url q') \<and> same_but_sensitive (rq_headers q) (rq_headers q')
      \<and> rq_method q = rq_method q' \<and> map_option length (rq_body q) = map_option length (rq_body q')"
  then show "debug_http_request U q = debug_http_request U q'"
    using redacted_url_cong [OF assms] by (simp add: debug_defs)
next
  have "same_but_sensitive (rq_headers (authorised q t)) (rq_headers (authorised q t'))"
    using authorization_sensitive by (auto simp: same_but_sensitive_def authorised_def)
  then show "debug_http_request U (authorised q t) = debug_http_request U (authorised q t')"
    by (simp add: debug_defs authorised_def)
next
  show "debug_voice_session_config f = debug_voice_session_config f' \<longleftrightarrow>
        f' = f\<lparr>vc_session_key := vc_session_key f'\<rparr> \<and> (vc_session_key f = None \<longleftrightarrow> vc_session_key f' = None)"
    by (cases f; cases f') (auto simp: debug_defs)
next
  show "debug_voice_negotiation n = debug_voice_negotiation n' \<longleftrightarrow>
        n' = n\<lparr>vn_key := vn_key n'\<rparr> \<and> (vn_key n = None \<longleftrightarrow> vn_key n' = None)"
    by (cases n; cases n') (auto simp: debug_defs)
next
  show "debug_server_card d = debug_server_card d' \<longleftrightarrow>
        d' = d\<lparr>sc_invite := sc_invite d'\<rparr> \<and> (sc_invite d = None \<longleftrightarrow> sc_invite d' = None)"
    by (cases d; cases d') (auto simp: debug_defs)
next
  show "debug_register_request g = debug_register_request g' \<longleftrightarrow>
        g' = g\<lparr>rg_password := rg_password g', rg_invite := rg_invite g'\<rparr> \<and> (rg_invite g = None \<longleftrightarrow> rg_invite g' = None)"
    by (cases g; cases g') (auto simp: debug_defs)
next
  show "debug_activate_request v = debug_activate_request v' \<longleftrightarrow> v' = v\<lparr>av_code := av_code v', av_password := av_password v'\<rparr>"
    by (cases v; cases v') (auto simp: debug_defs)
next
  show "debug_login_request a = debug_login_request a' \<longleftrightarrow> a' = a\<lparr>lg_password := lg_password a'\<rparr>"
    by (cases a; cases a') (auto simp: debug_defs)
qed (auto simp: debug_defs)

definition sample_url_ops :: url_ops where
  "sample_url_ops =
     \<lparr>uo_set_username = (\<lambda>s u. u\<lparr>url_username := s\<rparr>), uo_set_password = (\<lambda>p u. u\<lparr>url_password := p\<rparr>),
      uo_show = (\<lambda>u. url_scheme u @ ''://'' @ url_username u @ ''@'' @ url_path u)\<rparr>"

definition sample_logged_url :: url where
  "sample_logged_url =
     \<lparr>url_scheme = ''https'', url_username = ''alice'', url_password = Some ''pw'', url_host_str = Some ''h'',
      url_port = None, url_port_or_known_default = Some 443, url_path = ''/x'', url_query = None,
      url_query_pairs = [], url_fragment = None\<rparr>"

text \<open>Two requests with different users, bearer tokens and bodies look the same.\<close>

theorem debug_output_hides_secrets_witness:
  "debug_http_request sample_url_ops
     \<lparr>rq_method = Get, rq_url = sample_logged_url, rq_headers = [''cookie'' \<mapsto> ''a''], rq_body = Some [1]\<rparr>
   = debug_http_request sample_url_ops
     \<lparr>rq_method = Get, rq_url = sample_logged_url\<lparr>url_username := ''bob''\<rparr>, rq_headers = [''cookie'' \<mapsto> ''b''],
      rq_body = Some [2]\<rparr>"
proof -
  have "url_setters (\<lambda>s. s) sample_url_ops" by (simp add: url_setters_def sample_url_ops_def)
  then show ?thesis
    by (intro debug_output_hides_secrets [THEN conjunct1, THEN mp])
      (simp_all add: same_but_userinfo_def same_but_sensitive_def sample_logged_url_def is_sensitive_header_def)
qed

end
