(* ===== verification/HostCalls.thy ===== *)
theory HostCalls
  imports VoiceSession Connection Transports FacadeLaws
begin

text \<open>
  The calls a host makes on the handles of the SDK: opening the UDP socket of a voice session, receiving,
  waiting for a status, the session of the WebSocket, setting the presence, logging in and discovering
  through the facade. DNS and sockets are arguments.
\<close>

section \<open>Voice sockets\<close>

text \<open>What \<open>tokio\<close> and the system do for one resolved address.\<close>

record ('a, 'k) udp_ops =
  ud_lookup :: "voice_endpoint \<Rightarrow> ('a list, string) result"
  ud_is_ipv4 :: "'a \<Rightarrow> bool"
  ud_bind :: "'a \<Rightarrow> string \<Rightarrow> ('k, string) result"
  ud_connect :: "'k \<Rightarrow> 'a \<Rightarrow> (unit, string) result"

fun try_addresses :: "('a, 'k) udp_ops \<Rightarrow> string option \<Rightarrow> 'a list \<Rightarrow> ('k, voice_error) result" where
  "try_addresses U last_error [] =
     Err (VEndpoint (case last_error of Some e \<Rightarrow> e | None \<Rightarrow> ''voice endpoint resolved to no addresses''))"
| "try_addresses U last_error (remote # rest) =
     (let local = (if ud_is_ipv4 U remote then ''0.0.0.0:0'' else ''[::]:0'')
      in case ud_bind U remote local of
           Err e \<Rightarrow> try_addresses U (Some e) rest
         | Ok socket \<Rightarrow>
             (case ud_connect U socket remote of
                Ok _ \<Rightarrow> Ok socket
              | Err e \<Rightarrow> try_addresses U (Some e) rest))"

definition connect_socket :: "('a, 'k) udp_ops \<Rightarrow> voice_endpoint \<Rightarrow> ('k, voice_error) result" where
  "connect_socket U endpoint =
     and_then (map_err VEndpoint (ud_lookup U endpoint)) (try_addresses U None)"

text \<open>
  \<open>VoiceSession::connect\<close> and its variants; \<open>io\<close> and \<open>now\<close> are the outcome of the first heartbeat and the
  clock, as in \<open>session_start\<close>.
\<close>

definition connect_with_optional_cache ::
  "('a, 's) udp_ops \<Rightarrow> 'k aead \<Rightarrow> voice_session_config \<Rightarrow> key_cache option \<Rightarrow> ('s \<Rightarrow> write_outcome) \<Rightarrow> nat
   \<Rightarrow> key_cache option \<times> ('k packet_codec \<times> session, voice_error) result" where
  "connect_with_optional_cache U A config cache io now =
     (case connect_socket U (vc_endpoint config) of
        Err e \<Rightarrow> (cache, Err e)
      | Ok socket \<Rightarrow> session_start A config cache (io socket) now)"

definition voice_connect where
  "voice_connect U A config io now = snd (connect_with_optional_cache U A config None io now)"

definition connect_with_key_cache where
  "connect_with_key_cache U A config cache io now = connect_with_optional_cache U A config (Some cache) io now"

definition from_connected_socket ::
  "'k aead \<Rightarrow> voice_session_config \<Rightarrow> bool \<Rightarrow> key_cache option \<Rightarrow> write_outcome \<Rightarrow> nat
   \<Rightarrow> key_cache option \<times> ('k packet_codec \<times> session, voice_error) result" where
  "from_connected_socket A config has_peer cache io now =
     (if \<not> has_peer then (cache, Err (VEndpoint ''voice UDP socket must be connected before use''))
      else session_start A config cache io now)"

definition from_connected_socket_with_key_cache where
  "from_connected_socket_with_key_cache A config has_peer cache io now =
     from_connected_socket A config has_peer (Some cache) io now"

datatype recv_error = RecvLagged nat | RecvClosed

fun voice_recv :: "('m, recv_error) result \<Rightarrow> ('m, voice_error) result" where
  "voice_recv (Ok m) = Ok m"
| "voice_recv (Err (RecvLagged missed)) = Err (MediaLagged missed)"
| "voice_recv (Err RecvClosed) = Err VClosed"

text \<open>The facade's voice handle hands the calls on and wraps the errors.\<close>

definition handle_send :: "outbound_media \<Rightarrow> session \<Rightarrow> session \<times> (unit, sdk_error) result" where
  "handle_send frame s = (case send_frame frame s of (s', r) \<Rightarrow> (s', map_err SVoice r))"

definition handle_send_encoded :: "stream_type_id \<Rightarrow> bytes \<Rightarrow> session \<Rightarrow> session \<times> (unit, sdk_error) result" where
  "handle_send_encoded st bs s = (case session_send st bs s of (s', r) \<Rightarrow> (s', map_err SVoice r))"

definition handle_recv :: "('m, recv_error) result \<Rightarrow> ('m, sdk_error) result" where
  "handle_recv r = map_err SVoice (voice_recv r)"


section \<open>Waiting for a status\<close>

text \<open>
  A loop on a watch channel: \<open>decide\<close> looks at the value that the receiver sees; otherwise the caller waits
  for the next one. \<open>changes\<close> are the values it sees in turn, a watch channel may skip some; \<open>gone\<close> is
  what it returns when the sender is dropped; \<open>None\<close> is a call that still waits.
\<close>

fun watch_loop :: "('s \<Rightarrow> 'r option) \<Rightarrow> 'r \<Rightarrow> bool \<Rightarrow> 's \<Rightarrow> 's list \<Rightarrow> 'r option" where
  "watch_loop decide gone dropped current [] =
     (case decide current of Some r \<Rightarrow> Some r | None \<Rightarrow> if dropped then Some gone else None)"
| "watch_loop decide gone dropped current (c # cs) =
     (case decide current of Some r \<Rightarrow> Some r | None \<Rightarrow> watch_loop decide gone dropped c cs)"

definition wait_until_live :: "bool \<Rightarrow> connection_status \<Rightarrow> connection_status list \<Rightarrow> (unit, realtime_error) result option" where
  "wait_until_live =
     watch_loop (\<lambda>s. case s of CLive \<Rightarrow> Some (Ok ()) | CClosed \<Rightarrow> Some (Err RClosed) | _ \<Rightarrow> None) (Err RClosed)"

definition close_wait :: "bool \<Rightarrow> connection_status \<Rightarrow> connection_status list \<Rightarrow> (unit, realtime_error) result option" where
  "close_wait = watch_loop (\<lambda>s. if s = CClosed then Some (Ok ()) else None) (Ok ())"

definition wait_until_stopped :: "bool \<Rightarrow> voice_status \<Rightarrow> voice_status list \<Rightarrow> unit option" where
  "wait_until_stopped = watch_loop (\<lambda>s. if status_is_terminal s then Some () else None) ()"


section \<open>The WebSocket session\<close>

definition websocket_send :: "('m \<Rightarrow> (unit, string) result) \<Rightarrow> 'm \<Rightarrow> (unit, realtime_error) result" where
  "websocket_send sink m = map_err RTransport (sink m)"

definition websocket_send_text :: "(web_socket_message \<Rightarrow> (unit, string) result) \<Rightarrow> string \<Rightarrow> (unit, realtime_error) result" where
  "websocket_send_text sink text = websocket_send sink (WText text)"

definition websocket_send_pong :: "(web_socket_message \<Rightarrow> (unit, string) result) \<Rightarrow> bytes \<Rightarrow> (unit, realtime_error) result" where
  "websocket_send_pong sink bs = websocket_send sink (WPong bs)"

definition websocket_close :: "(unit, string) result \<Rightarrow> (unit, realtime_error) result" where
  "websocket_close closed = map_err RTransport closed"


section \<open>Calls of the facade\<close>

definition ensure_open :: "'v facade \<Rightarrow> (unit, sdk_error) result" where
  "ensure_open s = (if fc_stopped s then Err SClosed else Ok ())"

definition current_control :: "'v facade \<Rightarrow> (nat, sdk_error) result" where
  "current_control s =
     and_then (ensure_open s) (\<lambda>_.
       case fc_control s of
         Some h \<Rightarrow> if cv_status (fc_controls s ! h) \<noteq> CClosed then Ok h else Err NotConnected
       | None \<Rightarrow> Err NotConnected)"

text \<open>\<open>send\<close> is \<open>ControlConnection::set_presence\<close> on the handle, \<open>answer\<close> the login endpoint.\<close>

definition client_set_presence :: "(nat \<Rightarrow> (command_ack, realtime_error) result) \<Rightarrow> 'v facade \<Rightarrow> (command_ack, sdk_error) result" where
  "client_set_presence send s =
     and_then (current_control s) (\<lambda>h.
       if cv_status (fc_controls s ! h) \<noteq> CLive then Err ControlNotLive
       else map_err SRealtime (send h))"

definition client_login :: "(login_result, http_error) result \<Rightarrow> 'v facade \<Rightarrow> (login_result, sdk_error) result" where
  "client_login answer s = and_then (ensure_open s) (\<lambda>_. map_err SHttp answer)"

definition client_discover :: "(metadata, http_error) result \<Rightarrow> 'v facade \<Rightarrow> 'v facade \<times> (metadata, sdk_error) result" where
  "client_discover answer s =
     (case ensure_open s of
        Err e \<Rightarrow> (s, Err e)
      | Ok _ \<Rightarrow>
          (case fc_metadata s of
             Some m \<Rightarrow> (s, Ok m)
           | None \<Rightarrow>
               (case answer of
                  Err e \<Rightarrow> (s, Err (SHttp e))
                | Ok m \<Rightarrow> (s\<lparr>fc_metadata := Some m\<rparr>, Ok m))))"

text \<open>The setters of \<open>ClientConfig\<close>; the one of the timeout is in the theory \<open>Negotiation\<close>.\<close>

definition with_client_reconnect_policy :: "reconnect_policy \<Rightarrow> 's client_config \<Rightarrow> 's client_config" where
  "with_client_reconnect_policy p c = c\<lparr>cf_reconnect := p\<rparr>"

definition with_credential_store :: "'s \<Rightarrow> 's client_config \<Rightarrow> 's client_config" where
  "with_credential_store store c = c\<lparr>cf_credential_store := store\<rparr>"

definition with_auto_rejoin_voice :: "bool \<Rightarrow> 's client_config \<Rightarrow> 's client_config" where
  "with_auto_rejoin_voice enabled c = c\<lparr>cf_auto_rejoin_voice := enabled\<rparr>"

text \<open>\<open>Client::new\<close> and \<open>Client::with_api_client\<close>; building the transport and the HTTP client are arguments.\<close>

definition client_new :: "(server_card \<Rightarrow> nat \<Rightarrow> (unit, http_error) result) \<Rightarrow> 's client_config \<Rightarrow> ('v facade, sdk_error) result" where
  "client_new build config =
     and_then (client_config_validate config) (\<lambda>_.
     and_then (map_err SHttp (build (cf_server_card config) (cf_request_timeout config))) (\<lambda>_.
       Ok (client_from_api (cf_auto_rejoin_voice config))))"

definition with_api_client :: "'s client_config \<Rightarrow> server_card \<Rightarrow> ('v facade, sdk_error) result" where
  "with_api_client config api_card =
     and_then (with_api_client_check config api_card) (\<lambda>_. Ok (client_from_api (cf_auto_rejoin_voice config)))"


section \<open>The first address that answers\<close>

definition opens :: "('a, 'k) udp_ops \<Rightarrow> 'a \<Rightarrow> ('k, string) result" where
  "opens U remote =
     and_then (ud_bind U remote (if ud_is_ipv4 U remote then ''0.0.0.0:0'' else ''[::]:0''))
       (\<lambda>socket. map_ok (\<lambda>_. socket) (ud_connect U socket remote))"

lemma try_addresses_Cons:
  "try_addresses U last_error (remote # rest) =
     (case opens U remote of Ok socket \<Rightarrow> Ok socket | Err e \<Rightarrow> try_addresses U (Some e) rest)"
  by (simp add: opens_def Let_def split: result.split)

lemma try_addresses_first:
  "list_all (\<lambda>r. \<exists>e. opens U r = Err e) pre \<Longrightarrow> opens U r = Ok socket \<Longrightarrow>
   try_addresses U last_error (pre @ r # post) = Ok socket"
  by (induction pre arbitrary: last_error) (auto simp: try_addresses_Cons simp del: try_addresses.simps(2))

lemma try_addresses_none:
  assumes "list_all (\<lambda>r. \<exists>e. opens U r = Err e) rs"
  shows "\<exists>e. try_addresses U last_error rs = Err (VEndpoint e) \<and> (rs \<noteq> [] \<longrightarrow> opens U (last rs) = Err e)"
  using assms
proof (induction rs arbitrary: last_error)
  case (Cons r rs)
  then obtain e where e: "opens U r = Err e" "list_all (\<lambda>r. \<exists>e. opens U r = Err e) rs" by auto
  obtain x where "try_addresses U (Some e) rs = Err (VEndpoint x)" "rs \<noteq> [] \<longrightarrow> opens U (last rs) = Err x"
    using Cons.IH [OF e(2)] by blast
  then show ?case
    using e(1) by (cases rs) (auto simp: try_addresses_Cons simp del: try_addresses.simps(2))
qed auto

text \<open>
  A voice session connects to the first resolved address that binds and connects, and fails with the error
  of the last address only when none does.
\<close>

theorem connect_socket_first_address:
  assumes "ud_lookup U endpoint = Ok addresses"
  shows "connect_socket U endpoint =
    (case find (\<lambda>r. \<exists>socket. opens U r = Ok socket) addresses of
       Some r \<Rightarrow> map_err VEndpoint (opens U r)
     | None \<Rightarrow> Err (VEndpoint (if addresses = [] then ''voice endpoint resolved to no addresses''
                               else case opens U (last addresses) of Err e \<Rightarrow> e | Ok _ \<Rightarrow> [])))"
proof (cases "find (\<lambda>r. \<exists>socket. opens U r = Ok socket) addresses")
  case None
  then have "list_all (\<lambda>r. \<exists>e. opens U r = Err e) addresses"
    by (auto simp: find_None_iff list_all_iff) (metis result.exhaust)
  from try_addresses_none [OF this, of None] show ?thesis
    using assms None by (cases addresses) (auto simp: connect_socket_def)
next
  case (Some r)
  then obtain socket where r: "opens U r = Ok socket" by (auto simp: find_Some_iff)
  obtain i where i: "i < length addresses" "addresses ! i = r" "\<And>j. j < i \<Longrightarrow> \<nexists>socket. opens U (addresses ! j) = Ok socket"
    using Some by (auto simp: find_Some_iff)
  have "\<exists>e. opens U (addresses ! j) = Err e" if "j < i" for j
    using i(3) [OF that] by (cases "opens U (addresses ! j)") auto
  then have "list_all (\<lambda>r. \<exists>e. opens U r = Err e) (take i addresses)"
    using i(1) by (simp add: list_all_length)
  moreover have "addresses = take i addresses @ r # drop (Suc i) addresses"
    using id_take_nth_drop [OF i(1)] i(2) by simp
  ultimately obtain pre post where "addresses = pre @ r # post" "list_all (\<lambda>r. \<exists>e. opens U r = Err e) pre"
    by blast
  then show ?thesis using assms Some r try_addresses_first [of U pre r socket None post] by (simp add: connect_socket_def)
qed


section \<open>Waits end\<close>

lemma watch_loop_find:
  "watch_loop decide gone dropped current changes =
     (case find (\<lambda>s. decide s \<noteq> None) (current # changes) of
        Some s \<Rightarrow> decide s
      | None \<Rightarrow> if dropped then Some gone else None)"
  by (induction changes arbitrary: current) (auto split: option.split)

text \<open>
  Claim C23. Waiting on a control connection ends with it. When the engine has left its loop, a caller that has
  seen the last status, whichever statuses the watch channel let it skip, is no longer waiting: \<open>close\<close> returns
  \<open>Ok\<close>, and \<open>wait_until_live\<close> returns \<open>Ok\<close> exactly when it saw \<open>Live\<close> and no \<open>Closed\<close> before it, and the error
  \<open>Closed\<close> otherwise.
\<close>

theorem waits_end_with_the_engine:
  assumes "engine_run p n as c = (c', k, True)" "last (current # changes) = cn_status c'"
  shows "close_wait dropped current changes = Some (Ok ())
    \<and> wait_until_live dropped current changes =
        Some (if CLive \<in> set (takeWhile (\<lambda>s. s \<noteq> CClosed) (current # changes)) then Ok () else Err RClosed)"
proof -
  have "cn_status c' = CClosed" using engine_run_closed [OF assms(1)] engine_finish_closed by auto
  then have end_closed: "last (current # changes) = CClosed" using assms(2) by simp
  then have "close_wait dropped current changes = Some (Ok ())"
    unfolding close_wait_def by (induction changes arbitrary: current) (auto split: if_splits)
  moreover have "wait_until_live dropped current changes =
        Some (if CLive \<in> set (takeWhile (\<lambda>s. s \<noteq> CClosed) (current # changes)) then Ok () else Err RClosed)"
    using end_closed unfolding wait_until_live_def
    by (induction changes arbitrary: current) (auto split: connection_status.splits if_splits)
  ultimately show ?thesis by blast
qed

theorem waits_end_with_the_engine_witness:
  "\<exists>c' k. engine_run (with_maximum_attempts (Some 2) default_policy) 0 (replicate 5 failing_attempt)
       (connection_start realtime_config_new sample_snapshot) = (c', k, True)
     \<and> wait_until_live False CConnecting [CReconnecting, cn_status c'] = Some (Err RClosed)
     \<and> wait_until_live False CConnecting [CLive, cn_status c'] = Some (Ok ())"
proof -
  let ?r = "engine_run (with_maximum_attempts (Some 2) default_policy) 0 (replicate 5 failing_attempt)
       (connection_start realtime_config_new sample_snapshot)"
  have "snd (snd ?r) = True" by code_simp
  then obtain c' k where r: "?r = (c', k, True)" by (metis prod.collapse)
  have "cn_status c' = CClosed" using engine_run_closed [OF r] engine_finish_closed by auto
  with waits_end_with_the_engine [OF r, of CConnecting "[CReconnecting, cn_status c']" False]
    waits_end_with_the_engine [OF r, of CConnecting "[CLive, cn_status c']" False] r
  show ?thesis by simp
qed

text \<open>A voice handle that was seen in a terminal status is not waited for.\<close>

lemma wait_until_stopped_iff:
  "wait_until_stopped False current changes = Some () \<longleftrightarrow> list_ex status_is_terminal (current # changes)"
  unfolding wait_until_stopped_def by (induction changes arbitrary: current) auto


section \<open>Calls and the life of the facade\<close>

text \<open>
  After a shutdown every call of the host is refused before the network is used; before it, a presence is sent
  on a live control connection only, and metadata once discovered is not asked for again.
\<close>

theorem host_calls_guarded:
  "reachable sh A b64 s \<Longrightarrow> fc_pc s u = Returned (ShutdownResult r) \<Longrightarrow>
     client_set_presence send s = Err SClosed \<and> client_login login s = Err SClosed
     \<and> client_discover metadata s = (s, Err SClosed)"
  "client_set_presence send s = Ok ack \<Longrightarrow>
     \<exists>h. fc_control s = Some h \<and> cv_status (fc_controls s ! h) = CLive \<and> send h = Ok ack \<and> \<not> fc_stopped s"
  "client_discover metadata s = (s', Ok m) \<Longrightarrow> client_discover metadata' s' = (s', Ok m)"
proof -
  assume "reachable sh A b64 s" "fc_pc s u = Returned (ShutdownResult r)"
  then have "fc_stopped s" using reachable_inv [of sh A b64 s] unfolding facade_inv_def down_inv_def by blast
  then show "client_set_presence send s = Err SClosed \<and> client_login login s = Err SClosed
     \<and> client_discover metadata s = (s, Err SClosed)"
    by (simp add: client_set_presence_def client_login_def client_discover_def current_control_def ensure_open_def)
next
  assume "client_set_presence send s = Ok ack"
  then show "\<exists>h. fc_control s = Some h \<and> cv_status (fc_controls s ! h) = CLive \<and> send h = Ok ack \<and> \<not> fc_stopped s"
    by (auto simp: client_set_presence_def current_control_def ensure_open_def res_simps split: option.splits if_splits)
next
  assume "client_discover metadata s = (s', Ok m)"
  then show "client_discover metadata' s' = (s', Ok m)"
    by (auto simp: client_discover_def ensure_open_def split: option.splits result.splits if_splits)
qed

text \<open>
  A client comes from a configuration with a positive timeout whose transport could be built; it is fresh, and
  it rejoins voice on its own only when the configuration was told so, whatever else was set afterwards.
\<close>

lemma client_new_iff:
  "client_new build config = Ok s \<longleftrightarrow>
     cf_request_timeout config \<noteq> 0 \<and> build (cf_server_card config) (cf_request_timeout config) = Ok ()
     \<and> s = client_from_api (cf_auto_rejoin_voice config)"
  by (auto simp: client_new_def client_config_validate_def res_simps)

theorem configured_client_rejoins_iff:
  "with_request_timeout t (with_credential_store store (with_client_reconnect_policy p
      (with_auto_rejoin_voice b (client_config_new memory c)))) = Ok config \<Longrightarrow>
     (client_new build config = Ok s \<longleftrightarrow> build c t = Ok () \<and> s = client_from_api b)
     \<and> (with_api_client config api_card = Ok s' \<longleftrightarrow> api_card = c \<and> s' = client_from_api b)"
  by (auto simp: client_new_iff with_api_client_def with_api_client_check_def client_config_validate_def
      with_request_timeout_def with_credential_store_def with_client_reconnect_policy_def
      with_auto_rejoin_voice_def client_config_new_def res_simps split: if_splits)

text \<open>The join of the facade starts from the control handle that \<open>current_control\<close> returns.\<close>

lemma join_locked_current:
  "\<not> fc_stopped s \<Longrightarrow>
   join_locked sh t c s =
     (case current_control s of
        Err e \<Rightarrow> fail_join sh t e s
      | Ok h \<Rightarrow> if cv_status (fc_controls s ! h) \<noteq> CLive then fail_join sh t ControlNotLive s
                else goto t (JoinDiscover c h) s)"
  by (simp add: join_locked_def current_control_def ensure_open_def split: option.split)

end
