(* ===== verification/TestKit.thy ===== *)
theory TestKit
  imports ApiBodies RealtimeConfig "HOL-Library.Sublist"
begin

text \<open>
  \<open>crates/zephyrvox-testkit/src\<close>: the loader of fixture files, the scripted HTTP transport, the scripted
  WebSocket connector and the reconnect policy that the integration tests of the other crates run on. The
  file system (\<open>canonicalize\<close>, reading a file, UTF-8 decoding) and \<open>serde_json\<close> are arguments.
\<close>

section \<open>Paths\<close>

text \<open>
  \<open>std::path\<close> on Unix: repeated and trailing separators do not count, and \<open>.\<close> counts only at the start of
  a relative path. The component \<open>Prefix\<close> exists on Windows only.
\<close>

datatype path_component = RootDir | CurDir | ParentDir | NormalComponent string

definition is_absolute :: "string \<Rightarrow> bool" where
  "is_absolute p \<longleftrightarrow> starts_with p ''/''"

definition path_segments :: "string \<Rightarrow> string list" where
  "path_segments p = filter (\<lambda>s. s \<noteq> []) (split_on CHR ''/'' p)"

definition segment_component :: "string \<Rightarrow> path_component" where
  "segment_component s = (if s = ''..'' then ParentDir else NormalComponent s)"

definition path_components :: "string \<Rightarrow> path_component list" where
  "path_components p =
     (let segments = path_segments p;
          inner = (\<lambda>ss. map segment_component (filter (\<lambda>s. s \<noteq> ''.'') ss))
      in if is_absolute p then RootDir # inner segments
         else case segments of
                s # ss \<Rightarrow> if s = ''.'' then CurDir # inner ss else inner segments
              | [] \<Rightarrow> [])"

definition path_join :: "string \<Rightarrow> string \<Rightarrow> string" where
  "path_join root name =
     (if is_absolute name then name
      else if root = [] \<or> last root = CHR ''/'' then root @ name
      else root @ ''/'' @ name)"

definition path_starts_with :: "string \<Rightarrow> string \<Rightarrow> bool" where
  "path_starts_with p base \<longleftrightarrow> prefix (path_components base) (path_components p)"


section \<open>Fixtures\<close>

datatype 'io fixture_error = InvalidName string | FixtureIo 'io | FixtureUtf8 string | FixtureJson string

record 'io file_system =
  fs_canonicalize :: "string \<Rightarrow> (string, 'io) result"
  fs_read :: "string \<Rightarrow> (bytes, 'io) result"
  fs_utf8 :: "bytes \<Rightarrow> (string, string) result"

fun is_normal :: "path_component \<Rightarrow> bool" where
  "is_normal (NormalComponent s) = True"
| "is_normal _ = False"

definition resolve :: "'io file_system \<Rightarrow> string \<Rightarrow> string \<Rightarrow> (string, 'io fixture_error) result" where
  "resolve FS fixture_root name =
     (if name = [] \<or> is_absolute name then Err (InvalidName name)
      else if list_ex (\<lambda>c. \<not> is_normal c) (path_components name) then Err (InvalidName name)
      else
        and_then (map_err FixtureIo (fs_canonicalize FS fixture_root)) (\<lambda>root.
        and_then (map_err FixtureIo (fs_canonicalize FS (path_join root name))) (\<lambda>path.
          if \<not> path_starts_with path root then Err (InvalidName name) else Ok path)))"

definition read_bytes :: "'io file_system \<Rightarrow> string \<Rightarrow> string \<Rightarrow> (bytes, 'io fixture_error) result" where
  "read_bytes FS root name =
     and_then (resolve FS root name) (\<lambda>path. map_err FixtureIo (fs_read FS path))"

definition read_string :: "'io file_system \<Rightarrow> string \<Rightarrow> string \<Rightarrow> (string, 'io fixture_error) result" where
  "read_string FS root name =
     and_then (read_bytes FS root name) (\<lambda>bs. map_err FixtureUtf8 (fs_utf8 FS bs))"

definition read_json ::
  "'io file_system \<Rightarrow> (string \<Rightarrow> ('t, string) result) \<Rightarrow> string \<Rightarrow> string \<Rightarrow> ('t, 'io fixture_error) result" where
  "read_json FS from_str root name =
     and_then (read_string FS root name) (\<lambda>text. map_err FixtureJson (from_str text))"


section \<open>Scripts\<close>

text \<open>The HTTP fake: what it will answer, in order, and the requests it was given.\<close>

record 'u fake_http =
  fh_responses :: "(http_response, http_error) result list"
  fh_requests :: "'u http_request list"

definition fake_http_new :: "'u fake_http" where
  "fake_http_new = \<lparr>fh_responses = [], fh_requests = []\<rparr>"

definition push_result :: "(http_response, http_error) result \<Rightarrow> 'u fake_http \<Rightarrow> 'u fake_http" where
  "push_result r f = f\<lparr>fh_responses := fh_responses f @ [r]\<rparr>"

definition push_response :: "http_response \<Rightarrow> 'u fake_http \<Rightarrow> 'u fake_http" where
  "push_response r = push_result (Ok r)"

definition push_error :: "http_error \<Rightarrow> 'u fake_http \<Rightarrow> 'u fake_http" where
  "push_error e = push_result (Err e)"

definition queue_empty :: "(http_response, http_error) result" where
  "queue_empty = Err (HTransport ''fake HTTP response queue is empty'')"

definition fake_send :: "'u http_request \<Rightarrow> 'u fake_http \<Rightarrow> 'u fake_http \<times> (http_response, http_error) result" where
  "fake_send request f =
     (let f1 = f\<lparr>fh_requests := fh_requests f @ [request]\<rparr>
      in case fh_responses f1 of
           [] \<Rightarrow> (f1, queue_empty)
         | r # rs \<Rightarrow> (f1\<lparr>fh_responses := rs\<rparr>, r))"

text \<open>\<open>serde_json\<close> keeps the keys of a \<open>json!\<close> object sorted.\<close>

definition json_response :: "(json \<Rightarrow> bytes) \<Rightarrow> nat \<Rightarrow> json \<Rightarrow> http_response" where
  "json_response to_vec status value =
     http_response_new status [(''content-type'', ''application/json'')] (to_vec value)"

definition fake_envelope :: "(json \<Rightarrow> bytes) \<Rightarrow> json \<Rightarrow> http_response" where
  "fake_envelope to_vec data =
     json_response to_vec 200 (JObject [(''code'', JNumber 0), (''data'', data), (''message'', JString [])])"

definition fake_api_error :: "(json \<Rightarrow> bytes) \<Rightarrow> nat \<Rightarrow> int \<Rightarrow> string \<Rightarrow> http_response" where
  "fake_api_error to_vec status error_code message =
     json_response to_vec status
       (JObject [(''code'', JNumber error_code), (''data'', JNull), (''message'', JString message)])"

text \<open>The connector fake: the sessions it will hand out and the attempts it has counted.\<close>

record 'w fake_connector =
  fc_queue :: "'w list"
  fc_attempts :: u64

definition fake_connector_new :: "'w fake_connector" where
  "fake_connector_new = \<lparr>fc_queue = [], fc_attempts = 0\<rparr>"

definition push_session :: "'w \<Rightarrow> 'w fake_connector \<Rightarrow> 'w fake_connector" where
  "push_session session f = f\<lparr>fc_queue := fc_queue f @ [session]\<rparr>"

definition fake_connect :: "'w fake_connector \<Rightarrow> 'w fake_connector \<times> ('w, realtime_error) result" where
  "fake_connect f =
     (let f1 = f\<lparr>fc_attempts := fc_attempts f + 1\<rparr>
      in case fc_queue f1 of
           [] \<Rightarrow> (f1, Err RClosed)
         | session # rest \<Rightarrow> (f1\<lparr>fc_queue := rest\<rparr>, Ok session))"

text \<open>\<open>expect\<close> panics, here \<open>None\<close>, when the policy is refused.\<close>

definition deterministic_reconnect_policy :: "nat option \<Rightarrow> reconnect_policy option" where
  "deterministic_reconnect_policy maximum_attempts =
     (case policy_new (from_millis 1) (from_millis 1) 0 of
        Err _ \<Rightarrow> None
      | Ok p \<Rightarrow> Some (with_maximum_attempts maximum_attempts p))"


section \<open>Scripts answer in order\<close>

fun run_calls :: "('q \<Rightarrow> 's \<Rightarrow> 's \<times> 'r) \<Rightarrow> 'q list \<Rightarrow> 's \<Rightarrow> 's \<times> 'r list" where
  "run_calls call [] s = (s, [])"
| "run_calls call (q # qs) s =
     (case call q s of (s1, r) \<Rightarrow> case run_calls call qs s1 of (s2, rs) \<Rightarrow> (s2, r # rs))"

text \<open>
  What a test relies on in a fake: it answers the calls from its queue, in order, and with a fixed answer
  once the queue is used up.
\<close>

locale fifo_script =
  fixes queued :: "'s \<Rightarrow> 'i list"
    and put :: "'i \<Rightarrow> 's \<Rightarrow> 's"
    and call :: "'q \<Rightarrow> 's \<Rightarrow> 's \<times> 'r"
    and answer :: "'i \<Rightarrow> 'r"
    and exhausted :: 'r
  assumes queued_put: "queued (put i s) = queued s @ [i]"
    and call_empty: "queued s = [] \<Longrightarrow> queued (fst (call q s)) = [] \<and> snd (call q s) = exhausted"
    and call_next: "queued s = i # rest \<Longrightarrow> queued (fst (call q s)) = rest \<and> snd (call q s) = answer i"
begin

lemma queued_puts: "queued (fold put xs s) = queued s @ xs"
  by (induction xs arbitrary: s) (simp_all add: queued_put)

lemma answers_in_order:
  "snd (run_calls call qs s)
     = map answer (take (length qs) (queued s)) @ replicate (length qs - length (queued s)) exhausted
   \<and> queued (fst (run_calls call qs s)) = drop (length qs) (queued s)"
proof (induction qs arbitrary: s)
  case (Cons q qs)
  show ?case
  proof (cases "queued s")
    case Nil
    then show ?thesis using call_empty [OF Nil, of q] Cons.IH [of "fst (call q s)"] by (auto split: prod.splits)
  next
    case (Cons i rest)
    then show ?thesis using call_next [OF Cons, of q] Cons.IH [of "fst (call q s)"] by (auto split: prod.splits)
  qed
qed simp

end

locale recording_script = fifo_script queued put call answer exhausted
  for queued :: "'s \<Rightarrow> 'i list" and put :: "'i \<Rightarrow> 's \<Rightarrow> 's" and call :: "'q \<Rightarrow> 's \<Rightarrow> 's \<times> 'r"
    and answer :: "'i \<Rightarrow> 'r" and exhausted :: 'r +
  fixes seen :: "'s \<Rightarrow> 'q list"
  assumes seen_put: "seen (put i s) = seen s"
    and seen_call: "seen (fst (call q s)) = seen s @ [q]"
begin

lemma seen_puts: "seen (fold put xs s) = seen s"
  by (induction xs arbitrary: s) (simp_all add: seen_put)

lemma records_all: "seen (fst (run_calls call qs s)) = seen s @ qs"
proof (induction qs arbitrary: s)
  case (Cons q qs)
  then show ?case by (simp add: case_prod_beta seen_call)
qed simp

end

interpretation http_script: recording_script fh_responses push_result fake_send "\<lambda>r. r" queue_empty fh_requests
  by unfold_locales (auto simp: push_result_def fake_send_def Let_def split: list.splits)

interpretation connector_script: fifo_script fc_queue push_session "\<lambda>_ :: unit. fake_connect" Ok "Err RClosed"
  by unfold_locales (auto simp: push_session_def fake_connect_def Let_def split: list.splits)

lemma connector_attempts:
  "fc_attempts (fst (run_calls (\<lambda>_ :: unit. fake_connect) qs f)) = fc_attempts f + of_nat (length qs)"
proof (induction qs arbitrary: f)
  case (Cons q qs)
  have "fc_attempts (fst (fake_connect f)) = fc_attempts f + 1"
    by (simp add: fake_connect_def Let_def split: list.split)
  then show ?case using Cons [of "fst (fake_connect f)"] by (auto split: prod.splits simp: algebra_simps)
qed simp

text \<open>
  The fakes are faithful scripts. A fake HTTP transport answers a sequence of requests with the queued results
  in order, then with its empty-queue error, and has recorded exactly the requests in order; a fake connector
  hands out the queued sessions in order, then refuses with \<open>Closed\<close>, and counts every attempt.
\<close>

theorem fake_http_follows_script:
  "case run_calls fake_send qs (fold push_result rs fake_http_new) of
     (f, answers) \<Rightarrow>
       answers = take (length qs) rs @ replicate (length qs - length rs) queue_empty
       \<and> fh_requests f = qs \<and> fh_responses f = drop (length qs) rs"
  using http_script.answers_in_order [of qs "fold push_result rs fake_http_new"]
    http_script.records_all [of qs "fold push_result rs fake_http_new"]
  by (simp add: http_script.queued_puts http_script.seen_puts fake_http_new_def case_prod_beta)

theorem fake_connector_follows_script:
  "case run_calls (\<lambda>_ :: unit. fake_connect) us (fold push_session ws fake_connector_new) of
     (g, sessions) \<Rightarrow>
       sessions = map Ok (take (length us) ws) @ replicate (length us - length ws) (Err RClosed)
       \<and> fc_attempts g = of_nat (length us)"
proof -
  have "fc_attempts (fold push_session ws f) = fc_attempts f" for f :: "'a fake_connector"
    by (induction ws arbitrary: f) (simp_all add: push_session_def)
  then show ?thesis
    using connector_script.answers_in_order [of us "fold push_session ws fake_connector_new"]
      connector_attempts [of us "fold push_session ws fake_connector_new"]
    by (simp add: connector_script.queued_puts fake_connector_new_def case_prod_beta)
qed


section \<open>Fixtures stay in their directory\<close>

lemma split_on_nonempty [simp]: "split_on d s \<noteq> []"
  by (induction s) (auto split: list.splits)

lemma split_on_append:
  "split_on d (s @ d # t) = split_on d s @ split_on d t"
  by (induction s) (auto split: list.splits simp: Cons_eq_append_conv)

lemma split_on_slash_end: "split_on d (s @ [d]) = split_on d s @ [[]]"
  using split_on_append [of d s "[]"] by simp

lemma path_segments_append: "path_segments (r @ CHR ''/'' # n) = path_segments r @ path_segments n"
  by (simp add: path_segments_def split_on_append)

lemma path_segments_join:
  assumes "\<not> is_absolute n" "is_absolute r"
  shows "path_segments (path_join r n) = path_segments r @ path_segments n"
proof (cases "last r = CHR ''/''")
  case True
  have "r \<noteq> []" using assms(2) by (auto simp: is_absolute_def starts_with_def)
  then obtain r' where r: "r = r' @ [CHR ''/'']" using True by (metis append_butlast_last_id)
  then show ?thesis
    using assms path_segments_append [of r' n] path_segments_append [of r' "[]"]
    by (simp add: path_join_def path_segments_def)
next
  case False
  have "r \<noteq> []" using assms(2) by (auto simp: is_absolute_def starts_with_def)
  then show ?thesis using assms False path_segments_append [of r n] by (simp add: path_join_def)
qed

lemma is_absolute_join: "is_absolute r \<Longrightarrow> \<not> is_absolute n \<Longrightarrow> is_absolute (path_join r n)"
  by (cases r) (auto simp: path_join_def is_absolute_def starts_with_def)

text \<open>Joining appends the components.\<close>

lemma path_components_join:
  assumes "is_absolute r" "\<not> is_absolute n" "list_all is_normal (path_components n)"
  shows "path_components (path_join r n) = path_components r @ path_components n"
proof -
  have "path_components n = map segment_component (filter (\<lambda>s. s \<noteq> ''.'') (path_segments n))"
    using assms(2,3) by (auto simp: path_components_def Let_def split: list.splits if_splits)
  then show ?thesis
    using assms is_absolute_join [OF assms(1,2)] path_segments_join [OF assms(2,1)]
    by (simp add: path_components_def Let_def)
qed

lemma list_ex_not_normal: "list_ex (\<lambda>c. \<not> is_normal c) cs \<longleftrightarrow> \<not> list_all is_normal cs"
  by (induction cs) auto

lemma resolve_Ok_iff:
  "resolve FS fixture_root name = Ok path \<longleftrightarrow>
     name \<noteq> [] \<and> \<not> is_absolute name \<and> list_all is_normal (path_components name)
     \<and> (\<exists>root. fs_canonicalize FS fixture_root = Ok root \<and> fs_canonicalize FS (path_join root name) = Ok path
          \<and> path_starts_with path root)"
  by (auto simp: resolve_def res_simps list_ex_not_normal)

text \<open>
  A fixture never escapes its directory: every file that the loader reads lies, component by
  component, below the canonical root, whatever symbolic links there are; the name is relative and has no
  parent or current directory in it. Where canonicalization follows no links every such name is found, as
  the path of the root followed by its components.
\<close>

theorem fixtures_stay_inside:
  "(read_bytes FS fixture_root name = Ok bs \<longrightarrow>
     (\<exists>root path. fs_canonicalize FS fixture_root = Ok root \<and> fs_read FS path = Ok bs
        \<and> prefix (path_components root) (path_components path)
        \<and> \<not> is_absolute name \<and> list_all is_normal (path_components name)))
   \<and> (fs_canonicalize FS fixture_root = Ok root \<and> is_absolute root
        \<and> fs_canonicalize FS (path_join root name) = Ok (path_join root name)
        \<and> name \<noteq> [] \<and> \<not> is_absolute name \<and> list_all is_normal (path_components name) \<longrightarrow>
        resolve FS fixture_root name = Ok (path_join root name)
        \<and> path_components (path_join root name) = path_components root @ path_components name)"
  by (auto simp: read_bytes_def res_simps resolve_Ok_iff path_starts_with_def path_components_join prefix_def)

definition sample_fs :: "string file_system" where
  "sample_fs = \<lparr>fs_canonicalize = Ok, fs_read = (\<lambda>p. if p = ''/f/a/b'' then Ok [1] else Err ''missing''), fs_utf8 = (\<lambda>_. Err [])\<rparr>"

theorem fixtures_example:
  "read_bytes sample_fs ''/f/'' ''a/b'' = Ok [1]
   \<and> prefix (path_components ''/f/'') (path_components ''/f/a/b'')
   \<and> resolve sample_fs ''/f/'' ''a/b'' = Ok ''/f/a/b''
   \<and> resolve sample_fs ''/f/'' ''a/../../b'' = Err (InvalidName ''a/../../b'')"
proof -
  have "resolve sample_fs ''/f/'' ''a/../../b'' = Err (InvalidName ''a/../../b'')" by code_simp
  moreover have "read_bytes sample_fs ''/f/'' ''a/b'' = Ok [1]" by code_simp
  moreover have "is_absolute ''/f/'' \<and> \<not> is_absolute ''a/b'' \<and> list_all is_normal (path_components ''a/b'')
    \<and> path_join ''/f/'' ''a/b'' = ''/f/a/b''"
    by code_simp
  ultimately show ?thesis
    using fixtures_stay_inside [of sample_fs "''/f/''" "''a/b''" "[1]" "''/f/''"]
    by (auto simp: sample_fs_def)
qed

text \<open>The test policy is accepted and waits one millisecond before every attempt, whatever the clock says.\<close>

theorem deterministic_policy_delay:
  "\<exists>p. deterministic_reconnect_policy m = Some p \<and> rp_maximum_attempts p = m \<and> rp_enabled p
     \<and> (\<forall>clock attempt. delay clock p attempt = from_millis 1)"
proof -
  let ?m = "from_millis 1"
  have "min (sat_mul_u128 ?m (2 ^ e)) ?m = ?m" for e
    using mult_le_mono2 [of 1 "2 ^ e" ?m] by (simp add: sat_mul_u128_def U128_MAX_def from_millis_def)
  then show ?thesis
    by (simp add: deterministic_reconnect_policy_def policy_new_def with_maximum_attempts_def delay_def Let_def)
      (simp add: from_millis_def sat_add_u128_def U128_MAX_def U64_MAX_def)
qed

section \<open>Responses of the fake\<close>

text \<open>What a JSON value of an envelope is read as, when reading undoes writing.\<close>

definition reads_envelopes :: "(json \<Rightarrow> bytes) \<Rightarrow> json response_json \<Rightarrow> bool" where
  "reads_envelopes to_vec RJ \<longleftrightarrow>
     (\<forall>c d m. rj_envelope RJ (to_vec (JObject [(''code'', JNumber c), (''data'', d), (''message'', JString m)]))
        = Ok \<lparr>ae_code = c, ae_message = m, ae_data = (if d = JNull then None else Some d)\<rparr>)"

lemma fake_headers:
  "response_header name (json_response to_vec status v)
     = (if to_ascii_lowercase name = ''content-type'' then Some ''application/json'' else None)"
proof -
  have "to_ascii_lowercase ''content-type'' = ''content-type''" by code_simp
  then show ?thesis by (simp add: response_header_def json_response_def http_response_new_def)
qed

lemma fake_parse_headers:
  "parse_headers (json_response to_vec status v) endpoint
     = Ok \<lparr>rh_etag = None, rh_parent_etag = None, rh_command_id = None, rh_state_cursor = None,
           rh_stream_epoch = None, rh_geid = None, rh_sync_required = False\<rparr>"
proof -
  have "list_all (\<lambda>n. to_ascii_lowercase n \<noteq> ''content-type'')
      [ETAG, PARENT_ETAG, STATE_CURSOR, STREAM_EPOCH, GEID, SYNC_REQUIRED, COMMAND_ID]"
    by code_simp
  then show ?thesis
    by (simp add: parse_headers_def fake_headers parse_optional_etag_def parse_optional_cursor_def
        parse_optional_epoch_def parse_optional_geid_def parse_sync_required_def parse_optional_def)
qed

text \<open>The client decodes the fake's envelope to its data and the fake's API error to that error.\<close>

theorem fake_responses_decode:
  assumes "reads_envelopes to_vec RJ"
  shows "d \<noteq> JNull \<Longrightarrow> dec d = Ok t \<Longrightarrow>
      \<exists>h. decode_json RJ dec (fake_envelope to_vec d) endpoint = Ok \<lparr>ar_data = t, ar_status = 200, ar_headers = h\<rparr>"
    "status \<noteq> 204 \<Longrightarrow> c \<noteq> 0 \<Longrightarrow>
      \<exists>a. decode_json RJ dec (fake_api_error to_vec status c m) endpoint
            = Err (if status = 412 then PreconditionFailed a else HApi a)
        \<and> ap_code a = c \<and> ap_message a = m \<and> ap_http_status a = Some status"
proof -
  have body: "rp_body (json_response to_vec st v) = to_vec v" "rp_status (json_response to_vec st v) = st" for st v
    by (simp_all add: json_response_def http_response_new_def)
  show "\<exists>h. decode_json RJ dec (fake_envelope to_vec d) endpoint = Ok \<lparr>ar_data = t, ar_status = 200, ar_headers = h\<rparr>"
    if "d \<noteq> JNull" "dec d = Ok t"
    using assms that
    by (simp add: decode_json_def fake_envelope_def body fake_parse_headers reads_envelopes_def into_typed_def into_result_def)
  show "\<exists>a. decode_json RJ dec (fake_api_error to_vec status c m) endpoint
            = Err (if status = 412 then PreconditionFailed a else HApi a)
        \<and> ap_code a = c \<and> ap_message a = m \<and> ap_http_status a = Some status"
    if "status \<noteq> 204" "c \<noteq> 0"
    using assms that
    by (simp add: decode_json_def fake_api_error_def body fake_parse_headers reads_envelopes_def into_typed_def into_result_def
        map_envelope_error_def with_http_context_def Let_def)
qed

end
