(* ===== verification/Spec2Isabelle.thy ===== *)
theory Spec2Isabelle
  imports VoiceSession StateEvents Connection PinnedClient FacadeProgress EndpointLaws
    IdSerde Redaction HostCalls TestKit
begin

text \<open>
  \<^bold>\<open>The ZephyrVox Rust SDK (\<open>src/crates\<close>).\<close>

  The SDK is a client for a voice and chat server. It reaches the server through three channels: HTTP
  requests (\<open>zephyrvox-http\<close>), a WebSocket control connection that keeps a projection of the server's
  state up to date (\<open>zephyrvox-realtime\<close>), and an encrypted UDP media session (\<open>zephyrvox-voice\<close>).
  \<open>zephyrvox-types\<close> and \<open>zephyrvox-wire\<close> hold the shared data types and wire formats; \<open>zephyrvox-sdk\<close> is the
  facade that ties the channels together: it discovers the server, logs in, connects, joins and leaves
  voice channels, relays events and shuts everything down.

  \<^bold>\<open>How the parts interact.\<close> A server card (a URL with a pinned TLS key) names the server. The HTTP client
  and the control connection both check that they talk to that card's authority and that the peer's
  certificate carries the pinned key. The HTTP client owns the credentials; the control connection asks it
  for tokens and snapshots through a provider. Joining voice is an HTTP mutation bound to the identity of
  the control connection; its answer configures a UDP session, whose key lives in a cache shared by the
  facade. When the control connection loses its authority the facade's event relay stops the UDP session and,
  if asked to, joins again after the reconnect.

  \<^bold>\<open>Theories and sources.\<close>

  \<^item> \<open>Prelude\<close>, \<open>RustText\<close>, \<open>HexText\<close>, \<open>IpText\<close>: results, words, bytes and the parts of Rust's text handling that
    the code uses (decimal and hexadecimal printing and parsing, trimming by Unicode white space, splitting,
    parsing and printing of IP addresses). The lemma collection \<open>res_simps\<close> reads the \<open>?\<close> operator.
  \<^item> \<open>Ids\<close>, \<open>DomainState\<close> (\<open>types\<close>): identifiers with the contract of a textual identifier as the locales
    \<open>text_codec\<close> and \<open>canonical_codec\<close>, interpreted by every identifier; snapshots, events and metadata. \<open>IdSerde\<close> adds the serde readers
    and writers of the identifiers.
  \<^item> \<open>WireConstants\<close>, \<open>WireHeaders\<close>, \<open>ApiEnvelope\<close>, \<open>ServerCard\<close> (\<open>wire\<close>): sizes, header names and idempotency
    keys, the response envelope, server cards and fingerprints.
  \<^item> \<open>VoiceConfig\<close>, \<open>PacketCodec\<close>, \<open>ReplayWindow\<close>, \<open>VoiceSession\<close> (\<open>voice\<close>): session configuration and the key
    cache, the datagram codec over an authenticated cipher, the sliding replay window on machine words, and
    the session: worker, sending, stopping, as an interleaving step relation.
  \<^item> \<open>RealtimeTypes\<close>, \<open>RealtimeConfig\<close>, \<open>Frame\<close>, \<open>SyncMachine\<close>, \<open>Projection\<close>, \<open>StateEvents\<close>, \<open>Connection\<close>
    (\<open>realtime\<close>): frames, the synchronisation machine, the state projection and its store, the receivers of
    its events across snapshot boundaries, and the connection with its command waiters, frame processing,
    handshake, socket loop and reconnecting engine.
  \<^item> \<open>HttpMessages\<close>, \<open>Credentials\<close>, \<open>RefreshFlight\<close>, \<open>HttpClient\<close>, \<open>Discovery\<close>, \<open>ApiBodies\<close>, \<open>Endpoints\<close>,
    \<open>EndpointLaws\<close> (\<open>http\<close>): requests, options and responses, the credential store (a contract that the memory
    store fulfils) and one token refresh, the shared refresh of concurrent callers, sending with one retry and
    the account flows, discovery and voice negotiation, and all resource endpoints with their bodies.
  \<^item> \<open>TlsPin\<close>, \<open>Transports\<close>, \<open>PinnedClient\<close>: the pinned certificate verifier of both crates, the two production
    transports, and the pinned configuration with what verifier and transports give together.
  \<^item> \<open>Negotiation\<close>, \<open>Facade\<close>, \<open>FacadeLocks\<close>, \<open>FacadeOwners\<close>, \<open>FacadeLaws\<close>, \<open>FacadeProgress\<close> (\<open>sdk\<close>): configuration,
    event translation and voice negotiation; then the client as a machine of tasks that interleave at their
    locks and network waits, with its invariants and its runs.
  \<^item> \<open>HostCalls\<close> (\<open>voice\<close>, \<open>realtime\<close>, \<open>sdk\<close>): the calls of the host around these machines: opening the voice
    socket, the constructors of sessions and clients, waiting for a status, and the guards of the facade.
  \<^item> \<open>Redaction\<close> (all crates): the hand-written \<open>Debug\<close> implementations. \<open>TestKit\<close> (\<open>testkit\<close>): the fixture
    loader, the scripted transport and connector, and the test policy.

  \<^bold>\<open>State and operations.\<close> A struct is a record and an enum a datatype with the source's cases; an operation is
  a function that takes the state and returns it changed, with its errors as values of \<open>result\<close>. A loop is
  structural recursion on the input it consumes (datagrams, frames, messages, waits), so all functions are total;
  \<open>engine_run\<close> recurses on the list of passes it is given, and its bound on attempts is a theorem rather than a
  fuel. The only fuel is in \<open>trim\<close> of \<open>RustText\<close>, the length of the text, which its lemmas show to be enough. An \<open>async\<close>
  function whose interleaving matters is split where it waits: \<open>session_step\<close>, \<open>flight_step\<close>, \<open>events_do\<close> and
  \<open>facade_do\<close> are the steps of one task, and reachable states are all interleavings. Machine integers are
  words where they wrap (transport sequences, the replay window, counters, generations), integers otherwise.

  \<^bold>\<open>Parameters.\<close> Code that is not in the repository is an argument: the cipher and key derivation (\<open>aead\<close>), JSON
  (\<open>serde_json\<close>), the \<open>url\<close> and \<open>form_urlencoded\<close> crates, base64, SHA-256, \<open>rustls\<close> (\<open>pki\<close>), \<open>reqwest\<close> and
  \<open>tungstenite\<close>, the broadcast channel of \<open>tokio\<close>, the values that a watch channel shows, name resolution and sockets, the file
  system, the clock, the injected transport and the injected credential store. What a theorem needs of
  them is a hypothesis of that theorem, and a witness shows that it can hold.

  \<^bold>\<open>Interfaces.\<close> What one part relies on in another is a locale, interpreted on the model's definitions:
  \<open>text_codec\<close> and \<open>canonical_codec\<close> (identifiers), \<open>session_key_store\<close> (the key cache), \<open>replay_filter\<close> (the replay
  window), \<open>worker_branch\<close> (the branches of the session worker), \<open>ordered_stream\<close> (the synchronisation machine and
  the store), \<open>keyed_upsert\<close> (the tables of the projection), \<open>credential_store\<close> (the memory store), \<open>draining\<close>
  (the calls of the facade), \<open>serde_codec\<close> (the readers and writers of identifiers), and \<open>fifo_script\<close> with its
  extension \<open>recording_script\<close> (the scripted connector and transport).

  \<^bold>\<open>What the lemmas show.\<close>

  \<^item> Voice: media frames survive encoding and decoding; no encryption nonce is used twice; what a
    client accepts was authenticated for its session; nothing is delivered twice; the two-word replay window
    refines the filter that remembers everything; a stopped session stays stopped.
  \<^item> Control connection: machine and store agree between frames; \<open>Live\<close> means that all accepted
    events are installed; an event is installed exactly once or replaced by a snapshot; the projection refines
    tables keyed by identifier; every command is answered at most once; the engine ends closed; a receiver of
    state events hands out events of the current generation only, in order and without repetition.
  \<^item> HTTP: at most one refresh at a time whatever is dropped; the active token pair is the persisted one; calls
    send at most two requests equal up to the bearer token; all mutations carry one idempotency key and their
    preconditions; uploads and update bodies are read back as they were meant.
  \<^item> Server identity: cards and fingerprints round trip, parsing is strict, the verifier accepts exactly the
    pinned key, the reader finds the public key in every DER certificate, transports stay on the card's
    authority, and a TLS card is only ever answered by the holder of the pinned key.
  \<^item> Host side: identifiers survive serde; log output does not depend on secrets; waiting on a control
    connection ends with its engine; the voice socket uses the first address that opens; calls after a
    shutdown are refused; fixtures stay inside their directory and scripted transports follow their script.
  \<^item> Facade: what HTTP validates the voice layer accepts; shutdown is final under every interleaving; the
    locks are taken in a fixed order, so that no calls wait for each other in a circle, and calls in progress
    end after a bounded number of steps.
  \<^item> Defects of the code as theorems about the model: a late close that hides a terminal status, orphaned
    memberships after the deletion of a group, an abandoned refresh flight, a cancelled shutdown that leaks,
    a leave undone by a rejoin, IPv6 cards that no transport accepts, and event receivers that skip events or
    report a live store as closed after a snapshot.

  \<^bold>\<open>Not modelled.\<close> The traits for host codecs and audio devices (no code); the methods that only hand a call to
  a \<open>tokio\<close> channel (\<open>EventStream\<close>, the subscriptions of the handles, the in-memory WebSocket pair of the test
  kit) or to a socket (the UDP pair of the test kit); the signature checks that the verifiers hand to \<open>rustls\<close>;
  accessors that only return a field; the examples, which are scripts against a live server; and the crate roots.
\<close>

end
